(* ===== verification/Prelude.thy ===== *)
theory Prelude
  imports Main "HOL-Library.Word" "HOL-Library.Finite_Map"
begin

text \<open>
  Shared vocabulary of the development: the names of the model's basic types, Go's 64-bit
  wrap-around, Go maps as finite maps together with the order in which a \<open>range\<close> loop
  visits them, and the generic lemmas on lists and finite maps that the components share.

  A Go map \<open>map[K]V\<close> is a value of type \<open>('k, 'v) fmap\<close>: \<open>fmlookup m k\<close> is \<open>m[k]\<close>,
  \<open>fmupd k v m\<close> is the map after \<open>m[k] = v\<close>, \<open>fmdrop k m\<close> after \<open>delete(m, k)\<close>, and
  \<open>go_len m\<close> is \<open>len(m)\<close>. The order of a \<open>range\<close> loop is not specified by Go, so every
  operation that depends on it takes the order of this run as an argument: a list of keys
  that satisfies \<open>range_order m\<close>.
\<close>

section \<open>Types\<close>

type_synonym byte = "8 word"
type_synonym int32 = "32 word"
type_synonym gostring = string

text \<open>
  Instants and durations are nanoseconds. An instant counts from Go's zero time
  (January 1 of year 1, UTC), so \<open>time.Time{}\<close> is 0 and \<open>IsZero\<close> is equality with 0.
  A duration is an \<open>int64\<close>: operations of the code that can leave that range
  apply \<open>wrap64\<close>.
\<close>

type_synonym time = int
type_synonym duration = int

abbreviation millisecond :: duration where "millisecond \<equiv> 1000000"
abbreviation second :: duration where "second \<equiv> 1000000000"
abbreviation minute :: duration where "minute \<equiv> 60 * second"

named_theorems range_loop \<open>facts that remove the visiting order of a range loop\<close>
named_theorems wrap_simps \<open>facts about 64-bit wrap-around\<close>

section \<open>Wrap-around of int64\<close>

definition wrap64 :: "int \<Rightarrow> int" where
  "wrap64 n = (n + 2 ^ 63) mod 2 ^ 64 - 2 ^ 63"

definition int64_range :: "int \<Rightarrow> bool" where
  "int64_range n \<longleftrightarrow> - (2 ^ 63) \<le> n \<and> n < 2 ^ 63"

lemma wrap64_id [wrap_simps]: "int64_range n \<Longrightarrow> wrap64 n = n"
  by (simp add: wrap64_def int64_range_def)

lemma wrap64_in_range [wrap_simps]: "int64_range (wrap64 n)"
  by (simp add: wrap64_def int64_range_def)

lemma wrap64_small [wrap_simps]: "0 \<le> n \<Longrightarrow> n < 2 ^ 63 \<Longrightarrow> wrap64 n = n"
  by (simp add: wrap64_id int64_range_def)

text \<open>
  \<open>t.Sub(u)\<close> saturates at the limits of a duration; \<open>time.Since(u)\<close> is \<open>now.Sub(u)\<close>.
\<close>

definition time_sub :: "time \<Rightarrow> time \<Rightarrow> duration" where
  "time_sub t u = max (- (2 ^ 63)) (min (2 ^ 63 - 1) (t - u))"

lemma time_sub_exact: "int64_range (t - u) \<Longrightarrow> time_sub t u = t - u"
  by (simp add: time_sub_def int64_range_def)

lemma time_sub_gt_iff: "- (2 ^ 63) \<le> d \<Longrightarrow> d < 2 ^ 63 - 1 \<Longrightarrow> d < time_sub t u \<longleftrightarrow> d < t - u"
  by (auto simp: time_sub_def)

lemma time_sub_ge_iff: "- (2 ^ 63) < d \<Longrightarrow> d < 2 ^ 63 \<Longrightarrow> d \<le> time_sub t u \<longleftrightarrow> d \<le> t - u"
  by (auto simp: time_sub_def)

lemma time_sub_mono: "t \<le> t' \<Longrightarrow> time_sub t u \<le> time_sub t' u"
  by (auto simp: time_sub_def)

section \<open>Rounding and tickers\<close>

text \<open>
  \<open>d.Round(m)\<close> for a positive \<open>m\<close>: to the nearest multiple, halfway values away from zero; a result
  that does not fit is the limit of a duration. The comparisons are done without wrap-around, as
  \<open>lessThanHalf\<close> and the tests of the library do them.
\<close>

definition duration_round :: "duration \<Rightarrow> duration \<Rightarrow> duration" where
  "duration_round d m =
    (let r = \<bar>d\<bar> mod m in
     if 2 * r < m then (if d < 0 then d + r else d - r)
     else if d < 0 then max (- (2 ^ 63)) (d - m + r) else min (2 ^ 63 - 1) (d + m - r))"

text \<open>A \<open>time.Ticker\<close>: its channel has room for one tick, later ticks are dropped while it is full.\<close>

record ticker =
  tk_period :: duration
  tk_next :: time
  tk_pending :: bool

definition NewTicker :: "time \<Rightarrow> duration \<Rightarrow> ticker" where
  "NewTicker now period = \<lparr>tk_period = period, tk_next = now + period, tk_pending = False\<rparr>"

definition ticker_fire :: "ticker \<Rightarrow> ticker" where
  "ticker_fire t = t\<lparr>tk_next := tk_next t + tk_period t, tk_pending := True\<rparr>"

definition ticker_take :: "ticker \<Rightarrow> ticker" where
  "ticker_take t = t\<lparr>tk_pending := False\<rparr>"

section \<open>Finite maps and range loops\<close>

definition go_len :: "('k, 'v) fmap \<Rightarrow> nat" where
  "go_len m = fcard (fmdom m)"

definition range_order :: "('k, 'v) fmap \<Rightarrow> 'k list \<Rightarrow> bool" where
  "range_order m ks \<longleftrightarrow> distinct ks \<and> fset_of_list ks = fmdom m"

text \<open>\<open>for k, v := range src { dst[k] = v }\<close>, which \<open>maps.Copy(dst, src)\<close> is, too.\<close>

definition copy_loop :: "('k, 'v) fmap \<Rightarrow> 'k list \<Rightarrow> ('k, 'v) fmap \<Rightarrow> ('k, 'v) fmap" where
  "copy_loop src ks dst =
     fold (\<lambda>k d. case fmlookup src k of None \<Rightarrow> d | Some v \<Rightarrow> fmupd k v d) ks dst"

lemma range_order_distinct: "range_order m ks \<Longrightarrow> distinct ks"
  by (simp add: range_order_def)

lemma range_order_set: "range_order m ks \<Longrightarrow> set ks = fset (fmdom m)"
  by (metis range_order_def fset_of_list.rep_eq)

lemma range_order_mem: "range_order m ks \<Longrightarrow> k \<in> set ks \<longleftrightarrow> (\<exists>v. fmlookup m k = Some v)"
  by (simp add: range_order_set fmlookup_dom_iff)

lemma range_order_length: "range_order m ks \<Longrightarrow> length ks = go_len m"
  by (metis fcard.rep_eq go_len_def range_order_set range_order_distinct distinct_card)

lemma range_order_exists: "\<exists>ks. range_order m ks"
proof -
  obtain ks where "set ks = fset (fmdom m)" and "distinct ks"
    using finite_distinct_list [of "fset (fmdom m)"] by auto
  then have "range_order m ks"
    by (simp add: range_order_def fset_of_list.rep_eq fset_inject [symmetric])
  then show ?thesis ..
qed

lemma go_len_zero_iff: "go_len m = 0 \<longleftrightarrow> m = fmempty"
proof
  assume "go_len m = 0"
  then have "fmdom m = {||}" by (simp add: go_len_def)
  then show "m = fmempty"
    by (metis fmap_ext fmdom_empty fmdom_notD fempty_iff)
qed (simp add: go_len_def)

lemma go_len_empty [simp]: "go_len fmempty = 0"
  by (simp add: go_len_def)

lemma copy_loop_lookup:
  "fmlookup (copy_loop src ks dst) k =
     (if k \<in> set ks \<and> fmlookup src k \<noteq> None then fmlookup src k else fmlookup dst k)"
proof (induction ks arbitrary: dst)
  case Nil
  then show ?case by (simp add: copy_loop_def)
next
  case (Cons x ks)
  then show ?case
    by (auto simp: copy_loop_def split: option.splits)
qed

text \<open>The copy does not depend on the order in which the source is visited.\<close>

lemma copy_loop_fmadd [range_loop]:
  "range_order src ks \<Longrightarrow> copy_loop src ks dst = dst ++\<^sub>f src"
  by (rule fmap_ext) (auto simp: copy_loop_lookup range_order_mem fmlookup_dom_iff)

lemma fmadd_lookup: "fmlookup (m ++\<^sub>f n) k = (case fmlookup n k of None \<Rightarrow> fmlookup m k | Some v \<Rightarrow> Some v)"
  by (auto simp: fmlookup_dom_iff split: option.splits)

section \<open>Lists\<close>

lemma fold_invariant_list:
  assumes "P s" and "\<And>x s. x \<in> set xs \<Longrightarrow> P s \<Longrightarrow> P (f x s)"
  shows "P (fold f xs s)"
  using assms by (induction xs arbitrary: s) auto

lemma list_all_concat: "list_all P (concat xss) \<longleftrightarrow> list_all (list_all P) xss"
  by (induction xss) auto

end
