(* ===== verification/Go_Text.thy ===== *)
theory Go_Text
  imports Prelude
begin

text \<open>
  The parts of Go's standard library for strings that the exporter uses. A Go string is a
  sequence of bytes, here a list of 8-bit characters. \<open>decode_rune\<close> and \<open>encode_rune\<close> are
  UTF-8 as in package \<open>unicode/utf8\<close> (an invalid sequence decodes to U+FFFD of width 1),
  \<open>range_string\<close> is the loop \<open>for i, r := range s\<close>, and on top of them stand
  \<open>strings.TrimSpace\<close>, \<open>strings.Split\<close>, \<open>strings.ToLower\<close>, \<open>strconv.Atoi\<close>,
  \<open>strconv.ParseBool\<close> and decimal formatting.

  The case tables of package \<open>unicode\<close> beyond Latin-1 are data of the library: they are the
  parameter \<open>unicode_tables\<close> of the operations that use them.
\<close>

section \<open>Bytes and runes\<close>

definition code :: "char \<Rightarrow> nat" where
  "code c = of_char c"

definition byte_char :: "byte \<Rightarrow> char" where
  "byte_char b = char_of (unat b)"

definition char_byte :: "char \<Rightarrow> byte" where
  "char_byte c = of_nat (of_char c)"

definition go_string :: "byte list \<Rightarrow> gostring" where
  "go_string = map byte_char"

definition go_bytes :: "gostring \<Rightarrow> byte list" where
  "go_bytes = map char_byte"

lemma code_less: "code c < 256"
  by (simp add: code_def)

lemma code_inj [simp]: "code c = code d \<longleftrightarrow> c = d"
  by (simp add: code_def)

lemma code_char_of [simp]: "n < 256 \<Longrightarrow> code (char_of n) = n"
  by (simp add: code_def)

lemma byte_char_char_byte [simp]: "byte_char (char_byte c) = c"
proof -
  have "unat (of_nat (of_char c) :: byte) = of_char c"
    using code_less [of c] by (simp add: code_def unat_of_nat)
  then show ?thesis by (simp add: byte_char_def char_byte_def)
qed

lemma char_byte_byte_char [simp]: "char_byte (byte_char b) = b"
proof -
  have "unat b < 256" using unsigned_less [of b] by simp
  then show ?thesis by (simp add: byte_char_def char_byte_def)
qed

lemma go_string_go_bytes [simp]: "go_string (go_bytes s) = s"
  by (simp add: go_string_def go_bytes_def comp_def)

lemma go_bytes_go_string [simp]: "go_bytes (go_string b) = b"
  by (simp add: go_string_def go_bytes_def comp_def)

section \<open>UTF-8\<close>

definition rune_error :: nat where
  "rune_error = 65533"

definition in_range :: "nat \<Rightarrow> nat \<Rightarrow> char \<Rightarrow> bool" where
  "in_range lo hi c \<longleftrightarrow> lo \<le> code c \<and> code c \<le> hi"

abbreviation continuation :: "char \<Rightarrow> bool" where
  "continuation \<equiv> in_range 128 191"

text \<open>\<open>utf8.DecodeRuneInString\<close>: the first rune and its width.\<close>

fun decode_rune :: "gostring \<Rightarrow> nat \<times> nat" where
  "decode_rune [] = (rune_error, 0)"
| "decode_rune (c0 # cs) =
    (let b0 = code c0 in
     if b0 < 128 then (b0, 1)
     else if in_range 194 223 c0 then
       (case cs of
          c1 # _ \<Rightarrow> if continuation c1
                    then ((b0 - 192) * 64 + (code c1 - 128), 2) else (rune_error, 1)
        | _ \<Rightarrow> (rune_error, 1))
     else if in_range 224 239 c0 then
       (case cs of
          c1 # c2 # _ \<Rightarrow>
            if in_range (if b0 = 224 then 160 else 128) (if b0 = 237 then 159 else 191) c1
               \<and> continuation c2
            then ((b0 - 224) * 4096 + (code c1 - 128) * 64 + (code c2 - 128), 3)
            else (rune_error, 1)
        | _ \<Rightarrow> (rune_error, 1))
     else if in_range 240 244 c0 then
       (case cs of
          c1 # c2 # c3 # _ \<Rightarrow>
            if in_range (if b0 = 240 then 144 else 128) (if b0 = 244 then 143 else 191) c1
               \<and> continuation c2 \<and> continuation c3
            then ((b0 - 240) * 262144 + (code c1 - 128) * 4096 + (code c2 - 128) * 64
                    + (code c3 - 128), 4)
            else (rune_error, 1)
        | _ \<Rightarrow> (rune_error, 1))
     else (rune_error, 1))"

text \<open>\<open>utf8.AppendRune\<close>: surrogates and values above U+10FFFF are written as U+FFFD.\<close>

definition valid_rune :: "nat \<Rightarrow> bool" where
  "valid_rune r \<longleftrightarrow> r < 55296 \<or> 57343 < r \<and> r \<le> 1114111"

definition encode_valid :: "nat \<Rightarrow> gostring" where
  "encode_valid r =
    (if r < 128 then [char_of r]
     else if r < 2048 then [char_of (192 + r div 64), char_of (128 + r mod 64)]
     else if r < 65536 then
       [char_of (224 + r div 4096), char_of (128 + (r div 64) mod 64), char_of (128 + r mod 64)]
     else
       [char_of (240 + r div 262144), char_of (128 + (r div 4096) mod 64),
        char_of (128 + (r div 64) mod 64), char_of (128 + r mod 64)])"

definition encode_rune :: "nat \<Rightarrow> gostring" where
  "encode_rune r = encode_valid (if valid_rune r then r else rune_error)"

lemma decode_rune_width: "snd (decode_rune s) \<le> length s"
  by (cases s) (auto simp: Let_def split: list.splits)

lemma decode_rune_width_pos: "s \<noteq> [] \<Longrightarrow> 0 < snd (decode_rune s)"
  by (cases s) (auto simp: Let_def split: list.splits)

lemma decode_rune_ascii [simp]: "code c < 128 \<Longrightarrow> decode_rune (c # cs) = (code c, 1)"
  by simp

lemma encode_rune_ascii [simp]: "r < 128 \<Longrightarrow> encode_rune r = [char_of r]"
  by (simp add: encode_rune_def encode_valid_def valid_rune_def)

lemma encode_rune_nonempty: "encode_rune r \<noteq> []"
  by (simp add: encode_rune_def encode_valid_def)

declare decode_rune.simps(2) [simp del]

text \<open>\<open>for i, r := range s\<close>: the byte offsets and runes, in order.\<close>

function range_from :: "nat \<Rightarrow> gostring \<Rightarrow> (nat \<times> nat) list" where
  "range_from i s =
    (if s = [] then []
     else (case decode_rune s of (r, w) \<Rightarrow> (i, r) # range_from (i + w) (drop w s)))"
  by pat_completeness auto
termination
proof (relation "measure (\<lambda>(i, s). length s)", goal_cases)
  case (2 i s)
  then show ?case using decode_rune_width_pos [of s] by (cases "decode_rune s") auto
qed simp

declare range_from.simps [simp del]

definition range_string :: "gostring \<Rightarrow> (nat \<times> nat) list" where
  "range_string s = range_from 0 s"

lemma range_from_Nil [simp]: "range_from i [] = []"
  by (simp add: range_from.simps)

lemma range_from_ascii:
  "code c < 128 \<Longrightarrow> range_from i (c # cs) = (i, code c) # range_from (Suc i) cs"
  by (simp add: range_from.simps [of i "c # cs"])

lemma range_from_nonempty: "s \<noteq> [] \<Longrightarrow> range_from i s \<noteq> []"
  by (subst range_from.simps) (simp split: prod.splits)

lemma range_from_ascii_all:
  "list_all (\<lambda>c. code c < 128) s \<Longrightarrow> map snd (range_from i s) = map code s"
  by (induction s arbitrary: i) (auto simp: range_from_ascii)

text \<open>\<open>utf8.ValidString\<close>: no byte is decoded as an error of width 1 (U+FFFD itself has width 3).\<close>

function valid_utf8 :: "gostring \<Rightarrow> bool" where
  "valid_utf8 s =
    (if s = [] then True
     else (case decode_rune s of (r, w) \<Rightarrow> \<not> (r = rune_error \<and> w = 1) \<and> valid_utf8 (drop w s)))"
  by pat_completeness auto
termination
proof (relation "measure length", goal_cases)
  case (2 s)
  then show ?case using decode_rune_width_pos [of s] by (cases "decode_rune s") auto
qed simp

declare valid_utf8.simps [simp del]

lemma valid_utf8_Nil [simp]: "valid_utf8 []"
  by (simp add: valid_utf8.simps)

lemma valid_utf8_Cons_ascii [simp]: "code c < 128 \<Longrightarrow> valid_utf8 (c # cs) = valid_utf8 cs"
  by (simp add: valid_utf8.simps [of "c # cs"] rune_error_def)

lemma valid_utf8_ascii: "list_all (\<lambda>c. code c < 128) s \<Longrightarrow> valid_utf8 s"
  by (induction s) auto

text \<open>A byte that starts no sequence is not valid.\<close>

lemma not_valid_utf8: "248 \<le> code c \<Longrightarrow> \<not> valid_utf8 (c # cs)"
  by (simp add: valid_utf8.simps [of "c # cs"] decode_rune.simps(2) in_range_def)

section \<open>Character classes and case\<close>

record unicode_tables =
  upper_table :: "nat \<Rightarrow> bool"
  lower_table :: "nat \<Rightarrow> nat"

text \<open>
  \<open>unicode.IsUpper\<close> and \<open>unicode.ToLower\<close>: ASCII and Latin-1 are decided directly (the
  uppercase letters of Latin-1 are U+00C0 to U+00DE without the multiplication sign),
  everything else by the tables.
\<close>

definition is_upper :: "unicode_tables \<Rightarrow> nat \<Rightarrow> bool" where
  "is_upper T r =
    (if r \<le> 255 then 65 \<le> r \<and> r \<le> 90 \<or> 192 \<le> r \<and> r \<le> 222 \<and> r \<noteq> 215
     else upper_table T r)"

definition to_lower :: "unicode_tables \<Rightarrow> nat \<Rightarrow> nat" where
  "to_lower T r =
    (if r \<le> 127 then (if 65 \<le> r \<and> r \<le> 90 then r + 32 else r)
     else if r \<le> 255 then (if 192 \<le> r \<and> r \<le> 222 \<and> r \<noteq> 215 then r + 32 else r)
     else lower_table T r)"

definition strings_ToLower :: "unicode_tables \<Rightarrow> gostring \<Rightarrow> gostring" where
  "strings_ToLower T s = concat (map (\<lambda>(i, r). encode_rune (to_lower T r)) (range_string s))"

text \<open>\<open>unicode.IsSpace\<close>\<close>

definition is_space :: "nat \<Rightarrow> bool" where
  "is_space r \<longleftrightarrow> 9 \<le> r \<and> r \<le> 13 \<or> r = 32 \<or> r = 133 \<or> r = 160 \<or> r = 5760
     \<or> 8192 \<le> r \<and> r \<le> 8202 \<or> r = 8232 \<or> r = 8233 \<or> r = 8239 \<or> r = 8287 \<or> r = 12288"

section \<open>strings.TrimSpace\<close>

function trim_left :: "gostring \<Rightarrow> gostring" where
  "trim_left s =
    (if s = [] then []
     else (case decode_rune s of (r, w) \<Rightarrow> if is_space r then trim_left (drop w s) else s))"
  by pat_completeness auto
termination
proof (relation "measure length", goal_cases)
  case (2 s)
  then show ?case using decode_rune_width_pos [of s] by (cases "decode_rune s") auto
qed simp

declare trim_left.simps [simp del]

text \<open>
  \<open>utf8.DecodeLastRuneInString\<close>: it looks for the start of the last rune in the last four
  bytes; the width is counted from the end.
\<close>

definition rune_start :: "char \<Rightarrow> bool" where
  "rune_start c \<longleftrightarrow> \<not> continuation c"

definition decode_last_rune :: "gostring \<Rightarrow> nat \<times> nat" where
  "decode_last_rune s =
    (if s = [] then (rune_error, 0)
     else if code (last s) < 128 then (code (last s), 1)
     else (case find (\<lambda>k. k \<le> length s \<and> rune_start (s ! (length s - k))) [2, 3, 4] of
             None \<Rightarrow> (rune_error, 1)
           | Some k \<Rightarrow>
               (case decode_rune (drop (length s - k) s) of
                  (r, w) \<Rightarrow> if w = k then (r, w) else (rune_error, 1))))"

lemma decode_last_rune_width_pos: "s \<noteq> [] \<Longrightarrow> 0 < snd (decode_last_rune s)"
  by (auto simp: decode_last_rune_def find_Some_iff split: option.splits prod.splits)

function trim_right :: "gostring \<Rightarrow> gostring" where
  "trim_right s =
    (if s = [] then []
     else (case decode_last_rune s of
             (r, w) \<Rightarrow> if is_space r then trim_right (take (length s - w) s) else s))"
  by pat_completeness auto
termination
proof (relation "measure length", goal_cases)
  case (2 s)
  then show ?case using decode_last_rune_width_pos [of s] by (cases "decode_last_rune s") auto
qed simp

declare trim_right.simps [simp del]

definition trim_space :: "gostring \<Rightarrow> gostring" where
  "trim_space s = trim_right (trim_left s)"

lemma trim_left_Nil [simp]: "trim_left [] = []"
  by (simp add: trim_left.simps)

lemma trim_right_Nil [simp]: "trim_right [] = []"
  by (simp add: trim_right.simps)

lemma trim_space_Nil [simp]: "trim_space [] = []"
  by (simp add: trim_space_def)

section \<open>strings.Split\<close>

fun split_on :: "char \<Rightarrow> gostring \<Rightarrow> gostring list" where
  "split_on sep [] = [[]]"
| "split_on sep (c # cs) =
    (if c = sep then [] # split_on sep cs
     else (case split_on sep cs of [] \<Rightarrow> [[c]] | w # ws \<Rightarrow> (c # w) # ws))"

lemma split_on_nonempty [simp]: "split_on sep s \<noteq> []"
  by (induction s) (auto split: list.splits)

lemma split_on_no_sep: "sep \<notin> set s \<Longrightarrow> split_on sep s = [s]"
  by (induction s) auto

lemma split_on_append:
  "split_on sep (s @ sep # t) = split_on sep s @ split_on sep t"
  by (induction s) (auto split: list.splits)

lemma split_on_words: "w \<in> set (split_on sep s) \<Longrightarrow> sep \<notin> set w"
  by (induction s arbitrary: w) (auto split: list.splits if_splits)

section \<open>strconv\<close>

definition is_digit :: "char \<Rightarrow> bool" where
  "is_digit c \<longleftrightarrow> 48 \<le> code c \<and> code c \<le> 57"

definition digit_value :: "char \<Rightarrow> nat" where
  "digit_value c = code c - 48"

definition digits_value :: "gostring \<Rightarrow> nat" where
  "digits_value s = foldl (\<lambda>n c. 10 * n + digit_value c) 0 s"

text \<open>\<open>strconv.Atoi\<close> on a 64-bit platform: an optional sign, decimal digits, in range.\<close>

definition unsigned_int :: "gostring \<Rightarrow> nat option" where
  "unsigned_int s = (if s \<noteq> [] \<and> list_all is_digit s then Some (digits_value s) else None)"

definition atoi :: "gostring \<Rightarrow> int option" where
  "atoi s =
    (let signed = (case s of [] \<Rightarrow> None
       | c # cs \<Rightarrow> if c = CHR ''-'' then map_option (\<lambda>n. - int n) (unsigned_int cs)
                   else if c = CHR ''+'' then map_option int (unsigned_int cs)
                   else map_option int (unsigned_int s))
     in case signed of None \<Rightarrow> None | Some n \<Rightarrow> if int64_range n then Some n else None)"

text \<open>\<open>strconv.ParseBool\<close>\<close>

definition parse_bool :: "gostring \<Rightarrow> bool option" where
  "parse_bool s =
    (if s \<in> {''1'', ''t'', ''T'', ''TRUE'', ''true'', ''True''} then Some True
     else if s \<in> {''0'', ''f'', ''F'', ''FALSE'', ''false'', ''False''} then Some False
     else None)"

text \<open>Decimal formatting (\<open>%d\<close>, \<open>strconv.FormatInt(_, 10)\<close>).\<close>

fun format_nat :: "nat \<Rightarrow> gostring" where
  "format_nat n =
    (if n < 10 then [char_of (48 + n)] else format_nat (n div 10) @ [char_of (48 + n mod 10)])"

declare format_nat.simps [simp del]

definition format_int :: "int \<Rightarrow> gostring" where
  "format_int n = (if n < 0 then CHR ''-'' # format_nat (nat (- n)) else format_nat (nat n))"

text \<open>A digit of lower-case hexadecimal formatting.\<close>

definition hex_digit :: "nat \<Rightarrow> char" where
  "hex_digit n = (if n < 10 then char_of (48 + n) else char_of (87 + n))"

lemma atoi_in_range: "atoi s = Some n \<Longrightarrow> int64_range n"
  by (auto simp: atoi_def Let_def split: option.splits list.splits if_splits)

lemma digits_value_snoc: "digits_value (s @ [c]) = 10 * digits_value s + digit_value c"
  by (simp add: digits_value_def)

lemma format_nat_digits: "list_all is_digit (format_nat n) \<and> format_nat n \<noteq> []"
proof (induction n rule: format_nat.induct)
  case (1 n)
  show ?case
  proof (cases "n < 10")
    case True
    then show ?thesis by (simp add: format_nat.simps [of n] is_digit_def)
  next
    case False
    moreover have "n mod 10 < 10" by simp
    then have "48 + n mod 10 < 256" by linarith
    ultimately show ?thesis
      using 1 by (simp add: format_nat.simps [of n] is_digit_def)
  qed
qed

lemma format_nat_value: "digits_value (format_nat n) = n"
proof (induction n rule: format_nat.induct)
  case (1 n)
  show ?case
  proof (cases "n < 10")
    case True
    then show ?thesis by (simp add: format_nat.simps [of n] digits_value_def digit_value_def)
  next
    case False
    moreover have "n mod 10 < 10" by simp
    then have "48 + n mod 10 < 256" by linarith
    ultimately show ?thesis
      using 1 by (simp add: format_nat.simps [of n] digits_value_snoc digit_value_def)
  qed
qed

lemma format_nat_inj: "format_nat m = format_nat n \<Longrightarrow> m = n"
  by (metis format_nat_value)

lemma format_nat_head: "\<exists>c cs. format_nat n = c # cs \<and> is_digit c"
  using format_nat_digits [of n] by (cases "format_nat n") auto

lemma format_nat_zero: "format_nat n = c # cs \<Longrightarrow> c = CHR ''0'' \<Longrightarrow> cs = []"
proof (induction n arbitrary: cs rule: format_nat.induct)
  case (1 n)
  show ?case
  proof (cases "n < 10")
    case False
    obtain a as where f: "format_nat (n div 10) = a # as" using format_nat_head by blast
    with "1.prems" False have a: "a = c" "c = CHR ''0''" by (simp_all add: format_nat.simps [of n])
    with f "1.IH" [OF False _ a(2)] have "format_nat (n div 10) = ''0''" by simp
    then have "n div 10 = digits_value ''0''" using format_nat_value by metis
    with False show ?thesis by (simp add: digits_value_def digit_value_def code_def)
  qed (use "1.prems" in \<open>simp add: format_nat.simps [of n]\<close>)
qed

lemma atoi_format_int: "int64_range n \<Longrightarrow> atoi (format_int n) = Some n"
proof -
  assume r: "int64_range n"
  obtain c cs where f: "format_nat (nat n) = c # cs" and d: "is_digit c"
    using format_nat_head by blast
  have "c \<noteq> CHR ''-''" and "c \<noteq> CHR ''+''"
    using d by (auto simp: is_digit_def code_def)
  moreover have u: "unsigned_int (format_nat m) = Some m" for m
    using format_nat_digits [of m] by (simp add: unsigned_int_def format_nat_value)
  moreover have "unsigned_int (c # cs) = Some (nat n)"
    using u [of "nat n"] f by simp
  ultimately show ?thesis
    using r f by (auto simp: atoi_def format_int_def)
qed

lemma format_int_inj: "format_int m = format_int n \<Longrightarrow> m = n"
proof -
  assume eq: "format_int m = format_int n"
  have neg: "format_int k \<noteq> CHR ''-'' # format_nat j" if "0 \<le> k" for k j
    using that format_nat_head [of "nat k"] by (auto simp: format_int_def is_digit_def code_def)
  show ?thesis
    using eq neg by (smt (verit) format_int_def format_nat_inj list.inject nat_eq_iff2 eq_nat_nat_iff)
qed

end
