(* ===== verification/Go_Value.thy ===== *)
theory Go_Value
  imports Go_Text Complex_Main "HOL-Library.Log_Nat"
begin

text \<open>
  Go's \<open>float64\<close> and the dynamic values \<open>any\<close> that device parameters are made of.

  A finite float is its exact value, a rational number (\<open>NegZero\<close> is the negative zero).
  \<open>f64_of_frac\<close> is IEEE 754 rounding to nearest, ties to even, with gradual underflow and
  overflow to infinity: it is what Go does when it converts an integer, parses a decimal
  literal or divides two exactly representable integers.
\<close>

section \<open>float64\<close>

datatype float64 = Fin rat | NegZero | Infinite bool | NaN

text \<open>The integer nearest to \<open>a / b\<close>, ties to even.\<close>

definition nearest_even :: "int \<Rightarrow> int \<Rightarrow> int" where
  "nearest_even a b =
    (let q = a div b; r = a mod b in
     if 2 * r < b then q else if b < 2 * r then q + 1 else if even q then q else q + 1)"

text \<open>The exponent of the power of two just below \<open>p / q\<close>, for positive \<open>p\<close> and \<open>q\<close>.\<close>

definition ilog2_frac :: "int \<Rightarrow> int \<Rightarrow> int" where
  "ilog2_frac p q =
    (let k = bitlen p - bitlen q in
     if (if 0 \<le> k then q * 2 ^ nat k \<le> p else q \<le> p * 2 ^ nat (- k)) then k else k - 1)"

definition f64_of_frac :: "bool \<Rightarrow> int \<Rightarrow> int \<Rightarrow> float64" where
  "f64_of_frac neg p q =
    (if p = 0 then (if neg then NegZero else Fin 0)
     else
       (let e = max (ilog2_frac p q - 52) (- 1074);
            m = (if 0 \<le> e then nearest_even p (q * 2 ^ nat e)
                 else nearest_even (p * 2 ^ nat (- e)) q);
            s = (if neg then - 1 else 1)
        in if m = 0 then (if neg then NegZero else Fin 0)
           else if 0 \<le> e \<and> 2 ^ 1024 \<le> m * 2 ^ nat e then Infinite neg
           else if 0 \<le> e then Fin (of_int (s * m * 2 ^ nat e))
           else Fin (of_int (s * m) / 2 ^ nat (- e))))"

definition f64_of_int :: "int \<Rightarrow> float64" where
  "f64_of_int n = f64_of_frac (n < 0) \<bar>n\<bar> 1"

fun f64_less :: "float64 \<Rightarrow> float64 \<Rightarrow> bool" where
  "f64_less NaN _ = False"
| "f64_less _ NaN = False"
| "f64_less (Infinite s) (Infinite t) = (s \<and> \<not> t)"
| "f64_less (Infinite s) _ = s"
| "f64_less _ (Infinite t) = (\<not> t)"
| "f64_less (Fin a) (Fin b) = (a < b)"
| "f64_less NegZero (Fin b) = (0 < b)"
| "f64_less (Fin a) NegZero = (a < 0)"
| "f64_less NegZero NegZero = False"

lemma nearest_even_one [simp]: "nearest_even a 1 = a"
  by (simp add: nearest_even_def)

lemma bitlen_one: "bitlen 1 = 1"
  by (intro antisym) (simp_all add: bitlen_le_iff_power bitlen_ge_iff_power)

lemma ilog2_frac_one_le: "ilog2_frac p 1 \<le> bitlen p - 1"
  by (simp add: ilog2_frac_def Let_def bitlen_one)

lemma bitlen_le_53: "0 \<le> p \<Longrightarrow> p < 2 ^ 53 \<Longrightarrow> bitlen p \<le> 53"
  by (simp add: bitlen_le_iff_power)

text \<open>Integers of at most 53 bits are converted exactly.\<close>

lemma f64_of_frac_exact:
  assumes "0 < p" and "p < 2 ^ 53"
  shows "f64_of_frac neg p 1 = Fin (if neg then - of_int p else of_int p)"
proof -
  define e where "e = max (ilog2_frac p 1 - 52) (- 1074)"
  have "e \<le> 0"
    using ilog2_frac_one_le [of p] bitlen_le_53 [of p] assms by (simp add: e_def)
  moreover have "p < 2 ^ 1024"
    using assms(2) by (rule order_less_trans) simp
  ultimately show ?thesis
    using assms(1) by (auto simp: f64_of_frac_def Let_def e_def [symmetric])
qed

lemma f64_of_int_exact: "\<bar>n\<bar> < 2 ^ 53 \<Longrightarrow> f64_of_int n = Fin (of_int n)"
  by (cases "n = 0") (auto simp: f64_of_int_def f64_of_frac_exact, simp add: f64_of_frac_def)

section \<open>Decimal literals\<close>

text \<open>
  A decimal number literal, \<open>Decimal neg m e\<close> standing for \<open>m * 10 ^ e\<close> with its sign, and
  \<open>strconv.ParseFloat\<close> on it: a literal whose rounded value is infinite is a range error.
\<close>

datatype numlit = Decimal bool nat int

fun f64_of_numlit :: "numlit \<Rightarrow> float64" where
  "f64_of_numlit (Decimal neg m e) =
    (if 0 \<le> e then f64_of_frac neg (int m * 10 ^ nat e) 1
     else f64_of_frac neg (int m) (10 ^ nat (- e)))"

definition parse_float :: "numlit \<Rightarrow> float64 \<times> bool" where
  "parse_float l =
    (case f64_of_numlit l of Infinite s \<Rightarrow> (Infinite s, False) | f \<Rightarrow> (f, True))"

lemma parse_float_nat:
  "0 < m \<Longrightarrow> int m < 2 ^ 53 \<Longrightarrow>
     parse_float (Decimal neg m 0) = (Fin (if neg then - of_nat m else of_nat m), True)"
  by (simp add: parse_float_def f64_of_frac_exact)

lemma parse_float_zero: "parse_float (Decimal False 0 e) = (Fin 0, True)"
  by (simp add: parse_float_def f64_of_frac_def)

section \<open>Values of type any\<close>

text \<open>
  The dynamic types a parameter can have. \<open>VFloat32\<close> carries the value the \<open>float32\<close> has,
  \<open>VNumber\<close> is a \<open>json.Number\<close> as the JSON decoder makes it, \<open>VOther\<close> is a value of any
  other dynamic type.
\<close>

datatype goval =
    VNil
  | VBool bool
  | VFloat64 float64
  | VFloat32 float64
  | VInt int
  | VInt32 int32
  | VInt64 "64 word"
  | VUint32 "32 word"
  | VUint64 "64 word"
  | VNumber numlit
  | VString gostring
  | VArray "goval list"
  | VObject "(gostring \<times> goval) list"
  | VOther

type_synonym params = "(gostring, goval) fmap"

end
