(* ===== verification/Go_Json.thy ===== *)
theory Go_Json
  imports Go_Value
begin

text \<open>
  \<open>encoding/json\<close> as the exporter uses it: decoding a text into \<open>map[string]any\<close>
  (\<open>unmarshal_map\<close>) or \<open>map[string]string\<close> (\<open>unmarshal_string_map\<close>). The decoder is a
  recursive descent over the text with the checks of Go's scanner: its grammar, the nesting
  limit of 10000, control characters and escapes in strings, surrogate pairs, the
  replacement of invalid UTF-8 by U+FFFD, and numbers that overflow a \<open>float64\<close>.
  The fuel of the mutually recursive functions is twice the length of the text, which is
  always enough (\<open>parse_value_fuel\<close>).
\<close>

section \<open>Scanning\<close>

definition json_space :: "char \<Rightarrow> bool" where
  "json_space c \<longleftrightarrow> c \<in> {CHR '' '', CHR 0x09, CHR 0x0A, CHR 0x0D}"

definition skip_space :: "gostring \<Rightarrow> gostring" where
  "skip_space s = dropWhile json_space s"

lemma skip_space_length: "length (skip_space s) \<le> length s"
  by (simp add: skip_space_def length_dropWhile_le)

lemma skip_space_id: "s \<noteq> [] \<Longrightarrow> \<not> json_space (hd s) \<Longrightarrow> skip_space s = s"
  by (cases s) (auto simp: skip_space_def)

definition hex_value :: "char \<Rightarrow> nat option" where
  "hex_value c =
    (if 48 \<le> code c \<and> code c \<le> 57 then Some (code c - 48)
     else if 97 \<le> code c \<and> code c \<le> 102 then Some (code c - 87)
     else if 65 \<le> code c \<and> code c \<le> 70 then Some (code c - 55)
     else None)"

fun hex4 :: "gostring \<Rightarrow> nat option" where
  "hex4 (a # b # c # d # _) =
    (case (hex_value a, hex_value b, hex_value c, hex_value d) of
       (Some w, Some x, Some y, Some z) \<Rightarrow> Some (((w * 16 + x) * 16 + y) * 16 + z)
     | _ \<Rightarrow> None)"
| "hex4 _ = None"

definition simple_escape :: "char \<Rightarrow> char option" where
  "simple_escape c =
    map_of [(CHR 0x22, CHR 0x22), (CHR 0x5C, CHR 0x5C), (CHR ''/'', CHR ''/''),
            (CHR ''b'', CHR 0x08), (CHR ''f'', CHR 0x0C), (CHR ''n'', CHR 0x0A),
            (CHR ''r'', CHR 0x0D), (CHR ''t'', CHR 0x09)] c"

text \<open>
  The escape \<open>\uXXXX\<close>, given the text after \<open>\u\<close>: the rune it stands for and the number of
  bytes used. A surrogate needs a second escape that completes the pair, else it is U+FFFD.
\<close>

definition unicode_escape :: "gostring \<Rightarrow> (nat \<times> nat) option" where
  "unicode_escape s =
    (case hex4 s of
       None \<Rightarrow> None
     | Some r \<Rightarrow>
         if 55296 \<le> r \<and> r \<le> 57343 then
           (if take 2 (drop 4 s) = [CHR 0x5C, CHR ''u''] then
              (case hex4 (drop 6 s) of
                 Some r1 \<Rightarrow>
                   if r \<le> 56319 \<and> 56320 \<le> r1 \<and> r1 \<le> 57343
                   then Some ((r - 55296) * 1024 + (r1 - 56320) + 65536, 10)
                   else Some (rune_error, 4)
               | None \<Rightarrow> Some (rune_error, 4))
            else Some (rune_error, 4))
         else Some (r, 4))"

text \<open>
  One character or escape of a string: the bytes it stands for and the text after it. Control
  characters and unknown escapes are errors.
\<close>

definition string_unit :: "char \<Rightarrow> gostring \<Rightarrow> (gostring \<times> gostring) option" where
  "string_unit c cs =
    (if code c < 32 then None
     else if c = CHR 0x5C then
       (case cs of
          [] \<Rightarrow> None
        | e # ds \<Rightarrow>
            if e = CHR ''u''
            then map_option (\<lambda>(r, n). (encode_rune r, drop n ds)) (unicode_escape ds)
            else map_option (\<lambda>d. ([d], ds)) (simple_escape e))
     else (case decode_rune (c # cs) of (r, w) \<Rightarrow> Some (encode_rune r, drop w (c # cs))))"

lemma string_unit_rest: "string_unit c cs = Some (u, r) \<Longrightarrow> length r \<le> length cs"
  using decode_rune_width_pos [of "c # cs"]
  by (auto simp: string_unit_def split: if_splits list.splits prod.splits)

text \<open>A string, given the text after its opening quote.\<close>

function parse_string :: "gostring \<Rightarrow> (gostring \<times> gostring) option" where
  "parse_string [] = None"
| "parse_string (c # cs) =
    (if c = CHR 0x22 then Some ([], cs)
     else (case string_unit c cs of
             None \<Rightarrow> None
           | Some (u, r) \<Rightarrow> map_option (\<lambda>(t, rest). (u @ t, rest)) (parse_string r)))"
  by pat_completeness auto
termination
  by (relation "measure length") (auto dest: string_unit_rest)

lemma parse_string_rest: "parse_string s = Some (t, r) \<Longrightarrow> length r < length s"
proof (induction s arbitrary: t r rule: parse_string.induct)
  case (2 c cs)
  show ?case
  proof (cases "c = CHR 0x22")
    case False
    with "2.prems" obtain u s' t' where u: "string_unit c cs = Some (u, s')"
        and "parse_string s' = Some (t', r)"
      by (auto split: option.splits)
    then have "length r < length s'"
      using "2.IH" [OF False u] by simp
    with string_unit_rest [OF u] show ?thesis by simp
  qed (use "2.prems" in simp)
qed simp

section \<open>Numbers\<close>

definition span_digits :: "gostring \<Rightarrow> gostring \<times> gostring" where
  "span_digits s = (takeWhile is_digit s, dropWhile is_digit s)"

definition parse_fraction :: "gostring \<Rightarrow> (gostring \<times> gostring) option" where
  "parse_fraction s =
    (case s of
       c # cs \<Rightarrow>
         if c = CHR ''.'' then
           (case span_digits cs of (ds, rest) \<Rightarrow> if ds = [] then None else Some (ds, rest))
         else Some ([], s)
     | [] \<Rightarrow> Some ([], s))"

definition parse_exponent :: "gostring \<Rightarrow> (int \<times> gostring) option" where
  "parse_exponent s =
    (case s of
       c # cs \<Rightarrow>
         if c = CHR ''e'' \<or> c = CHR ''E'' then
           (let neg = (cs \<noteq> [] \<and> hd cs = CHR ''-'');
                body = (if cs \<noteq> [] \<and> (hd cs = CHR ''-'' \<or> hd cs = CHR ''+'') then tl cs else cs)
            in case span_digits body of
                 (ds, rest) \<Rightarrow>
                   if ds = [] then None
                   else Some ((if neg then - int (digits_value ds) else int (digits_value ds)), rest))
         else Some (0, s)
     | [] \<Rightarrow> Some (0, s))"

text \<open>The whole part: a single zero, or digits that do not start with zero.\<close>

definition parse_whole :: "gostring \<Rightarrow> (gostring \<times> gostring) option" where
  "parse_whole s =
    (case span_digits s of
       ([], rest) \<Rightarrow> None
     | (d # ds, rest) \<Rightarrow>
         if d = CHR ''0'' then Some ([d], ds @ rest) else Some (d # ds, rest))"

definition parse_number :: "gostring \<Rightarrow> (numlit \<times> gostring) option" where
  "parse_number s =
    (let neg = (s \<noteq> [] \<and> hd s = CHR ''-'') in
     case parse_whole (if neg then tl s else s) of
       None \<Rightarrow> None
     | Some (ds, r) \<Rightarrow>
         (case parse_fraction r of
            None \<Rightarrow> None
          | Some (fs, r1) \<Rightarrow>
              (case parse_exponent r1 of
                 None \<Rightarrow> None
               | Some (e, r2) \<Rightarrow>
                   Some (Decimal neg (digits_value (ds @ fs)) (e - int (length fs)), r2))))"

lemma parse_fraction_rest: "parse_fraction s = Some (fs, r) \<Longrightarrow> length r \<le> length s"
  by (auto simp: parse_fraction_def span_digits_def length_dropWhile_le le_SucI
      split: list.splits if_splits)

lemma parse_exponent_rest: "parse_exponent s = Some (e, r) \<Longrightarrow> length r \<le> length s"
  by (auto simp: parse_exponent_def span_digits_def Let_def length_dropWhile_le le_SucI
      split: list.splits if_splits intro: order_trans [OF length_dropWhile_le])

lemma parse_whole_rest: "parse_whole s = Some (ds, r) \<Longrightarrow> length r < length s"
proof -
  assume p: "parse_whole s = Some (ds, r)"
  have "length (takeWhile is_digit s) + length (dropWhile is_digit s) = length s"
    by (simp flip: length_append)
  with p show ?thesis
    by (auto simp: parse_whole_def span_digits_def split: list.splits if_splits)
qed

lemma parse_number_rest: "parse_number s = Some (l, r) \<Longrightarrow> length r < length s"
  by (fastforce simp: parse_number_def Let_def split: option.splits if_splits
      dest!: parse_whole_rest parse_fraction_rest parse_exponent_rest)

section \<open>Values\<close>

definition literal_text :: "gostring \<Rightarrow> goval \<Rightarrow> gostring \<Rightarrow> (goval \<times> gostring) option" where
  "literal_text w v s = (if take (length w) s = w then Some (v, drop (length w) s) else None)"

abbreviation max_nesting :: nat where "max_nesting \<equiv> 10000"

fun parse_value :: "nat \<Rightarrow> nat \<Rightarrow> gostring \<Rightarrow> (goval \<times> gostring) option"
and parse_elements :: "nat \<Rightarrow> nat \<Rightarrow> gostring \<Rightarrow> (goval list \<times> gostring) option"
and parse_members :: "nat \<Rightarrow> nat \<Rightarrow> gostring \<Rightarrow> ((gostring \<times> goval) list \<times> gostring) option"
where
  "parse_value 0 d s = None"
| "parse_value (Suc f) d s =
    (case s of
       [] \<Rightarrow> None
     | c # cs \<Rightarrow>
         if c = CHR ''{'' then
           (if max_nesting \<le> d then None
            else (case skip_space cs of
                    [] \<Rightarrow> None
                  | x # xs \<Rightarrow>
                      if x = CHR ''}'' then Some (VObject [], xs)
                      else map_option (\<lambda>(ms, r). (VObject ms, r)) (parse_members f (Suc d) (x # xs))))
         else if c = CHR ''['' then
           (if max_nesting \<le> d then None
            else (case skip_space cs of
                    [] \<Rightarrow> None
                  | x # xs \<Rightarrow>
                      if x = CHR '']'' then Some (VArray [], xs)
                      else map_option (\<lambda>(vs, r). (VArray vs, r)) (parse_elements f (Suc d) (x # xs))))
         else if c = CHR 0x22 then map_option (\<lambda>(t, r). (VString t, r)) (parse_string cs)
         else if c = CHR ''t'' then literal_text ''true'' (VBool True) s
         else if c = CHR ''f'' then literal_text ''false'' (VBool False) s
         else if c = CHR ''n'' then literal_text ''null'' VNil s
         else (case parse_number s of
                 None \<Rightarrow> None
               | Some (l, r) \<Rightarrow>
                   (case parse_float l of (x, ok) \<Rightarrow> if ok then Some (VFloat64 x, r) else None)))"
| "parse_elements 0 d s = None"
| "parse_elements (Suc f) d s =
    (case parse_value f d s of
       None \<Rightarrow> None
     | Some (v, r) \<Rightarrow>
         (case skip_space r of
            [] \<Rightarrow> None
          | c # cs \<Rightarrow>
              if c = CHR '','' then
                map_option (\<lambda>(vs, r'). (v # vs, r')) (parse_elements f d (skip_space cs))
              else if c = CHR '']'' then Some ([v], cs) else None))"
| "parse_members 0 d s = None"
| "parse_members (Suc f) d s =
    (case s of
       [] \<Rightarrow> None
     | q # qs \<Rightarrow>
         if q \<noteq> CHR 0x22 then None
         else (case parse_string qs of
            None \<Rightarrow> None
          | Some (k, r) \<Rightarrow>
              (case skip_space r of
                 [] \<Rightarrow> None
               | c # cs \<Rightarrow>
                   if c \<noteq> CHR '':'' then None
                   else (case parse_value f d (skip_space cs) of
                      None \<Rightarrow> None
                    | Some (v, r') \<Rightarrow>
                        (case skip_space r' of
                           [] \<Rightarrow> None
                         | e # es \<Rightarrow>
                             if e = CHR '','' then
                               map_option (\<lambda>(ms, r''). ((k, v) # ms, r''))
                                 (parse_members f d (skip_space es))
                             else if e = CHR ''}'' then Some ([(k, v)], es) else None)))))"

definition json_fuel :: "gostring \<Rightarrow> nat" where
  "json_fuel s = 2 * length s + 2"

text \<open>What a parser leaves is shorter than what it got.\<close>

lemma literal_text_rest:
  "literal_text w v s = Some (x, r) \<Longrightarrow> w \<noteq> [] \<Longrightarrow> s \<noteq> [] \<Longrightarrow> length r < length s"
  by (auto simp: literal_text_def split: if_splits)

lemma skip_space_Cons: "skip_space s = c # cs \<Longrightarrow> length cs < length s"
  using skip_space_length [of s] by simp

lemma parse_rest_aux:
  "(\<forall>d s v r. parse_value f d s = Some (v, r) \<longrightarrow> length r < length s) \<and>
   (\<forall>d s vs r. parse_elements f d s = Some (vs, r) \<longrightarrow> length r < length s) \<and>
   (\<forall>d s ms r. parse_members f d s = Some (ms, r) \<longrightarrow> length r < length s)"
proof (induction f)
  case (Suc f)
  have val: "length r < length s" if "parse_value (Suc f) d s = Some (v, r)" for d s v r
  proof (cases s)
    case (Cons c cs)
    with that Suc show ?thesis
      by (fastforce split: if_splits list.splits option.splits prod.splits
          dest: skip_space_Cons parse_string_rest literal_text_rest parse_number_rest)
  qed (use that in simp)
  have elements: "length r < length s" if p: "parse_elements (Suc f) d s = Some (vs, r)" for d s vs r
  proof -
    from p obtain v r0 c cs where v: "parse_value f d s = Some (v, r0)" "skip_space r0 = c # cs"
        and rest: "r = cs \<or> (\<exists>vs'. parse_elements f d (skip_space cs) = Some (vs', r))"
      by (auto split: option.splits list.splits if_splits)
    from v Suc have "length cs < length s"
      by (meson skip_space_Cons less_trans)
    moreover have "length r \<le> length cs"
      using rest Suc skip_space_length [of cs] by (meson less_imp_le order.trans order_refl)
    ultimately show ?thesis by linarith
  qed
  have members: "length r < length s" if p: "parse_members (Suc f) d s = Some (ms, r)" for d s ms r
  proof -
    from p obtain q qs k r0 c cs where k: "s = q # qs" "parse_string qs = Some (k, r0)" "skip_space r0 = c # cs"
      and p': "(case parse_value f d (skip_space cs) of None \<Rightarrow> None
                  | Some (v, r') \<Rightarrow> (case skip_space r' of [] \<Rightarrow> None
                       | e # es \<Rightarrow> if e = CHR '','' then map_option (\<lambda>(ms, r''). ((k, v) # ms, r''))
                                 (parse_members f d (skip_space es))
                             else if e = CHR ''}'' then Some ([(k, v)], es) else None)) = Some (ms, r)"
      by (auto split: option.splits list.splits if_splits)
    from p' obtain v r1 e es where v: "parse_value f d (skip_space cs) = Some (v, r1)" "skip_space r1 = e # es"
        and rest: "r = es \<or> (\<exists>ms'. parse_members f d (skip_space es) = Some (ms', r))"
      by (auto split: option.splits list.splits if_splits)
    from k have "length cs < length s"
      by (auto dest!: parse_string_rest skip_space_Cons)
    moreover from v Suc have "length es < length cs"
      by (meson skip_space_Cons skip_space_length less_trans order_less_le_trans)
    moreover have "length r \<le> length es"
      using rest Suc skip_space_length [of es] by (meson less_imp_le order.trans order_refl)
    ultimately show ?thesis by linarith
  qed
  from val elements members show ?case by blast
qed simp

lemmas parse_rest =
  parse_rest_aux [THEN conjunct1, rule_format]
  parse_rest_aux [THEN conjunct2, THEN conjunct1, rule_format]
  parse_rest_aux [THEN conjunct2, THEN conjunct2, rule_format]

text \<open>Fuel beyond twice the length of the text never changes a result.\<close>

lemma parse_fuel_aux:
  "(\<forall>g d s. f \<le> g \<longrightarrow> 2 * length s + 1 \<le> f \<longrightarrow> parse_value g d s = parse_value f d s) \<and>
   (\<forall>g d s. f \<le> g \<longrightarrow> 2 * length s + 2 \<le> f \<longrightarrow> parse_elements g d s = parse_elements f d s) \<and>
   (\<forall>g d s. f \<le> g \<longrightarrow> 2 * length s + 2 \<le> f \<longrightarrow> parse_members g d s = parse_members f d s)"
proof (induction f)
  case (Suc f)
  note IHv = Suc.IH [THEN conjunct1, rule_format]
    and IHe = Suc.IH [THEN conjunct2, THEN conjunct1, rule_format]
    and IHm = Suc.IH [THEN conjunct2, THEN conjunct2, rule_format]
  have val: "parse_value (Suc g) d s = parse_value (Suc f) d s"
    if "f \<le> g" "2 * length s + 1 \<le> Suc f" for g d s
  proof (cases s)
    case (Cons c cs)
    then have "2 * length (skip_space cs) + 2 \<le> f"
      using that skip_space_length [of cs] by simp
    then have "parse_elements g (Suc d) (skip_space cs) = parse_elements f (Suc d) (skip_space cs)"
      and "parse_members g (Suc d) (skip_space cs) = parse_members f (Suc d) (skip_space cs)"
      using that IHe IHm by blast+
    with Cons show ?thesis by (cases "skip_space cs") auto
  qed simp
  have elems: "parse_elements (Suc g) d s = parse_elements (Suc f) d s"
    if le: "f \<le> g" "2 * length s + 2 \<le> Suc f" for g d s
  proof (cases "parse_value f d s")
    case (Some vr)
    obtain v r where vr: "vr = (v, r)" by fastforce
    have "parse_elements g d (skip_space cs) = parse_elements f d (skip_space cs)"
      if "skip_space r = c # cs" for c cs
      using that Some le skip_space_length [of cs]
      by (intro IHe) (auto simp: vr dest!: skip_space_Cons parse_rest(1))
    then show ?thesis
      using Some le IHv [of g s d] by (auto simp: vr split: list.split)
  qed (use le IHv [of g s d] in auto)
  have mems: "parse_members (Suc g) d s = parse_members (Suc f) d s"
    if le: "f \<le> g" "2 * length s + 2 \<le> Suc f" for g d s
  proof -
    have v: "parse_value g d (skip_space cs) = parse_value f d (skip_space cs)"
      if "s = q # qs" "parse_string qs = Some (k, r)" "skip_space r = c # cs" for q qs k r c cs
      using that le skip_space_length [of cs]
      by (intro IHv) (auto dest!: skip_space_Cons parse_string_rest)
    have m: "parse_members g d (skip_space es) = parse_members f d (skip_space es)"
      if "s = q # qs" "parse_string qs = Some (k, r)" "skip_space r = c # cs"
        "parse_value f d (skip_space cs) = Some (v, r')" "skip_space r' = e # es"
      for q qs k r c cs v r' e es
      using that le skip_space_length [of cs] skip_space_length [of es]
      by (intro IHm) (auto dest!: skip_space_Cons parse_string_rest parse_rest(1))
    show ?thesis
      by (auto simp: v m split: list.split option.split)
  qed
  show ?case
    using val elems mems by (metis Suc_le_D Suc_le_mono)
qed simp

lemma parse_value_fuel: "2 * length s + 1 \<le> f \<Longrightarrow> parse_value f d s = parse_value (2 * length s + 1) d s"
  using parse_fuel_aux by blast

text \<open>A whole text: one value with nothing but white space around it.\<close>

definition parse_json :: "gostring \<Rightarrow> goval option" where
  "parse_json s =
    (case parse_value (json_fuel s) 0 (skip_space s) of
       None \<Rightarrow> None
     | Some (v, r) \<Rightarrow> if skip_space r = [] then Some v else None)"

definition object_map :: "(gostring \<times> 'a) list \<Rightarrow> (gostring, 'a) fmap" where
  "object_map ms = fold (\<lambda>(k, v) m. fmupd k v m) ms fmempty"

text \<open>
  \<open>json.Unmarshal\<close> into a nil \<open>map[string]any\<close>: \<open>null\<close> leaves the map nil, a value that is
  not an object is an error.
\<close>

definition unmarshal_map :: "gostring \<Rightarrow> params option" where
  "unmarshal_map s =
    (case parse_json s of
       Some (VObject ms) \<Rightarrow> Some (object_map ms)
     | Some VNil \<Rightarrow> Some fmempty
     | _ \<Rightarrow> None)"

text \<open>
  \<open>json.Unmarshal\<close> into a nil \<open>map[string]string\<close>: each value is a string, or \<open>null\<close>, which
  stores the empty string.
\<close>

fun string_member :: "gostring \<times> goval \<Rightarrow> (gostring \<times> gostring) option" where
  "string_member (k, VString t) = Some (k, t)"
| "string_member (k, VNil) = Some (k, [])"
| "string_member _ = None"

definition unmarshal_string_map :: "gostring \<Rightarrow> (gostring, gostring) fmap option" where
  "unmarshal_string_map s =
    (case parse_json s of
       Some (VObject ms) \<Rightarrow>
         (if list_all (\<lambda>m. string_member m \<noteq> None) ms
          then Some (object_map (List.map_filter string_member ms)) else None)
     | Some VNil \<Rightarrow> Some fmempty
     | _ \<Rightarrow> None)"

lemmas parse_numerals =
  parse_value.simps(2) [of "pred_numeral k" for k, folded numeral_eq_Suc]
  parse_elements.simps(2) [of "pred_numeral k" for k, folded numeral_eq_Suc]
  parse_members.simps(2) [of "pred_numeral k" for k, folded numeral_eq_Suc]

text \<open>The equations with which the simplifier evaluates the decoder on a concrete text.\<close>

lemmas json_eval =
  parse_json_def json_fuel_def skip_space_def json_space_def string_unit_def code_def
  parse_numerals literal_text_def parse_number_def parse_whole_def span_digits_def is_digit_def
  parse_fraction_def parse_exponent_def digits_value_def digit_value_def char_of_def bit_iff_odd
  parse_float_nat parse_float_zero

end
