(* ===== verification/Metric.thy ===== *)
theory Metric
  imports Go_Value
begin

text \<open>
  \<open>metric.go\<close>: device updates and their samples, the conversion of EcoFlow parameter names
  into Prometheus metric names, the conversion of parameter values into floats, and the
  dispatch of an update to the metric handlers.

  A handler is called through the interface \<open>MetricHandler\<close>; the locale \<open>metric_handler\<close> is
  that interface: \<open>handle\<close> with an invariant of the handler's state that every call keeps, and
  the rule stated in the code that an update is shared and must not be changed.
\<close>

named_theorems metric_simps \<open>equations of the metric model used in its proofs\<close>

section \<open>Devices, updates, samples\<close>

record ecoflow_device =
  dev_SN :: gostring
  dev_Name :: gostring
  dev_Online :: int

record sample =
  smp_param :: gostring
  smp_name :: gostring
  smp_raw :: goval
  smp_value :: float64
  smp_numeric :: bool

record device_update =
  upd_device :: ecoflow_device
  upd_time :: time
  upd_params :: params
  upd_samples :: "(gostring, sample list) fmap"

definition NewDeviceUpdate :: "time \<Rightarrow> ecoflow_device \<Rightarrow> params \<Rightarrow> device_update" where
  "NewDeviceUpdate now device params =
     \<lparr>upd_device = device, upd_time = now, upd_params = params, upd_samples = fmempty\<rparr>"

section \<open>Metric names\<close>

datatype metric_error = EmptyParameterName

definition is_metric_name_rune :: "nat \<Rightarrow> bool" where
  "is_metric_name_rune r \<longleftrightarrow> r = 95 \<or> r = 58 \<or> 97 \<le> r \<and> r \<le> 122 \<or> 65 \<le> r \<and> r \<le> 90
     \<or> 48 \<le> r \<and> r \<le> 57"

text \<open>
  One turn of the loop of \<open>ecoflowParamToPrometheusMetric\<close>: what it appends for the rune
  \<open>r\<close> at byte offset \<open>i\<close> and the new value of \<open>lastUnderscore\<close>.
\<close>

definition convert_rune :: "unicode_tables \<Rightarrow> nat \<Rightarrow> nat \<Rightarrow> bool \<Rightarrow> gostring \<times> bool" where
  "convert_rune T i r lastUnderscore =
    (let sep = (if is_upper T r \<and> 0 < i \<and> \<not> lastUnderscore then ''_'' else []);
         r1 = (if is_upper T r then to_lower T r else if r = 46 then 95 else r);
         r2 = (if is_metric_name_rune r1 then r1 else 95)
     in (sep @ encode_rune r2, r2 = 95))"

fun convert_runes :: "unicode_tables \<Rightarrow> (nat \<times> nat) list \<Rightarrow> bool \<Rightarrow> gostring" where
  "convert_runes T [] lastUnderscore = []"
| "convert_runes T ((i, r) # rs) lastUnderscore =
    (case convert_rune T i r lastUnderscore of
       (out, lastUnderscore') \<Rightarrow> out @ convert_runes T rs lastUnderscore')"

definition ecoflowParamToPrometheusMetric ::
  "unicode_tables \<Rightarrow> gostring \<Rightarrow> metric_error + gostring" where
  "ecoflowParamToPrometheusMetric T metricKey =
    (if metricKey = [] then Inl EmptyParameterName
     else Inr (convert_runes T (range_string metricKey) False))"

definition generateMetricName ::
  "unicode_tables \<Rightarrow> gostring \<Rightarrow> gostring \<Rightarrow> gostring \<Rightarrow> metric_error + gostring \<times> gostring" where
  "generateMetricName T rawMetric prefix deviceSn =
    (case ecoflowParamToPrometheusMetric T rawMetric of
       Inl e \<Rightarrow> Inl e
     | Inr prometheusName \<Rightarrow>
         (let metricName = prefix @ ''_'' @ prometheusName
          in Inr (metricName, deviceSn @ ''_'' @ metricName)))"

section \<open>Values and samples\<close>

fun toFloat :: "goval \<Rightarrow> float64 \<times> bool" where
  "toFloat (VFloat64 v) = (v, True)"
| "toFloat (VFloat32 v) = (v, True)"
| "toFloat (VInt v) = (f64_of_int v, True)"
| "toFloat (VInt32 v) = (f64_of_int (sint v), True)"
| "toFloat (VInt64 v) = (f64_of_int (sint v), True)"
| "toFloat (VUint32 v) = (f64_of_int (uint v), True)"
| "toFloat (VUint64 v) = (f64_of_int (uint v), True)"
| "toFloat (VNumber v) = parse_float v"
| "toFloat (VBool v) = (if v then (Fin 1, True) else (Fin 0, True))"
| "toFloat _ = (Fin 0, False)"

definition sample_of :: "unicode_tables \<Rightarrow> gostring \<Rightarrow> gostring \<Rightarrow> gostring \<Rightarrow> goval \<Rightarrow> sample option" where
  "sample_of T prefix sn param raw =
    (case generateMetricName T param prefix sn of
       Inl _ \<Rightarrow> None
     | Inr (name, _) \<Rightarrow>
         (case toFloat raw of
            (v, numeric) \<Rightarrow>
              Some \<lparr>smp_param = param, smp_name = name, smp_raw = raw, smp_value = v,
                    smp_numeric = numeric\<rparr>))"

text \<open>The loop of \<open>Samples\<close> over the parameters, visited in the order \<open>ks\<close>.\<close>

definition collect_samples ::
  "unicode_tables \<Rightarrow> gostring \<Rightarrow> gostring list \<Rightarrow> device_update \<Rightarrow> sample list" where
  "collect_samples T prefix ks u =
     List.map_filter
       (\<lambda>param. Option.bind (fmlookup (upd_params u) param)
                  (sample_of T prefix (dev_SN (upd_device u)) param)) ks"

definition Samples ::
  "unicode_tables \<Rightarrow> gostring list \<Rightarrow> gostring \<Rightarrow> device_update \<Rightarrow> sample list \<times> device_update" where
  "Samples T ks prefix u =
    (case fmlookup (upd_samples u) prefix of
       Some s \<Rightarrow> (s, u)
     | None \<Rightarrow>
         (let samples = collect_samples T prefix ks u
          in (samples, u\<lparr>upd_samples := fmupd prefix samples (upd_samples u)\<rparr>)))"

definition getDeviceName :: "(gostring, gostring) fmap \<Rightarrow> gostring \<Rightarrow> gostring" where
  "getDeviceName mapping sn = (case fmlookup mapping sn of Some name \<Rightarrow> name | None \<Rightarrow> sn)"

section \<open>Handlers\<close>

text \<open>
  A call of \<open>Handle\<close> returns nil, returns an error or panics. It gets the update with its
  cache of samples, which it may fill, and leaves its own new state. The first argument of a
  handler stands for what Go leaves open in this call (the order of range loops).
\<close>

datatype handle_result = HandleOk | HandleErr gostring | HandlePanic gostring

type_synonym ('env, 'h) handler =
  "'env \<Rightarrow> 'h \<Rightarrow> device_update \<Rightarrow> handle_result \<times> 'h \<times> device_update"

definition safeHandle ::
  "('env, 'h) handler \<Rightarrow> 'env \<Rightarrow> 'h \<Rightarrow> device_update \<Rightarrow> gostring option \<times> 'h \<times> device_update" where
  "safeHandle H e h u =
    (case H e h u of
       (HandleOk, h', u') \<Rightarrow> (None, h', u')
     | (HandleErr m, h', u') \<Rightarrow> (Some m, h', u')
     | (HandlePanic m, h', u') \<Rightarrow> (Some (''panic: '' @ m), h', u'))"

text \<open>
  \<open>dispatch\<close> calls every handler in turn. Its result is the new states of the handlers, the
  update and the errors it logged.
\<close>

fun dispatch ::
  "('env, 'h) handler \<Rightarrow> ('env \<times> 'h) list \<Rightarrow> device_update \<Rightarrow> 'h list \<times> device_update \<times> gostring list"
where
  "dispatch H [] u = ([], u, [])"
| "dispatch H ((e, h) # hs) u =
    (case safeHandle H e h u of
       (err, h', u') \<Rightarrow>
         (case dispatch H hs u' of
            (hs', u'', errs) \<Rightarrow>
              (h' # hs', u'', (case err of None \<Rightarrow> errs | Some m \<Rightarrow> m # errs))))"

lemma single_dispatch:
  "fst (dispatch H (zip (map envs [0..<length [h]]) [h]) u) = [fst (snd (H (envs 0) h u))]"
  by (auto simp: safeHandle_def split: prod.splits handle_result.splits)

section \<open>The names that the conversion produces\<close>

definition name_char :: "char \<Rightarrow> bool" where
  "name_char c \<longleftrightarrow> is_metric_name_rune (code c)"

text \<open>The Prometheus data model: \<open>[a-zA-Z_:][a-zA-Z0-9_:]*\<close>\<close>

definition prometheus_name :: "gostring \<Rightarrow> bool" where
  "prometheus_name s \<longleftrightarrow> s \<noteq> [] \<and> list_all name_char s \<and> \<not> is_digit (hd s)"

lemma metric_rune_less: "is_metric_name_rune r \<Longrightarrow> r < 128"
  by (auto simp: is_metric_name_rune_def)

lemma name_char_underscore [simp]: "name_char (CHR ''_'')"
  by (simp add: name_char_def is_metric_name_rune_def code_def)

lemma name_char_encode: "is_metric_name_rune r \<Longrightarrow> list_all name_char (encode_rune r)"
  using metric_rune_less [of r] by (simp add: name_char_def)

lemma convert_rune_name: "list_all name_char (fst (convert_rune T i r l))"
proof -
  have "is_metric_name_rune 95" by (simp add: is_metric_name_rune_def)
  then show ?thesis by (simp add: convert_rune_def Let_def name_char_encode)
qed

lemma convert_rune_nonempty: "fst (convert_rune T i r l) \<noteq> []"
  by (simp add: convert_rune_def Let_def encode_rune_nonempty)

lemma convert_runes_name: "list_all name_char (convert_runes T rs l)"
proof (induction rs arbitrary: l)
  case (Cons x rs)
  then show ?case
    using convert_rune_name [of T "fst x" "snd x" l]
    by (cases x) (auto split: prod.splits)
qed simp

lemma convert_runes_nonempty: "rs \<noteq> [] \<Longrightarrow> convert_runes T rs l \<noteq> []"
proof (cases rs)
  case (Cons x rs')
  then show ?thesis
    using convert_rune_nonempty [of T "fst x" "snd x" l]
    by (cases x) (auto split: prod.splits)
qed simp

lemma metric_name_valid:
  "ecoflowParamToPrometheusMetric T k = Inr n \<Longrightarrow> n \<noteq> [] \<and> list_all name_char n"
  by (auto simp: ecoflowParamToPrometheusMetric_def range_string_def convert_runes_name
      convert_runes_nonempty range_from_nonempty split: if_splits)

lemma generateMetricName_empty [metric_simps]: "generateMetricName T [] prefix sn = Inl EmptyParameterName"
  by (simp add: generateMetricName_def ecoflowParamToPrometheusMetric_def)

lemma generateMetricName_Inr:
  "generateMetricName T k prefix sn = Inr (n, d) \<Longrightarrow>
     k \<noteq> [] \<and> d = sn @ ''_'' @ n \<and> (\<exists>m. ecoflowParamToPrometheusMetric T k = Inr m \<and> n = prefix @ ''_'' @ m)"
  by (auto simp: generateMetricName_def ecoflowParamToPrometheusMetric_def Let_def split: sum.splits if_splits)

lemma generateMetricName_total:
  "k \<noteq> [] \<Longrightarrow> \<exists>n. generateMetricName T k prefix sn = Inr (n, sn @ ''_'' @ n)"
  by (simp add: generateMetricName_def ecoflowParamToPrometheusMetric_def Let_def)

section \<open>A reference for the conversion\<close>

text \<open>
  On an ASCII name the conversion can be said without a running flag: each character has its
  image, and an underscore stands before the image of an uppercase letter unless it is the
  first character or the image of the character before it is an underscore.
\<close>

definition upper_char :: "char \<Rightarrow> bool" where
  "upper_char c \<longleftrightarrow> 65 \<le> code c \<and> code c \<le> 90"

definition char_image :: "char \<Rightarrow> char" where
  "char_image c =
    (if upper_char c then char_of (code c + 32) else if name_char c then c else CHR ''_'')"

fun snake_after :: "char option \<Rightarrow> gostring \<Rightarrow> gostring" where
  "snake_after prev [] = []"
| "snake_after prev (c # cs) =
    (if upper_char c \<and> (\<exists>p\<in>set_option prev. char_image p \<noteq> CHR ''_'') then ''_'' else [])
      @ char_image c # snake_after (Some c) cs"

definition snake :: "gostring \<Rightarrow> gostring" where
  "snake s = snake_after None s"

definition ascii :: "gostring \<Rightarrow> bool" where
  "ascii s \<longleftrightarrow> list_all (\<lambda>c. code c < 128) s"

lemma char_of_code [simp]: "char_of (code c) = c"
  by (simp add: code_def)

lemma char_of_95 [simp]: "char_of (95 :: nat) = CHR ''_''"
  by (simp add: char_of_def bit_iff_odd)

lemma char_image_underscore_iff:
  "char_image c = CHR ''_'' \<longleftrightarrow> \<not> upper_char c \<and> (c = CHR ''_'' \<or> \<not> name_char c)"
proof -
  have "char_of (code c + 32) \<noteq> CHR ''_''" if "upper_char c"
  proof
    assume "char_of (code c + 32) = CHR ''_''"
    then have "code (char_of (code c + 32)) = 95" by (simp add: code_def)
    with that show False by (simp add: upper_char_def)
  qed
  then show ?thesis by (auto simp: char_image_def)
qed

lemma convert_rune_ascii:
  assumes "code c < 128"
  shows "convert_rune T i (code c) l =
    ((if upper_char c \<and> 0 < i \<and> \<not> l then ''_'' else []) @ [char_image c], char_image c = CHR ''_'')"
proof -
  have up: "is_upper T (code c) \<longleftrightarrow> upper_char c"
    using assms by (auto simp: is_upper_def upper_char_def)
  show ?thesis
  proof (cases "upper_char c")
    case True
    then have "is_metric_name_rune (code c + 32)" and "to_lower T (code c) = code c + 32"
      by (auto simp: upper_char_def is_metric_name_rune_def to_lower_def)
    moreover have "char_of (code c + 32) \<noteq> CHR ''_''"
      using char_image_underscore_iff [of c] True by (simp add: char_image_def)
    ultimately show ?thesis
      using assms True up by (auto simp: convert_rune_def Let_def char_image_def upper_char_def
          char_image_underscore_iff)
  next
    case False
    moreover have "code c = 46 \<Longrightarrow> \<not> name_char c"
      by (simp add: name_char_def is_metric_name_rune_def)
    moreover have "code c = 95 \<longleftrightarrow> c = CHR ''_''"
      using code_inj [of c "CHR ''_''"] by (simp add: code_def del: code_inj)
    moreover have "is_metric_name_rune 95" by (simp add: is_metric_name_rune_def)
    ultimately show ?thesis
      using assms up by (auto simp: convert_rune_def Let_def char_image_def name_char_def)
  qed
qed

lemma convert_runes_snake:
  assumes "ascii s" and "l \<longleftrightarrow> (\<exists>p\<in>set_option prev. char_image p = CHR ''_'')"
    and "0 < i \<longleftrightarrow> prev \<noteq> None"
  shows "convert_runes T (range_from i s) l = snake_after prev s"
  using assms
proof (induction s arbitrary: i l prev)
  case (Cons c cs)
  then have "code c < 128" and "ascii cs" by (auto simp: ascii_def)
  with Cons.IH [of "char_image c = CHR ''_''" "Some c" "Suc i"] Cons.prems show ?case
    by (cases prev) (auto simp: range_from_ascii convert_rune_ascii)
qed simp

lemma snake_conversion:
  "ascii k \<Longrightarrow> k \<noteq> [] \<Longrightarrow> ecoflowParamToPrometheusMetric T k = Inr (snake k)"
  using convert_runes_snake [of k False None 0 T]
  by (simp add: ecoflowParamToPrometheusMetric_def range_string_def snake_def)

section \<open>Samples\<close>

lemma sample_of_Some_iff:
  "(\<exists>s. sample_of T prefix sn param raw = Some s) \<longleftrightarrow> param \<noteq> []"
  using generateMetricName_total [of param T prefix sn]
  by (cases "param = []") (auto simp: sample_of_def metric_simps split: prod.splits)

lemma sample_of_fields:
  "sample_of T prefix sn param raw = Some s \<Longrightarrow>
     smp_param s = param \<and> smp_raw s = raw \<and> toFloat raw = (smp_value s, smp_numeric s)
     \<and> generateMetricName T param prefix sn = Inr (smp_name s, sn @ ''_'' @ smp_name s)"
  by (auto simp: sample_of_def split: sum.splits prod.splits dest: generateMetricName_Inr)

lemma set_map_filter_iff: "y \<in> set (List.map_filter f xs) \<longleftrightarrow> (\<exists>x\<in>set xs. f x = Some y)"
  by (induction xs) (auto simp: List.map_filter_simps split: option.splits)

lemma collect_samples_mem:
  "range_order (upd_params u) ks \<Longrightarrow>
   s \<in> set (collect_samples T prefix ks u) \<longleftrightarrow>
     (\<exists>raw. fmlookup (upd_params u) (smp_param s) = Some raw
        \<and> sample_of T prefix (dev_SN (upd_device u)) (smp_param s) raw = Some s)"
  by (auto simp: collect_samples_def set_map_filter_iff range_order_mem bind_eq_Some_conv
      dest: sample_of_fields)

text \<open>A second call for the same prefix returns the cached samples, whatever order it would visit.\<close>

lemma Samples_cached:
  "Samples T ks prefix u = (s, u') \<Longrightarrow> Samples T ks' prefix u' = (s, u')"
  by (auto simp: Samples_def Let_def split: option.splits)

lemma Samples_update:
  "Samples T ks prefix u = (s, u') \<Longrightarrow>
     upd_device u' = upd_device u \<and> upd_time u' = upd_time u \<and> upd_params u' = upd_params u"
  by (auto simp: Samples_def Let_def split: option.splits)

text \<open>The handlers after the updates \<open>us\<close> have been dispatched to \<open>hs0\<close>, one after the other.\<close>

inductive handled :: "('e, 'h) handler \<Rightarrow> 'h list \<Rightarrow> device_update list \<Rightarrow> 'h list \<Rightarrow> bool" for H hs0 where
  handled_none: "handled H hs0 [] hs0"
| handled_more:
    "handled H hs0 us hs \<Longrightarrow> dispatch H (zip (map envs [0..<length hs]) hs) u = (hs', u', errs) \<Longrightarrow>
     handled H hs0 (us @ [u]) hs'"

section \<open>The interface MetricHandler\<close>

locale metric_handler =
  fixes handle :: "'env \<Rightarrow> 'h \<Rightarrow> device_update \<Rightarrow> handle_result \<times> 'h \<times> device_update"
    and inv :: "'h \<Rightarrow> bool"
  assumes handle_inv: "inv h \<Longrightarrow> handle e h u = (r, h', u') \<Longrightarrow> inv h'"
    and handle_readonly: "handle e h u = (r, h', u') \<Longrightarrow>
      upd_device u' = upd_device u \<and> upd_time u' = upd_time u \<and> upd_params u' = upd_params u"
begin

lemma safeHandle_inv: "inv h \<Longrightarrow> safeHandle handle e h u = (err, h', u') \<Longrightarrow> inv h'"
  by (auto simp: safeHandle_def split: prod.splits handle_result.splits dest: handle_inv)

lemma safeHandle_readonly:
  "safeHandle handle e h u = (err, h', u') \<Longrightarrow>
     upd_device u' = upd_device u \<and> upd_time u' = upd_time u \<and> upd_params u' = upd_params u"
  by (auto simp: safeHandle_def split: prod.splits handle_result.splits dest: handle_readonly)

lemma dispatch_inv:
  "\<forall>(e, h) \<in> set hs. inv h \<Longrightarrow> dispatch handle hs u = (hs', u', errs) \<Longrightarrow> \<forall>h \<in> set hs'. inv h"
proof (induction hs arbitrary: u hs' u' errs)
  case (Cons x hs)
  then show ?case
    by (cases x) (fastforce split: prod.splits dest: safeHandle_inv)
qed simp

lemma dispatch_readonly:
  "dispatch handle hs u = (hs', u', errs) \<Longrightarrow>
     upd_device u' = upd_device u \<and> upd_time u' = upd_time u \<and> upd_params u' = upd_params u"
proof (induction hs arbitrary: u hs' u' errs)
  case (Cons x hs)
  then show ?case
    by (cases x) (fastforce split: prod.splits dest: safeHandle_readonly)
qed simp

lemma dispatch_length: "dispatch handle hs u = (hs', u', errs) \<Longrightarrow> length hs' = length hs"
  by (induction hs arbitrary: u hs' u' errs) (auto split: prod.splits)

end

text \<open>
  What a caller of \<open>dispatch\<close> relies on: a property of the list of its handlers that survives every
  dispatch of a new update. Handlers that keep an invariant give one such property.
\<close>

locale handler_list =
  fixes handle :: "'env \<Rightarrow> 'h \<Rightarrow> device_update \<Rightarrow> handle_result \<times> 'h \<times> device_update"
    and good :: "'h list \<Rightarrow> bool"
  assumes dispatch_good: "good hs \<Longrightarrow>
    dispatch handle (zip (map envs [0..<length hs]) hs) (NewDeviceUpdate now device params) = (hs', u', errs) \<Longrightarrow> good hs'"

sublocale metric_handler \<subseteq> all: handler_list handle "\<lambda>hs. \<forall>h \<in> set hs. inv h"
proof
  fix hs envs now device params hs' u' errs
  assume hs: "\<forall>h \<in> set hs. inv h"
    and d: "dispatch handle (zip (map envs [0..<length hs]) hs) (NewDeviceUpdate now device params) = (hs', u', errs)"
  have "\<forall>(e, h) \<in> set (zip (map envs [0..<length hs]) hs). inv h"
    using hs by (auto dest: set_zip_rightD)
  from dispatch_inv [OF this d] show "\<forall>h \<in> set hs'. inv h" .
qed

text \<open>Unicode tables for the witnesses, without any letters outside Latin-1.\<close>

definition sample_tables :: unicode_tables where
  "sample_tables = \<lparr>upper_table = (\<lambda>r. False), lower_table = (\<lambda>r. r)\<rparr>"

section \<open>Properties\<close>

text \<open>Every generated metric name is a valid Prometheus metric name when the prefix is one,
  whatever bytes the parameter name consists of.\<close>
theorem generated_name_valid:
  assumes "prometheus_name prefix" and "generateMetricName T k prefix sn = Inr (n, d)"
  shows "prometheus_name n"
  using assms(1) generateMetricName_Inr [OF assms(2)]
  by (cases prefix) (auto simp: prometheus_name_def dest: metric_name_valid)

theorem generated_name_valid_witness:
  "\<exists>n d. generateMetricName sample_tables [CHR 0xFF, CHR ''B''] ''ecoflow'' ''R1'' = Inr (n, d) \<and> prometheus_name n"
proof -
  obtain n where n: "generateMetricName sample_tables [CHR 0xFF, CHR ''B''] ''ecoflow'' ''R1'' = Inr (n, ''R1'' @ ''_'' @ n)"
    using generateMetricName_total [of "[CHR 0xFF, CHR ''B'']"] by blast
  have "prometheus_name n"
    by (rule generated_name_valid [OF _ n])
      (simp add: prometheus_name_def name_char_def is_metric_name_rune_def code_def is_digit_def)
  with n show ?thesis by blast
qed

text \<open>C39: For ASCII parameter names the conversion is the character-wise reference \<open>snake\<close>:
  letters become lower case, every other character that a metric name cannot have becomes an
  underscore, and an underscore is put before an upper-case letter that does not follow one;
  the Unicode tables play no part.\<close>
theorem name_conversion_reference:
  assumes "ascii k" and "k \<noteq> []"
  shows "generateMetricName T k prefix sn =
    Inr (prefix @ ''_'' @ snake k, sn @ ''_'' @ prefix @ ''_'' @ snake k)"
  using snake_conversion [OF assms, of T] by (simp add: generateMetricName_def Let_def)

theorem name_conversion_reference_witness:
  "generateMetricName sample_tables ''bms.2.maxCellTemp'' ''ecoflow'' ''R1'' =
     Inr (''ecoflow_bms_2_max_cell_temp'', ''R1_ecoflow_bms_2_max_cell_temp'')"
proof -
  have "snake ''bms.2.maxCellTemp'' = ''bms_2_max_cell_temp''" by code_simp
  moreover have "ascii ''bms.2.maxCellTemp''" by (simp add: ascii_def code_def)
  ultimately show ?thesis
    using name_conversion_reference [of "''bms.2.maxCellTemp''" sample_tables "''ecoflow''" "''R1''"] by simp
qed

text \<open>C40: Every handler gets every update: \<open>dispatch\<close> calls each handler once and in order, with
  the device, time and parameters of the update, also when handlers before it return errors or
  panic, and logs one error for each that does.\<close>
theorem dispatch_reaches_every_handler:
  assumes "\<And>e h u r h' u'. H e h u = (r, h', u') \<Longrightarrow>
      upd_device u' = upd_device u \<and> upd_time u' = upd_time u \<and> upd_params u' = upd_params u"
  shows "\<exists>us. length us = length hs \<and> (\<forall>v \<in> set us. upd_device v = upd_device u \<and> upd_time v = upd_time u
            \<and> upd_params v = upd_params u)
    \<and> fst (dispatch H hs u) = map2 (\<lambda>(e, h) v. fst (snd (H e h v))) hs us
    \<and> length (snd (snd (dispatch H hs u))) =
        length (filter (\<lambda>((e, h), v). fst (H e h v) \<noteq> HandleOk) (zip hs us))"
proof (induction hs arbitrary: u)
  case (Cons x hs)
  obtain e h where x: "x = (e, h)" by (cases x)
  obtain r h' u' where H: "H e h u = (r, h', u')" by (metis surj_pair)
  obtain us where us: "length us = length hs"
    "\<forall>v \<in> set us. upd_device v = upd_device u' \<and> upd_time v = upd_time u' \<and> upd_params v = upd_params u'"
    "fst (dispatch H hs u') = map2 (\<lambda>(e, h) v. fst (snd (H e h v))) hs us"
    "length (snd (snd (dispatch H hs u'))) =
        length (filter (\<lambda>((e, h), v). fst (H e h v) \<noteq> HandleOk) (zip hs us))"
    using Cons.IH by blast
  have "\<forall>v \<in> set (u # us). upd_device v = upd_device u \<and> upd_time v = upd_time u \<and> upd_params v = upd_params u"
    using us(2) assms [OF H] by simp
  moreover have "fst (dispatch H (x # hs) u) = map2 (\<lambda>(e, h) v. fst (snd (H e h v))) (x # hs) (u # us)"
    using H us(3) by (auto simp: x safeHandle_def split: prod.splits handle_result.splits)
  moreover have "length (snd (snd (dispatch H (x # hs) u))) =
      length (filter (\<lambda>((e, h), v). fst (H e h v) \<noteq> HandleOk) (zip (x # hs) (u # us)))"
    using H us(4) by (auto simp: x safeHandle_def split: prod.splits handle_result.splits)
  ultimately show ?case using us(1) by (intro exI [of _ "u # us"]) simp
qed simp

text \<open>Handlers for the witness: they count their calls, and some panic.\<close>

definition counting_handler :: "(bool, nat) handler" where
  "counting_handler e h u = (if e then HandlePanic ''boom'' else HandleOk, Suc h, u)"

definition witness_update :: device_update where
  "witness_update = NewDeviceUpdate 0 \<lparr>dev_SN = ''R1'', dev_Name = ''garage'', dev_Online = 1\<rparr> fmempty"

theorem dispatch_reaches_every_handler_witness:
  "fst (dispatch counting_handler [(True, 3), (False, 5)] witness_update) = [4, 6]
   \<and> length (snd (snd (dispatch counting_handler [(True, 3), (False, 5)] witness_update))) = 1"
proof -
  let ?hs = "[(True, 3), (False, 5 :: nat)]"
  have "\<exists>us. length us = length ?hs
    \<and> (\<forall>v \<in> set us. upd_device v = upd_device witness_update \<and> upd_time v = upd_time witness_update \<and> upd_params v = upd_params witness_update)
    \<and> fst (dispatch counting_handler ?hs witness_update) = map2 (\<lambda>(e, h) v. fst (snd (counting_handler e h v))) ?hs us
    \<and> length (snd (snd (dispatch counting_handler ?hs witness_update))) =
        length (filter (\<lambda>((e, h), v). fst (counting_handler e h v) \<noteq> HandleOk) (zip ?hs us))"
    by (rule dispatch_reaches_every_handler) (auto simp: counting_handler_def)
  then obtain us :: "device_update list" where u: "length us = length ?hs"
    "fst (dispatch counting_handler ?hs witness_update) = map2 (\<lambda>(e, h) v. fst (snd (counting_handler e h v))) ?hs us"
    "length (snd (snd (dispatch counting_handler ?hs witness_update))) =
        length (filter (\<lambda>((e, h), v). fst (counting_handler e h v) \<noteq> HandleOk) (zip ?hs us))"
    by blast
  from u(1) obtain a b where "us = [a, b]"
    by (cases us; cases "tl us") auto
  with u(2,3) show ?thesis by (simp add: counting_handler_def del: dispatch.simps)
qed

end
