(* ===== verification/Config.thy ===== *)
theory Config
  imports Go_Json Metric "HOL-Library.Char_ord" "HOL-Library.List_Lexorder" "HOL-Library.Multiset"
begin

text \<open>
  \<open>config.go\<close>: reading and validating the configuration from environment variables.

  The environment is the function \<open>lookup\<close>; \<open>os.ReadFile\<close> is a function from paths to contents or
  an error. Errors are collected in the order in which the code appends them; an error value
  carries what the code formats into its text. The order in which the parsed pretty names are
  visited is the list \<open>ks\<close>.
\<close>

section \<open>Data\<close>

definition defaultMetricPrefix :: gostring where "defaultMetricPrefix = ''ecoflow''"
definition defaultPort :: gostring where "defaultPort = ''2112''"
definition defaultRestIntervalSeconds :: int where "defaultRestIntervalSeconds = 30"
definition defaultOfflineThresholdSeconds :: int where "defaultOfflineThresholdSeconds = 300"
definition defaultPingIntervalSeconds :: int where "defaultPingIntervalSeconds = 20"
definition defaultStateRefreshIntervalSeconds :: int where "defaultStateRefreshIntervalSeconds = 300"

datatype config_error =
    MustBeBool gostring gostring
  | MustBeInt gostring gostring
  | MustBePositive gostring int
  | CannotRead gostring gostring
  | MustBePort gostring gostring
  | BadMetricPrefix gostring
  | BadDeviceMapping
  | AccessKeyMandatory
  | EmailPasswordMandatory
  | DevicesMandatory
  | NoCredentials
  | UnknownExporterType gostring

record RestConfig =
  AccessKey :: gostring
  SecretKey :: gostring
  Interval :: duration

record MqttConfig =
  Email :: gostring
  Password :: gostring
  OfflineThreshold :: duration
  PingInterval :: duration
  StateRefreshInterval :: duration

record Config =
  MetricPrefix :: gostring
  ExporterType :: gostring
  Devices :: "(gostring, gostring) fmap"
  Port :: gostring
  ProtobufDebug :: bool
  Rest :: RestConfig
  Mqtt :: MqttConfig

section \<open>Reading values\<close>

type_synonym lookup = "gostring \<Rightarrow> gostring option"

record env =
  env_lookup :: lookup
  env_file :: "gostring \<Rightarrow> gostring + gostring"
  env_errs :: "config_error list"

text \<open>\<open>newEnv\<close>: a nil lookup stands for the environment of the process.\<close>

definition newEnv :: "lookup \<Rightarrow> (gostring \<Rightarrow> gostring + gostring) \<Rightarrow> lookup option \<Rightarrow> env" where
  "newEnv os_LookupEnv os_ReadFile lk =
     \<lparr>env_lookup = (case lk of None \<Rightarrow> os_LookupEnv | Some f \<Rightarrow> f), env_file = os_ReadFile, env_errs = []\<rparr>"

definition add_err :: "config_error \<Rightarrow> env \<Rightarrow> env" where
  "add_err err e = e\<lparr>env_errs := env_errs e @ [err]\<rparr>"

text \<open>A missing variable has the empty string as its value.\<close>

definition env_raw :: "gostring \<Rightarrow> env \<Rightarrow> gostring \<times> bool" where
  "env_raw key e =
    (let v = trim_space (case env_lookup e key of None \<Rightarrow> [] | Some s \<Rightarrow> s)
     in (v, env_lookup e key \<noteq> None \<and> v \<noteq> []))"

definition env_str :: "gostring \<Rightarrow> gostring \<Rightarrow> env \<Rightarrow> gostring" where
  "env_str key def e = (case env_raw key e of (v, ok) \<Rightarrow> if ok then v else def)"

definition env_bool :: "gostring \<Rightarrow> env \<Rightarrow> bool \<times> env" where
  "env_bool key e =
    (case env_raw key e of
       (v, ok) \<Rightarrow>
         if \<not> ok then (False, e)
         else (case parse_bool v of Some b \<Rightarrow> (b, e) | None \<Rightarrow> (False, add_err (MustBeBool key v) e)))"

definition env_int :: "gostring \<Rightarrow> int \<Rightarrow> env \<Rightarrow> int \<times> env" where
  "env_int key def e =
    (case env_raw key e of
       (v, ok) \<Rightarrow>
         if \<not> ok then (def, e)
         else (case atoi v of Some i \<Rightarrow> (i, e) | None \<Rightarrow> (def, add_err (MustBeInt key v) e)))"

definition env_seconds :: "gostring \<Rightarrow> int \<Rightarrow> env \<Rightarrow> duration \<times> env" where
  "env_seconds key def e =
    (case env_int key def e of
       (s, e) \<Rightarrow> (wrap64 (s * second), if s \<le> 0 then add_err (MustBePositive key s) e else e))"

definition env_secret :: "gostring \<Rightarrow> env \<Rightarrow> gostring \<times> env" where
  "env_secret key e =
    (case env_raw key e of
       (v, ok) \<Rightarrow>
         if ok then (v, e)
         else (case env_raw (key @ ''_FILE'') e of
                 (path, ok) \<Rightarrow>
                   if \<not> ok then ([], e)
                   else (case env_file e path of
                           Inl err \<Rightarrow> ([], add_err (CannotRead key err) e)
                         | Inr contents \<Rightarrow> (trim_space contents, e))))"

definition env_port :: "gostring \<Rightarrow> gostring \<Rightarrow> env \<Rightarrow> gostring \<times> env" where
  "env_port key def e =
    (let v = env_str key def e in
     (v, case atoi v of
           None \<Rightarrow> add_err (MustBePort key v) e
         | Some p \<Rightarrow> if p < 1 \<or> p > 65535 then add_err (MustBePort key v) e else e))"

section \<open>Devices\<close>

definition add_pretty ::
  "(gostring, gostring) fmap \<Rightarrow> gostring list \<Rightarrow> (gostring, gostring) fmap \<Rightarrow> (gostring, gostring) fmap" where
  "add_pretty parsed ks mapping =
     fold (\<lambda>key m. case fmlookup parsed key of
             None \<Rightarrow> m
           | Some name \<Rightarrow> (let sn = trim_space key in if sn = [] then m else fmupd sn name m)) ks mapping"

definition add_plain :: "gostring list \<Rightarrow> (gostring, gostring) fmap \<Rightarrow> (gostring, gostring) fmap" where
  "add_plain words mapping =
     fold (\<lambda>w m. let sn = trim_space w in
             if sn = [] then m else if fmlookup m sn = None then fmupd sn sn m else m) words mapping"

text \<open>The order in which the parsed names are visited is the choice \<open>order\<close> of the runtime.\<close>

definition parseDeviceMapping ::
  "((gostring, gostring) fmap \<Rightarrow> gostring list) \<Rightarrow> gostring \<Rightarrow> gostring
     \<Rightarrow> config_error + (gostring, gostring) fmap"
where
  "parseDeviceMapping order prettyNames devices =
    (let rest = add_plain (split_on (CHR '','') devices) in
     if prettyNames \<noteq> [] then
       (case unmarshal_string_map prettyNames of
          None \<Rightarrow> Inl BadDeviceMapping
        | Some parsed \<Rightarrow> Inr (rest (add_pretty parsed (order parsed) fmempty)))
     else Inr (rest fmempty))"

section \<open>LoadConfig\<close>

definition detectExporterType :: "RestConfig \<Rightarrow> MqttConfig \<Rightarrow> gostring" where
  "detectExporterType r m =
    (if AccessKey r \<noteq> [] \<or> SecretKey r \<noteq> [] then ''rest''
     else if Email m \<noteq> [] \<or> Password m \<noteq> [] then ''mqtt''
     else [])"

text \<open>The branches of the switch over the exporter type.\<close>

definition load_rest :: "RestConfig \<Rightarrow> Config \<Rightarrow> env \<Rightarrow> Config \<times> env" where
  "load_rest r cfg e =
    (case env_seconds ''SCRAPING_INTERVAL'' defaultRestIntervalSeconds e of
       (interval, e) \<Rightarrow>
         (cfg\<lparr>Rest := r\<lparr>Interval := interval\<rparr>\<rparr>,
          if AccessKey r = [] \<or> SecretKey r = [] then add_err AccessKeyMandatory e else e))"

definition load_mqtt :: "MqttConfig \<Rightarrow> Config \<Rightarrow> env \<Rightarrow> Config \<times> env" where
  "load_mqtt m cfg e =
    (let (threshold, e) = env_seconds ''MQTT_DEVICE_OFFLINE_THRESHOLD_SECONDS'' defaultOfflineThresholdSeconds e;
         (ping, e) = env_seconds ''MQTT_PING_INTERVAL_SECONDS'' defaultPingIntervalSeconds e;
         (refresh, e) = env_seconds ''MQTT_STATE_REFRESH_INTERVAL_SECONDS'' defaultStateRefreshIntervalSeconds e;
         e = (if Email m = [] \<or> Password m = [] then add_err EmailPasswordMandatory e else e);
         e = (if go_len (Devices cfg) = 0 then add_err DevicesMandatory e else e)
     in (cfg\<lparr>Mqtt := m\<lparr>OfflineThreshold := threshold, PingInterval := ping, StateRefreshInterval := refresh\<rparr>\<rparr>, e))"

text \<open>The switch of \<open>LoadConfig\<close> over the exporter type.\<close>

definition load_typed :: "RestConfig \<Rightarrow> MqttConfig \<Rightarrow> Config \<Rightarrow> env \<Rightarrow> Config \<times> env" where
  "load_typed r m cfg e =
    (if ExporterType cfg = ''rest'' then load_rest r cfg e
     else if ExporterType cfg = ''mqtt'' then load_mqtt m cfg e
     else if ExporterType cfg = [] then (cfg, add_err NoCredentials e)
     else (cfg, add_err (UnknownExporterType (ExporterType cfg)) e))"

definition zero_rest :: RestConfig where
  "zero_rest = \<lparr>AccessKey = [], SecretKey = [], Interval = 0\<rparr>"

definition zero_mqtt :: MqttConfig where
  "zero_mqtt = \<lparr>Email = [], Password = [], OfflineThreshold = 0, PingInterval = 0, StateRefreshInterval = 0\<rparr>"

definition LoadConfig ::
  "unicode_tables \<Rightarrow> ((gostring, gostring) fmap \<Rightarrow> gostring list) \<Rightarrow> env \<Rightarrow> config_error list + Config"
where
  "LoadConfig T order e =
    (let prefix = env_str ''METRIC_PREFIX'' defaultMetricPrefix e;
         (port, e) = env_port ''PROMETHEUS_PORT'' defaultPort e;
         (debug, e) = env_bool ''PROTOBUF_DEBUG'' e;
         e = (if prometheus_name prefix then e else add_err (BadMetricPrefix prefix) e);
         (devices, e) =
           (case parseDeviceMapping order (env_str ''ECOFLOW_DEVICES_PRETTY_NAMES'' [] e) (env_str ''ECOFLOW_DEVICES'' [] e) of
              Inl err \<Rightarrow> (fmempty, add_err err e)
            | Inr m \<Rightarrow> (m, e));
         accessKey = env_str ''ECOFLOW_ACCESS_KEY'' [] e;
         (secretKey, e) = env_secret ''ECOFLOW_SECRET_KEY'' e;
         email = env_str ''ECOFLOW_EMAIL'' [] e;
         (password, e) = env_secret ''ECOFLOW_PASSWORD'' e;
         r = zero_rest\<lparr>AccessKey := accessKey, SecretKey := secretKey\<rparr>;
         m = zero_mqtt\<lparr>Email := email, Password := password\<rparr>;
         xtype = strings_ToLower T (env_str ''EXPORTER_TYPE'' [] e);
         xtype = (if xtype = [] then detectExporterType r m else xtype);
         cfg = \<lparr>MetricPrefix = prefix, ExporterType = xtype, Devices = devices, Port = port,
                ProtobufDebug = debug, Rest = zero_rest, Mqtt = zero_mqtt\<rparr>;
         (cfg, e) = load_typed r m cfg e
     in if env_errs e \<noteq> [] then Inl (env_errs e) else Inr cfg)"

section \<open>LogValue\<close>

datatype log_attr =
    AttrString gostring gostring
  | AttrStrings gostring "gostring list"
  | AttrDuration gostring duration
  | AttrBool gostring bool

definition LogValue :: "gostring list \<Rightarrow> Config \<Rightarrow> log_attr list" where
  "LogValue ks c =
    (let devices = sort (List.map_filter
                      (\<lambda>sn. map_option (\<lambda>name. sn @ ''='' @ name) (fmlookup (Devices c) sn)) ks)
     in [AttrString ''exporter_type'' (ExporterType c), AttrString ''metric_prefix'' (MetricPrefix c),
         AttrString ''port'' (Port c), AttrStrings ''devices'' devices] @
        (if ExporterType c = ''rest'' then [AttrDuration ''interval'' (Interval (Rest c))]
         else if ExporterType c = ''mqtt'' then
           [AttrDuration ''offline_threshold'' (OfflineThreshold (Mqtt c)),
            AttrDuration ''ping_interval'' (PingInterval (Mqtt c)),
            AttrDuration ''state_refresh_interval'' (StateRefreshInterval (Mqtt c)),
            AttrBool ''protobuf_debug'' (ProtobufDebug c)]
         else []))"

section \<open>setupLogger\<close>

text \<open>
  \<open>(*slog.Level).UnmarshalText\<close>: a name in any case, with an optional offset. Upper case outside
  ASCII is the table \<open>U\<close>.
\<close>

definition to_upper :: "(nat \<Rightarrow> nat) \<Rightarrow> nat \<Rightarrow> nat" where
  "to_upper U r = (if r \<le> 127 then (if 97 \<le> r \<and> r \<le> 122 then r - 32 else r) else U r)"

definition strings_ToUpper :: "(nat \<Rightarrow> nat) \<Rightarrow> gostring \<Rightarrow> gostring" where
  "strings_ToUpper U s = concat (map (\<lambda>(i, r). encode_rune (to_upper U r)) (range_string s))"

definition level_of_name :: "gostring \<Rightarrow> int option" where
  "level_of_name s = map_of [(''DEBUG'', -4), (''INFO'', 0), (''WARN'', 4), (''ERROR'', 8)] s"

definition parse_level :: "(nat \<Rightarrow> nat) \<Rightarrow> gostring \<Rightarrow> int option" where
  "parse_level U s =
    (let no_sign = (\<lambda>c. c \<noteq> CHR ''+'' \<and> c \<noteq> CHR ''-'');
         name = takeWhile no_sign s;
         offset = dropWhile no_sign s
     in if offset = [] then level_of_name (strings_ToUpper U name)
        else (case atoi offset of
                None \<Rightarrow> None
              | Some n \<Rightarrow> map_option (\<lambda>l. wrap64 (l + n)) (level_of_name (strings_ToUpper U name))))"

datatype log_handler = JsonHandler | TextHandler
datatype logger_warning = InvalidLevel gostring | InvalidFormat gostring

definition setupLogger :: "unicode_tables \<Rightarrow> (nat \<Rightarrow> nat) \<Rightarrow> env \<Rightarrow> int \<times> log_handler \<times> logger_warning list" where
  "setupLogger T U e =
    (let (lv, ok) = env_raw ''LOG_LEVEL'' e;
         (level, warnings) =
           (if ok then (case parse_level U lv of Some l \<Rightarrow> (l, []) | None \<Rightarrow> (0, [InvalidLevel lv]))
            else (0, []));
         format = fst (env_raw ''LOG_FORMAT'' e);
         lower = strings_ToLower T format
     in if lower = ''json'' then (level, JsonHandler, warnings)
        else if lower = [] \<or> lower = ''text'' then (level, TextHandler, warnings)
        else (level, TextHandler, warnings @ [InvalidFormat format]))"

section \<open>Operations without errors\<close>

text \<open>
  Errors are never removed; an operation that leaves no error has left the environment alone.
  This collection says so for each operation, with what it has checked.
\<close>

named_theorems no_errors \<open>what an operation has checked when no error is left\<close>

lemma add_err_errs [simp]: "env_errs (add_err x e) = env_errs e @ [x]"
  by (simp add: add_err_def)

lemma env_bool_ok [no_errors]: "env_bool k e = (b, e') \<Longrightarrow> env_errs e' = [] \<Longrightarrow> e' = e"
  by (auto simp: env_bool_def split: prod.splits if_splits option.splits)

lemma env_int_ok [no_errors]: "env_int k d e = (n, e') \<Longrightarrow> env_errs e' = [] \<Longrightarrow> e' = e"
  by (auto simp: env_int_def split: prod.splits if_splits option.splits)

text \<open>
  The number of seconds that the environment states for a variable: its value, the default when it
  is unset or blank, and none when its value is not a whole number. A duration comes from a variable
  when that number is positive; the multiplication wraps. The number fits when it does not.
\<close>

definition stated_seconds :: "gostring \<Rightarrow> int \<Rightarrow> env \<Rightarrow> int option" where
  "stated_seconds key def e =
    (let v = trim_space (case env_lookup e key of None \<Rightarrow> [] | Some s \<Rightarrow> s)
     in if v = [] then Some def else atoi v)"

definition duration_from :: "gostring \<Rightarrow> int \<Rightarrow> env \<Rightarrow> duration \<Rightarrow> bool" where
  "duration_from key def e d \<longleftrightarrow>
    (case stated_seconds key def e of None \<Rightarrow> False | Some s \<Rightarrow> 0 < s \<and> d = wrap64 (s * second))"

definition stated_fits :: "gostring \<Rightarrow> int \<Rightarrow> env \<Rightarrow> bool" where
  "stated_fits key def e \<longleftrightarrow>
    (case stated_seconds key def e of None \<Rightarrow> True | Some s \<Rightarrow> s * second < 2 ^ 63)"

lemma duration_from_pos: "duration_from k d e n \<Longrightarrow> stated_fits k d e \<Longrightarrow> 0 < n"
  by (auto simp: duration_from_def stated_fits_def wrap64_def split: option.splits)

lemma env_int_stated: "env_int k d e = (n, e') \<Longrightarrow> env_errs e' = [] \<Longrightarrow> stated_seconds k d e = Some n"
  by (cases "env_lookup e k")
    (auto simp: env_int_def env_raw_def stated_seconds_def Let_def split: prod.splits if_splits option.splits)

lemma env_seconds_ok [no_errors]:
  "env_seconds k d e = (n, e') \<Longrightarrow> env_errs e' = [] \<Longrightarrow> e' = e \<and> duration_from k d e n"
proof -
  assume a: "env_seconds k d e = (n, e')" "env_errs e' = []"
  obtain s e1 where s: "env_int k d e = (s, e1)" by (metis surj_pair)
  with a have n: "0 < s" "n = wrap64 (s * second)" "e' = e1"
    by (auto simp: env_seconds_def split: if_splits)
  with a(2) env_int_ok [OF s] env_int_stated [OF s] show ?thesis by (simp add: duration_from_def)
qed

lemma env_secret_ok [no_errors]: "env_secret k e = (v, e') \<Longrightarrow> env_errs e' = [] \<Longrightarrow> e' = e"
  by (auto simp: env_secret_def split: prod.splits if_splits sum.splits)

definition port_ok :: "gostring \<Rightarrow> bool" where
  "port_ok v \<longleftrightarrow> (case atoi v of None \<Rightarrow> False | Some p \<Rightarrow> 1 \<le> p \<and> p \<le> 65535)"

lemma env_port_ok [no_errors]:
  "env_port k d e = (v, e') \<Longrightarrow> env_errs e' = [] \<Longrightarrow> e' = e \<and> port_ok v"
  by (auto simp: env_port_def port_ok_def Let_def split: option.splits if_splits)

lemma load_rest_ok [no_errors]:
  assumes "load_rest r cfg e = (cfg', e')" and "env_errs e' = []"
  shows "e' = e \<and> AccessKey r \<noteq> [] \<and> SecretKey r \<noteq> [] \<and> cfg' = cfg\<lparr>Rest := r\<lparr>Interval := Interval (Rest cfg')\<rparr>\<rparr>
    \<and> duration_from ''SCRAPING_INTERVAL'' defaultRestIntervalSeconds e (Interval (Rest cfg'))"
proof -
  obtain n e1 where n: "env_seconds ''SCRAPING_INTERVAL'' defaultRestIntervalSeconds e = (n, e1)"
    by (metis surj_pair)
  show ?thesis
    using assms n by (auto simp: load_rest_def dest: env_seconds_ok split: if_splits)
qed

definition mqtt_durations :: "env \<Rightarrow> MqttConfig \<Rightarrow> bool" where
  "mqtt_durations e m \<longleftrightarrow>
     duration_from ''MQTT_DEVICE_OFFLINE_THRESHOLD_SECONDS'' defaultOfflineThresholdSeconds e (OfflineThreshold m)
     \<and> duration_from ''MQTT_PING_INTERVAL_SECONDS'' defaultPingIntervalSeconds e (PingInterval m)
     \<and> duration_from ''MQTT_STATE_REFRESH_INTERVAL_SECONDS'' defaultStateRefreshIntervalSeconds e (StateRefreshInterval m)"

lemma load_mqtt_ok [no_errors]:
  assumes "load_mqtt m cfg e = (cfg', e')" and "env_errs e' = []"
  shows "e' = e \<and> Email m \<noteq> [] \<and> Password m \<noteq> [] \<and> go_len (Devices cfg) \<noteq> 0
    \<and> cfg' = cfg\<lparr>Mqtt := m\<lparr>OfflineThreshold := OfflineThreshold (Mqtt cfg'),
                 PingInterval := PingInterval (Mqtt cfg'), StateRefreshInterval := StateRefreshInterval (Mqtt cfg')\<rparr>\<rparr>
    \<and> mqtt_durations e (Mqtt cfg')"
proof -
  obtain a e1 where a: "env_seconds ''MQTT_DEVICE_OFFLINE_THRESHOLD_SECONDS'' defaultOfflineThresholdSeconds e = (a, e1)"
    by (metis surj_pair)
  obtain b e2 where b: "env_seconds ''MQTT_PING_INTERVAL_SECONDS'' defaultPingIntervalSeconds e1 = (b, e2)"
    by (metis surj_pair)
  obtain c e3 where c: "env_seconds ''MQTT_STATE_REFRESH_INTERVAL_SECONDS'' defaultStateRefreshIntervalSeconds e2 = (c, e3)"
    by (metis surj_pair)
  have m: "cfg' = cfg\<lparr>Mqtt := m\<lparr>OfflineThreshold := a, PingInterval := b, StateRefreshInterval := c\<rparr>\<rparr>"
    "e' = e3" "Email m \<noteq> []" "Password m \<noteq> []" "go_len (Devices cfg) \<noteq> 0"
    using assms a b c by (auto simp: load_mqtt_def Let_def split: if_splits)
  with assms(2) env_seconds_ok [OF c] have c': "e3 = e2"
    "duration_from ''MQTT_STATE_REFRESH_INTERVAL_SECONDS'' defaultStateRefreshIntervalSeconds e2 c" by auto
  with m assms(2) env_seconds_ok [OF b] have b': "e2 = e1"
    "duration_from ''MQTT_PING_INTERVAL_SECONDS'' defaultPingIntervalSeconds e1 b" by auto
  with m assms(2) c'(1) env_seconds_ok [OF a] have a': "e1 = e"
    "duration_from ''MQTT_DEVICE_OFFLINE_THRESHOLD_SECONDS'' defaultOfflineThresholdSeconds e a" by auto
  from m a' b' c' show ?thesis by (simp add: mqtt_durations_def)
qed

section \<open>Devices\<close>

lemma add_plain_lookup:
  "fmlookup (add_plain ws m) sn =
    (case fmlookup m sn of
       Some name \<Rightarrow> Some name
     | None \<Rightarrow> if sn \<noteq> [] \<and> sn \<in> trim_space ` set ws then Some sn else None)"
proof (induction ws arbitrary: m)
  case (Cons w ws)
  have step: "add_plain (w # ws) m =
      add_plain ws (if trim_space w = [] then m
        else if fmlookup m (trim_space w) = None then fmupd (trim_space w) (trim_space w) m else m)"
    by (simp add: add_plain_def Let_def)
  show ?case
    unfolding step using Cons by (auto split: option.splits)
qed (simp add: add_plain_def split: option.split)

lemma add_pretty_sn: "fmlookup (add_pretty parsed ks fmempty) sn = Some name \<Longrightarrow>
  sn \<noteq> [] \<and> (\<exists>key \<in> set ks. fmlookup parsed key = Some name \<and> trim_space key = sn)"
proof (induction ks rule: rev_induct)
  case (snoc key ks)
  then show ?case
    by (auto simp: add_pretty_def Let_def split: option.splits if_splits)
qed (simp add: add_pretty_def)

lemma add_pretty_none: "fmlookup (add_pretty parsed ks fmempty) sn = None \<Longrightarrow>
  sn \<noteq> [] \<Longrightarrow> key \<in> set ks \<Longrightarrow> trim_space key = sn \<Longrightarrow> fmlookup parsed key = None"
proof (induction ks rule: rev_induct)
  case (snoc k ks)
  then show ?case
    by (auto simp: add_pretty_def Let_def split: option.splits if_splits)
qed simp

text \<open>
  What the mapping should be: the pretty names that are set, and how a mapping follows from them and
  from the entries of the list.
\<close>

definition pretty_names :: "gostring \<Rightarrow> (gostring, gostring) fmap option" where
  "pretty_names p = (if p = [] then Some fmempty else unmarshal_string_map p)"

definition mapping_of :: "(gostring, gostring) fmap \<Rightarrow> gostring list \<Rightarrow> (gostring, gostring) fmap \<Rightarrow> bool" where
  "mapping_of pretty entries m \<longleftrightarrow>
     fset (fmdom m) = (trim_space ` fset (fmdom pretty) \<union> trim_space ` set entries) - {[]}
     \<and> (\<forall>sn \<in> fset (fmdom m).
          if sn \<in> trim_space ` fset (fmdom pretty)
          then \<exists>k. trim_space k = sn \<and> fmlookup pretty k = fmlookup m sn
          else fmlookup m sn = Some sn)"

lemma mapping_of_built:
  assumes "range_order pretty ks"
  shows "mapping_of pretty entries (add_plain entries (add_pretty pretty ks fmempty))"
proof -
  let ?p = "add_pretty pretty ks fmempty"
  have ks: "set ks = fset (fmdom pretty)" using assms by (simp add: range_order_set)
  have some: "sn \<noteq> [] \<and> (\<exists>k. fmlookup pretty k = Some name \<and> trim_space k = sn)" if "fmlookup ?p sn = Some name" for sn name
    using add_pretty_sn [OF that] by blast
  have none: "sn = [] \<or> sn \<notin> trim_space ` fset (fmdom pretty)" if "fmlookup ?p sn = None" for sn
    using add_pretty_none [OF that] ks by (force simp: fmlookup_dom_iff)
  show ?thesis
    unfolding mapping_of_def
  proof (intro conjI ballI set_eqI)
    fix sn
    show "sn \<in> fset (fmdom (add_plain entries ?p)) \<longleftrightarrow>
        sn \<in> (trim_space ` fset (fmdom pretty) \<union> trim_space ` set entries) - {[]}"
      using some [of sn] none [of sn]
      by (cases "fmlookup ?p sn") (auto simp: fmlookup_dom_iff add_plain_lookup image_iff)
  next
    fix sn
    assume "sn \<in> fset (fmdom (add_plain entries ?p))"
    then show "if sn \<in> trim_space ` fset (fmdom pretty)
        then \<exists>k. trim_space k = sn \<and> fmlookup pretty k = fmlookup (add_plain entries ?p) sn
        else fmlookup (add_plain entries ?p) sn = Some sn"
      using some [of sn] none [of sn]
      by (cases "fmlookup ?p sn") (auto simp: fmlookup_dom_iff add_plain_lookup image_iff split: if_splits)
  qed
qed

lemma parseDeviceMapping_sns:
  "parseDeviceMapping order p d = Inr m \<Longrightarrow> fmlookup m sn = Some name \<Longrightarrow> sn \<noteq> []"
  by (auto simp: parseDeviceMapping_def Let_def add_plain_lookup dest: add_pretty_sn
      split: if_splits option.splits)

section \<open>A configuration that loads\<close>

text \<open>What the rest of the program may rely on, when the environment \<open>e\<close> has been loaded.\<close>

definition config_valid :: "env \<Rightarrow> Config \<Rightarrow> bool" where
  "config_valid e cfg \<longleftrightarrow>
     prometheus_name (MetricPrefix cfg) \<and> port_ok (Port cfg)
     \<and> (\<forall>sn name. fmlookup (Devices cfg) sn = Some name \<longrightarrow> sn \<noteq> [])
     \<and> (ExporterType cfg = ''rest'' \<and> AccessKey (Rest cfg) \<noteq> [] \<and> SecretKey (Rest cfg) \<noteq> []
          \<and> duration_from ''SCRAPING_INTERVAL'' defaultRestIntervalSeconds e (Interval (Rest cfg))
       \<or> ExporterType cfg = ''mqtt'' \<and> Email (Mqtt cfg) \<noteq> [] \<and> Password (Mqtt cfg) \<noteq> []
          \<and> Devices cfg \<noteq> fmempty \<and> mqtt_durations e (Mqtt cfg))"

lemma load_typed_errs: "load_typed r m cfg e = (cfg', e') \<Longrightarrow> env_errs e' = [] \<Longrightarrow> env_errs e = []"
  using load_rest_ok [of r cfg e cfg' e'] load_mqtt_ok [of m cfg e cfg' e']
  by (auto simp: load_typed_def split: if_splits)

lemma load_typed_ok:
  assumes "load_typed r m cfg e = (cfg', e')" and "env_errs e' = []"
    and "prometheus_name (MetricPrefix cfg)" and "port_ok (Port cfg)"
    and "\<And>sn name. fmlookup (Devices cfg) sn = Some name \<Longrightarrow> sn \<noteq> []"
  shows "e' = e \<and> config_valid e cfg'"
proof (cases "ExporterType cfg = ''rest''")
  case True
  with assms(1) have l: "load_rest r cfg e = (cfg', e')" by (simp add: load_typed_def)
  note ok = load_rest_ok [OF l assms(2)]
  then obtain i where c: "cfg' = cfg\<lparr>Rest := r\<lparr>Interval := i\<rparr>\<rparr>" by blast
  show ?thesis
    using ok assms(3-5) True unfolding c by (auto simp: config_valid_def)
next
  case False
  show ?thesis
  proof (cases "ExporterType cfg = ''mqtt''")
    case True
    with assms(1) have l: "load_mqtt m cfg e = (cfg', e')" by (simp add: load_typed_def)
    note ok = load_mqtt_ok [OF l assms(2)]
    then obtain a b c where c: "cfg' = cfg\<lparr>Mqtt := m\<lparr>OfflineThreshold := a, PingInterval := b, StateRefreshInterval := c\<rparr>\<rparr>"
      by blast
    show ?thesis
      using ok assms(3-5) True unfolding c by (auto simp: config_valid_def)
  next
    case n: False
    with False assms(1,2) show ?thesis by (auto simp: load_typed_def split: if_splits)
  qed
qed

lemma LoadConfig_valid_aux:
  assumes "LoadConfig T order e = Inr cfg"
  shows "config_valid e cfg"
proof -
  let ?prefix = "env_str ''METRIC_PREFIX'' defaultMetricPrefix e"
  obtain port e1 where port: "env_port ''PROMETHEUS_PORT'' defaultPort e = (port, e1)" by (metis surj_pair)
  obtain debug e2 where debug: "env_bool ''PROTOBUF_DEBUG'' e1 = (debug, e2)" by (metis surj_pair)
  define e3 where "e3 = (if prometheus_name ?prefix then e2 else add_err (BadMetricPrefix ?prefix) e2)"
  obtain devices e4 where devices:
    "(case parseDeviceMapping order (env_str ''ECOFLOW_DEVICES_PRETTY_NAMES'' [] e3) (env_str ''ECOFLOW_DEVICES'' [] e3) of
              Inl err \<Rightarrow> (fmempty, add_err err e3)
            | Inr m \<Rightarrow> (m, e3)) = (devices, e4)" by (metis surj_pair)
  obtain secretKey e5 where secretKey: "env_secret ''ECOFLOW_SECRET_KEY'' e4 = (secretKey, e5)" by (metis surj_pair)
  obtain password e6 where password: "env_secret ''ECOFLOW_PASSWORD'' e5 = (password, e6)" by (metis surj_pair)
  define r where "r = zero_rest\<lparr>AccessKey := env_str ''ECOFLOW_ACCESS_KEY'' [] e4, SecretKey := secretKey\<rparr>"
  define m where "m = zero_mqtt\<lparr>Email := env_str ''ECOFLOW_EMAIL'' [] e5, Password := password\<rparr>"
  define xtype where "xtype = (if strings_ToLower T (env_str ''EXPORTER_TYPE'' [] e6) = [] then detectExporterType r m
      else strings_ToLower T (env_str ''EXPORTER_TYPE'' [] e6))"
  define cfg0 where "cfg0 = \<lparr>MetricPrefix = ?prefix, ExporterType = xtype, Devices = devices, Port = port,
                ProtobufDebug = debug, Rest = zero_rest, Mqtt = zero_mqtt\<rparr>"
  obtain cfg' e7 where last: "load_typed r m cfg0 e6 = (cfg', e7)" by (metis surj_pair)
  have "LoadConfig T order e = (if env_errs e7 \<noteq> [] then Inl (env_errs e7) else Inr cfg')"
    using last
    unfolding LoadConfig_def Let_def port debug prod.case e3_def [symmetric] devices secretKey password
      r_def [symmetric] m_def [symmetric] xtype_def [symmetric] cfg0_def [symmetric]
    by simp
  with assms have cfg: "cfg' = cfg" and none: "env_errs e7 = []" by (auto split: if_splits)
  have step3: "e3 = e2 \<and> prometheus_name ?prefix" if "env_errs e3 = []"
    using that by (auto simp: e3_def split: if_splits)
  have step4: "e4 = e3 \<and> (\<forall>sn name. fmlookup devices sn = Some name \<longrightarrow> sn \<noteq> [])" if "env_errs e4 = []"
    using that devices by (auto split: sum.splits dest: parseDeviceMapping_sns)
  have mono: "env_errs e6 = []" using none load_typed_errs [OF last] by simp
  have e6: "e6 = e5" using env_secret_ok [OF password mono] .
  have e5: "e5 = e4" using env_secret_ok [OF secretKey] mono e6 by simp
  have e4: "e4 = e3" "\<And>sn name. fmlookup devices sn = Some name \<Longrightarrow> sn \<noteq> []"
    using step4 mono e6 e5 by auto
  have e3: "e3 = e2" "prometheus_name ?prefix" using step3 mono e6 e5 e4(1) by auto
  have e2: "e2 = e1" using env_bool_ok [OF debug] mono e6 e5 e4(1) e3(1) by simp
  then have "e1 = e \<and> port_ok port" using env_port_ok [OF port] mono e6 e5 e4(1) e3(1) by simp
  moreover from this have "e6 = e" using e6 e5 e4(1) e3(1) e2 by simp
  ultimately show ?thesis
    using load_typed_ok [OF last none] e3(2) e4(2) cfg by (simp add: cfg0_def)
qed

lemma load_typed_port: "load_typed r m cfg e = (cfg', e') \<Longrightarrow> Port cfg' = Port cfg"
  by (auto simp: load_typed_def load_rest_def load_mqtt_def Let_def split: if_splits prod.splits)

text \<open>The port of a loaded configuration is the variable or its default.\<close>

lemma LoadConfig_port:
  assumes "LoadConfig T order e = Inr cfg"
  shows "Port cfg = env_str ''PROMETHEUS_PORT'' defaultPort e"
  using assms
  by (auto simp: LoadConfig_def Let_def env_port_def split: if_splits prod.splits dest!: load_typed_port)

section \<open>What the environment determines\<close>

text \<open>
  Two lookups that agree after trimming, where an empty value counts as a missing one, give the
  same results in every operation.
\<close>

definition same_raw :: "lookup \<Rightarrow> env \<Rightarrow> bool" where
  "same_raw l e \<longleftrightarrow> (\<forall>k. env_raw k (e\<lparr>env_lookup := l\<rparr>) = env_raw k e)"

named_theorems relookup \<open>the operations with another lookup\<close>

lemma same_raw_add [simp]: "same_raw l (add_err x e) = same_raw l e"
  by (simp add: same_raw_def add_err_def env_raw_def)

lemma relookup_add: "add_err x (e\<lparr>env_lookup := l\<rparr>) = (add_err x e)\<lparr>env_lookup := l\<rparr>"
  by (simp add: add_err_def)

lemma relookup_raw: "same_raw l e \<Longrightarrow> env_raw k (e\<lparr>env_lookup := l\<rparr>) = env_raw k e"
  by (simp add: same_raw_def)

lemma relookup_str [relookup]: "same_raw l e \<Longrightarrow> env_str k d (e\<lparr>env_lookup := l\<rparr>) = env_str k d e"
  by (simp add: env_str_def relookup_raw)

lemma relookup_bool [relookup]:
  "same_raw l e \<Longrightarrow> env_bool k e = (b, e') \<Longrightarrow>
   env_bool k (e\<lparr>env_lookup := l\<rparr>) = (b, e'\<lparr>env_lookup := l\<rparr>) \<and> same_raw l e'"
  by (auto simp: env_bool_def relookup_raw relookup_add split: prod.splits if_splits option.splits)

lemma relookup_int:
  "same_raw l e \<Longrightarrow> env_int k d e = (n, e') \<Longrightarrow>
   env_int k d (e\<lparr>env_lookup := l\<rparr>) = (n, e'\<lparr>env_lookup := l\<rparr>) \<and> same_raw l e'"
  by (auto simp: env_int_def relookup_raw relookup_add split: prod.splits if_splits option.splits)

lemma relookup_seconds [relookup]:
  assumes "same_raw l e" and "env_seconds k d e = (n, e')"
  shows "env_seconds k d (e\<lparr>env_lookup := l\<rparr>) = (n, e'\<lparr>env_lookup := l\<rparr>) \<and> same_raw l e'"
proof -
  obtain s e1 where "env_int k d e = (s, e1)" by (metis surj_pair)
  with assms relookup_int [OF assms(1) this] show ?thesis
    by (auto simp: env_seconds_def relookup_add split: if_splits)
qed

lemma relookup_secret [relookup]:
  "same_raw l e \<Longrightarrow> env_secret k e = (v, e') \<Longrightarrow>
   env_secret k (e\<lparr>env_lookup := l\<rparr>) = (v, e'\<lparr>env_lookup := l\<rparr>) \<and> same_raw l e'"
  by (auto simp: env_secret_def relookup_raw relookup_add split: prod.splits if_splits sum.splits)

lemma relookup_port [relookup]:
  "same_raw l e \<Longrightarrow> env_port k d e = (v, e') \<Longrightarrow>
   env_port k d (e\<lparr>env_lookup := l\<rparr>) = (v, e'\<lparr>env_lookup := l\<rparr>) \<and> same_raw l e'"
  by (auto simp: env_port_def relookup_str relookup_add Let_def split: option.splits if_splits)

lemma relookup_rest:
  assumes "same_raw l e" and "load_rest r cfg e = (cfg', e')"
  shows "load_rest r cfg (e\<lparr>env_lookup := l\<rparr>) = (cfg', e'\<lparr>env_lookup := l\<rparr>)"
proof -
  obtain s e1 where "env_seconds ''SCRAPING_INTERVAL'' defaultRestIntervalSeconds e = (s, e1)" by (metis surj_pair)
  with assms relookup_seconds [OF assms(1) this] show ?thesis
    by (auto simp: load_rest_def relookup_add split: if_splits)
qed

lemma relookup_mqtt:
  assumes "same_raw l e" and "load_mqtt m cfg e = (cfg', e')"
  shows "load_mqtt m cfg (e\<lparr>env_lookup := l\<rparr>) = (cfg', e'\<lparr>env_lookup := l\<rparr>)"
proof -
  obtain a e1 where a: "env_seconds ''MQTT_DEVICE_OFFLINE_THRESHOLD_SECONDS'' defaultOfflineThresholdSeconds e = (a, e1)"
    by (metis surj_pair)
  obtain b e2 where b: "env_seconds ''MQTT_PING_INTERVAL_SECONDS'' defaultPingIntervalSeconds e1 = (b, e2)"
    by (metis surj_pair)
  obtain c e3 where c: "env_seconds ''MQTT_STATE_REFRESH_INTERVAL_SECONDS'' defaultStateRefreshIntervalSeconds e2 = (c, e3)"
    by (metis surj_pair)
  from relookup_seconds [OF assms(1) a] have a': "same_raw l e1" by blast
  from relookup_seconds [OF this b] have b': "same_raw l e2" by blast
  show ?thesis
    using assms(2) a b c relookup_seconds [OF assms(1) a] relookup_seconds [OF a' b] relookup_seconds [OF b' c]
    by (auto simp: load_mqtt_def relookup_add Let_def split: if_splits)
qed

lemma relookup_typed [relookup]:
  "same_raw l e \<Longrightarrow> load_typed r m cfg e = (cfg', e') \<Longrightarrow>
   load_typed r m cfg (e\<lparr>env_lookup := l\<rparr>) = (cfg', e'\<lparr>env_lookup := l\<rparr>)"
  by (auto simp: load_typed_def relookup_rest relookup_mqtt relookup_add split: if_splits)

lemma LoadConfig_relookup:
  assumes "same_raw l e"
  shows "LoadConfig T order (e\<lparr>env_lookup := l\<rparr>) = LoadConfig T order e"
proof -
  let ?l = "\<lambda>e. e\<lparr>env_lookup := l\<rparr>"
  let ?prefix = "env_str ''METRIC_PREFIX'' defaultMetricPrefix e"
  obtain port e1 where port: "env_port ''PROMETHEUS_PORT'' defaultPort e = (port, e1)" by (metis surj_pair)
  from relookup_port [OF assms port] have port': "env_port ''PROMETHEUS_PORT'' defaultPort (?l e) = (port, ?l e1)"
    and s1: "same_raw l e1" by blast+
  obtain debug e2 where debug: "env_bool ''PROTOBUF_DEBUG'' e1 = (debug, e2)" by (metis surj_pair)
  from relookup_bool [OF s1 debug] have debug': "env_bool ''PROTOBUF_DEBUG'' (?l e1) = (debug, ?l e2)"
    and s2: "same_raw l e2" by blast+
  define e3 where "e3 = (if prometheus_name ?prefix then e2 else add_err (BadMetricPrefix ?prefix) e2)"
  have e3: "(if prometheus_name ?prefix then ?l e2 else add_err (BadMetricPrefix ?prefix) (?l e2)) = ?l e3"
    by (simp add: e3_def relookup_add)
  have s3: "same_raw l e3" using s2 by (simp add: e3_def)
  let ?map = "parseDeviceMapping order (env_str ''ECOFLOW_DEVICES_PRETTY_NAMES'' [] e3) (env_str ''ECOFLOW_DEVICES'' [] e3)"
  obtain devices e4 where devices:
    "(case ?map of Inl err \<Rightarrow> (fmempty, add_err err e3) | Inr m \<Rightarrow> (m, e3)) = (devices, e4)" by (metis surj_pair)
  then have devices':
    "(case ?map of Inl err \<Rightarrow> (fmempty, add_err err (?l e3)) | Inr m \<Rightarrow> (m, ?l e3)) = (devices, ?l e4)"
    and s4: "same_raw l e4" using s3 by (auto simp: relookup_add split: sum.splits)
  obtain secretKey e5 where secretKey: "env_secret ''ECOFLOW_SECRET_KEY'' e4 = (secretKey, e5)" by (metis surj_pair)
  from relookup_secret [OF s4 secretKey] have secretKey': "env_secret ''ECOFLOW_SECRET_KEY'' (?l e4) = (secretKey, ?l e5)"
    and s5: "same_raw l e5" by blast+
  obtain password e6 where password: "env_secret ''ECOFLOW_PASSWORD'' e5 = (password, e6)" by (metis surj_pair)
  from relookup_secret [OF s5 password] have password': "env_secret ''ECOFLOW_PASSWORD'' (?l e5) = (password, ?l e6)"
    and s6: "same_raw l e6" by blast+
  have typed: "load_typed r m cfg (?l e6) = (case load_typed r m cfg e6 of (c, e') \<Rightarrow> (c, ?l e'))" for r m cfg
    using relookup_typed [OF s6, of r m cfg] by (cases "load_typed r m cfg e6") simp
  note strs = relookup_str [OF assms] relookup_str [OF s3] relookup_str [OF s4] relookup_str [OF s5] relookup_str [OF s6]
  show ?thesis
    unfolding LoadConfig_def Let_def port port' debug debug' strs prod.case e3 e3_def [symmetric] devices devices'
      secretKey secretKey' password password' typed
    by (simp split: prod.split)
qed

section \<open>Properties\<close>

text \<open>C32: Whatever the environment, a configuration that loads is valid: the metric prefix is a
  Prometheus name, the port a number from 1 to 65535, no device has an empty serial number, the
  exporter type is one of the two supported ones and its credentials are set, the MQTT exporter
  has a device, and every duration is that of the number of seconds which its variable states, or
  of the default when the variable is unset or blank, where that number is positive. (A product out
  of range wraps around.)\<close>
theorem loaded_config_valid:
  assumes "LoadConfig T order e = Inr cfg"
  shows "config_valid e cfg"
  using assms by (rule LoadConfig_valid_aux)

text \<open>Variables that are empty or hold only white space are treated as unset, and white space
  around values is ignored: two environments that agree up to that give the same configuration
  or the same errors.\<close>
theorem blank_variables_are_unset:
  assumes "\<And>k. trim_space (case_option [] id (l k)) = trim_space (case_option [] id (env_lookup e k))"
  shows "LoadConfig T order (e\<lparr>env_lookup := l\<rparr>) = LoadConfig T order e"
proof -
  have "env_raw k (e\<lparr>env_lookup := l\<rparr>) = env_raw k e" for k
    using assms [of k] by (cases "l k"; cases "env_lookup e k") (auto simp: env_raw_def Let_def)
  then show ?thesis by (intro LoadConfig_relookup) (simp add: same_raw_def)
qed

theorem blank_variables_are_unset_witness:
  "LoadConfig sample_tables (\<lambda>m. []) (newEnv (\<lambda>k. None) (\<lambda>p. Inl ''no file'') (Some (\<lambda>k. if k = ''PROMETHEUS_PORT'' then Some '' '' else None)))
   = LoadConfig sample_tables (\<lambda>m. []) (newEnv (\<lambda>k. None) (\<lambda>p. Inl ''no file'') None)"
proof -
  have blank: "trim_space '' '' = []"
    by (simp add: trim_space_def trim_left.simps [of "'' ''"] code_def is_space_def)
  show ?thesis
    using blank_variables_are_unset [of "\<lambda>k. if k = ''PROMETHEUS_PORT'' then Some '' '' else None"
        "newEnv (\<lambda>k. None) (\<lambda>p. Inl ''no file'') None" sample_tables "\<lambda>m. []"] blank
    by (simp add: newEnv_def)
qed

text \<open>C33: The device mapping is exactly what the two variables say. When the pretty names are set but
  are not a JSON object of strings, loading fails. Otherwise the devices are the non-empty
  serial numbers, without surrounding white space, of the pretty names and of the list; a device of
  the pretty names is shown by a name they give it, also when the list has it, and a device
  that only the list has is shown by its serial number. (When two keys of the pretty names differ
  only in white space, either name may win: the order of a Go map is not determined, \<open>order\<close>
  being any order of its keys.)\<close>
theorem device_mapping_exact:
  assumes "\<And>pretty. pretty_names p = Some pretty \<Longrightarrow> range_order pretty (order pretty)"
  shows "case pretty_names p of
      None \<Rightarrow> parseDeviceMapping order p d = Inl BadDeviceMapping
    | Some pretty \<Rightarrow> \<exists>m. parseDeviceMapping order p d = Inr m \<and> mapping_of pretty (split_on (CHR '','') d) m"
proof (cases "p = []")
  case True
  then show ?thesis
    using mapping_of_built [of fmempty "[]" "split_on (CHR '','') d"]
    by (simp add: pretty_names_def parseDeviceMapping_def range_order_def add_pretty_def)
next
  case False
  then show ?thesis
    using mapping_of_built [OF assms] by (auto simp: pretty_names_def parseDeviceMapping_def split: option.split)
qed

text \<open>The startup log shows no credentials: what \<open>LogValue\<close> writes does not depend on the
  access key, the secret key, the email address or the password.\<close>
theorem log_hides_credentials:
  "LogValue ks (cfg\<lparr>Rest := (Rest cfg)\<lparr>AccessKey := a, SecretKey := b\<rparr>,
                    Mqtt := (Mqtt cfg)\<lparr>Email := c, Password := d\<rparr>\<rparr>) = LogValue ks cfg"
  by (simp add: LogValue_def Let_def)

text \<open>The log line of a configuration does not depend on the order in which the devices are
  visited: their list is sorted.\<close>
theorem log_order_irrelevant:
  assumes "range_order (Devices cfg) ks" and "range_order (Devices cfg) ks'"
  shows "LogValue ks cfg = LogValue ks' cfg"
proof -
  let ?f = "\<lambda>sn. map_option (\<lambda>name. sn @ ''='' @ name) (fmlookup (Devices cfg) sn)"
  have "mset ks = mset ks'"
    using assms by (metis range_order_def range_order_set set_eq_iff_mset_eq_distinct)
  then have "mset (List.map_filter ?f ks) = mset (List.map_filter ?f ks')"
    by (simp add: List.map_filter_def)
  then have "sort (List.map_filter ?f ks) = sort (List.map_filter ?f ks')"
    by (intro properties_for_sort) simp_all
  then show ?thesis by (simp add: LogValue_def Let_def)
qed

section \<open>Witnesses\<close>

lemma trim_plain:
  assumes "s \<noteq> []" and "32 < code (hd s)" "code (hd s) < 128" "32 < code (last s)" "code (last s) < 128"
  shows "trim_space s = s"
proof -
  obtain c cs where s: "s = c # cs" using assms(1) by (cases s) auto
  have "trim_left s = s"
    using assms by (simp add: s trim_left.simps [of "c # cs"] is_space_def)
  moreover have "trim_right s = s"
    using assms by (simp add: trim_right.simps [of s] decode_last_rune_def is_space_def)
  ultimately show ?thesis by (simp add: trim_space_def)
qed

definition rest_env :: "gostring \<Rightarrow> env" where
  "rest_env interval =
     newEnv (map_of [(''ECOFLOW_ACCESS_KEY'', ''ak''), (''ECOFLOW_SECRET_KEY'', ''sk''),
                     (''SCRAPING_INTERVAL'', interval)]) (\<lambda>p. Inl ''no file'') None"

lemma rest_env_load:
  assumes "trim_space interval = interval" and "interval \<noteq> []" and "atoi interval = Some n" and "0 < n"
  shows "LoadConfig T order (rest_env interval) =
    Inr \<lparr>MetricPrefix = ''ecoflow'', ExporterType = ''rest'', Devices = fmempty, Port = ''2112'',
         ProtobufDebug = False, Rest = \<lparr>AccessKey = ''ak'', SecretKey = ''sk'', Interval = wrap64 (n * second)\<rparr>,
         Mqtt = zero_mqtt\<rparr>"
proof -
  have trim: "trim_space ''ak'' = ''ak''" "trim_space ''sk'' = ''sk''"
    by (simp_all add: trim_plain code_def)
  have port: "atoi ''2112'' = Some 2112"
    by (simp add: atoi_def unsigned_int_def is_digit_def code_def digits_value_def digit_value_def int64_range_def)
  have prefix: "prometheus_name ''ecoflow''"
    by (simp add: prometheus_name_def name_char_def is_metric_name_rune_def code_def is_digit_def)
  have lower: "strings_ToLower T [] = []"
    by (simp add: strings_ToLower_def range_string_def)
  show ?thesis
    using assms
    by (simp add: LoadConfig_def Let_def rest_env_def newEnv_def env_port_def env_str_def env_raw_def
        env_bool_def env_secret_def trim port prefix lower defaultPort_def defaultMetricPrefix_def
        parseDeviceMapping_def add_plain_def detectExporterType_def load_typed_def load_rest_def
        env_seconds_def env_int_def zero_rest_def zero_mqtt_def)
qed

lemma interval_30: "trim_space ''30'' = ''30''" "atoi ''30'' = Some 30"
  by (simp add: trim_plain code_def)
    (simp add: atoi_def unsigned_int_def is_digit_def code_def digits_value_def digit_value_def int64_range_def)

text \<open>An environment for the MQTT exporter, with the devices and the ping interval it states.\<close>

definition mqtt_env :: "gostring \<Rightarrow> gostring \<Rightarrow> env" where
  "mqtt_env devices ping =
     newEnv (map_of [(''ECOFLOW_EMAIL'', ''me''), (''ECOFLOW_PASSWORD'', ''pw''),
                     (''ECOFLOW_DEVICES'', devices), (''MQTT_PING_INTERVAL_SECONDS'', ping)]) (\<lambda>p. Inl ''no file'') None"

lemma mqtt_env_load:
  assumes "trim_space devices = devices" and "devices \<noteq> []" and "CHR '','' \<notin> set devices"
    and "trim_space ping = ping" and "ping \<noteq> []" and "atoi ping = Some n" and "0 < n"
  shows "LoadConfig T order (mqtt_env devices ping) =
    Inr \<lparr>MetricPrefix = ''ecoflow'', ExporterType = ''mqtt'', Devices = fmupd devices devices fmempty,
         Port = ''2112'', ProtobufDebug = False, Rest = zero_rest,
         Mqtt = \<lparr>Email = ''me'', Password = ''pw'', OfflineThreshold = 300 * second,
                 PingInterval = wrap64 (n * second), StateRefreshInterval = 300 * second\<rparr>\<rparr>"
proof -
  have trim: "trim_space ''me'' = ''me''" "trim_space ''pw'' = ''pw''"
    by (simp_all add: trim_plain code_def)
  have port: "atoi ''2112'' = Some 2112"
    by (simp add: atoi_def unsigned_int_def is_digit_def code_def digits_value_def digit_value_def int64_range_def)
  have prefix: "prometheus_name ''ecoflow''"
    by (simp add: prometheus_name_def name_char_def is_metric_name_rune_def code_def is_digit_def)
  have lower: "strings_ToLower T [] = []"
    by (simp add: strings_ToLower_def range_string_def)
  have split: "split_on (CHR '','') devices = [devices]"
    using assms(3) by (rule split_on_no_sep)
  have devs: "parseDeviceMapping order [] devices = Inr (fmupd devices devices fmempty)"
    using assms(1,2) by (simp add: parseDeviceMapping_def split add_plain_def Let_def)
  show ?thesis
    using assms
    by (simp add: LoadConfig_def Let_def mqtt_env_def newEnv_def env_port_def env_str_def env_raw_def
        env_bool_def env_secret_def trim port prefix lower devs defaultPort_def defaultMetricPrefix_def
        detectExporterType_def load_typed_def load_mqtt_def go_len_def
        env_seconds_def env_int_def zero_rest_def zero_mqtt_def defaultOfflineThresholdSeconds_def
        defaultStateRefreshIntervalSeconds_def wrap64_def)
qed

theorem loaded_config_valid_witness:
  "\<exists>cfg. LoadConfig sample_tables (\<lambda>m. []) (mqtt_env ''R1'' ''30'') = Inr cfg
     \<and> config_valid (mqtt_env ''R1'' ''30'') cfg \<and> PingInterval (Mqtt cfg) = 30 * second"
proof -
  have "trim_space ''R1'' = ''R1''" by (simp add: trim_plain code_def)
  then obtain cfg where "LoadConfig sample_tables (\<lambda>m. []) (mqtt_env ''R1'' ''30'') = Inr cfg"
    "PingInterval (Mqtt cfg) = 30 * second"
    using mqtt_env_load [OF _ _ _ interval_30(1) _ interval_30(2), of "''R1''" sample_tables "\<lambda>m. []"]
    by (auto simp: wrap64_def)
  with loaded_config_valid [of sample_tables "\<lambda>m. []" "mqtt_env ''R1'' ''30''" cfg] show ?thesis by blast
qed

text \<open>A huge interval is accepted although its duration overflows: 9223372037 is a positive number of
  seconds, but its number of nanoseconds is out of range.\<close>

lemma overflow_load:
  "\<exists>cfg. LoadConfig T order (rest_env ''9223372037'') = Inr cfg \<and> Interval (Rest cfg) = - 9223372036709551616
     \<and> ExporterType cfg = ''rest''"
proof -
  have t: "trim_space ''9223372037'' = ''9223372037''" by (simp add: trim_plain code_def)
  have a: "atoi ''9223372037'' = Some 9223372037"
    by (simp add: atoi_def unsigned_int_def is_digit_def code_def digits_value_def digit_value_def int64_range_def)
  show ?thesis using rest_env_load [OF t _ a, of T order] by (simp add: wrap64_def)
qed

theorem device_mapping_exact_witness:
  "(\<exists>m. parseDeviceMapping (\<lambda>m. [''R1 '']) ''{\"R1 \":\"garage\"}'' '' R1,R2'' = Inr m
     \<and> fmlookup m ''R1'' = Some ''garage'' \<and> fmlookup m ''R2'' = Some ''R2'' \<and> fmlookup m ''R3'' = None)
   \<and> (\<exists>m. parseDeviceMapping (\<lambda>m. []) [] '' R1,R2'' = Inr m
     \<and> fmlookup m ''R1'' = Some ''R1'' \<and> fmlookup m ''R2'' = Some ''R2'' \<and> fmlookup m ''R3'' = None)"
proof
  have trim: "trim_space ''R1 '' = ''R1''" "trim_space '' R1'' = ''R1''" "trim_space ''R2'' = ''R2''"
    by (simp_all add: trim_space_def trim_left.simps trim_right.simps decode_last_rune_def is_space_def code_def)
  have split: "split_on (CHR '','') '' R1,R2'' = ['' R1'', ''R2'']" by simp
  let ?p = "''{\"R1 \":\"garage\"}''"
  have parsed: "unmarshal_string_map ?p = Some (fmupd ''R1 '' ''garage'' fmempty)"
    by (simp add: unmarshal_string_map_def object_map_def json_eval)
  then have pretty: "pretty_names ?p = Some (fmupd ''R1 '' ''garage'' fmempty)" by (simp add: pretty_names_def)
  have "case pretty_names ?p of
      None \<Rightarrow> parseDeviceMapping (\<lambda>m. [''R1 '']) ?p '' R1,R2'' = Inl BadDeviceMapping
    | Some pretty \<Rightarrow> \<exists>m. parseDeviceMapping (\<lambda>m. [''R1 '']) ?p '' R1,R2'' = Inr m
        \<and> mapping_of pretty (split_on (CHR '','') '' R1,R2'') m"
    by (rule device_mapping_exact) (auto simp: pretty range_order_def)
  then obtain m where m: "parseDeviceMapping (\<lambda>m. [''R1 '']) ?p '' R1,R2'' = Inr m"
    "mapping_of (fmupd ''R1 '' ''garage'' fmempty) ['' R1'', ''R2''] m"
    unfolding pretty split by auto
  have dom: "fset (fmdom m) = {''R1'', ''R2''}" using m(2) trim by (auto simp: mapping_of_def)
  from m(2) have eq: "\<forall>sn \<in> {''R1'', ''R2''}. if sn = ''R1'' then \<exists>k. trim_space k = sn
      \<and> fmlookup (fmupd ''R1 '' ''garage'' fmempty) k = fmlookup m sn else fmlookup m sn = Some sn"
    unfolding mapping_of_def dom using trim by simp
  have "fmlookup m ''R1'' \<noteq> None" using dom by (auto simp flip: fmlookup_dom_iff)
  with m(1) eq dom show "\<exists>m. parseDeviceMapping (\<lambda>m. [''R1 '']) ?p '' R1,R2'' = Inr m
     \<and> fmlookup m ''R1'' = Some ''garage'' \<and> fmlookup m ''R2'' = Some ''R2'' \<and> fmlookup m ''R3'' = None"
    by (intro exI [of _ m]) (auto simp: fmdom_notD split: if_splits)
  have "case pretty_names [] of
      None \<Rightarrow> parseDeviceMapping (\<lambda>m. []) [] '' R1,R2'' = Inl BadDeviceMapping
    | Some pretty \<Rightarrow> \<exists>m. parseDeviceMapping (\<lambda>m. []) [] '' R1,R2'' = Inr m
        \<and> mapping_of pretty (split_on (CHR '','') '' R1,R2'') m"
    by (rule device_mapping_exact) (simp add: pretty_names_def range_order_def)
  then obtain m where m: "parseDeviceMapping (\<lambda>m. []) [] '' R1,R2'' = Inr m"
    "mapping_of fmempty ['' R1'', ''R2''] m"
    unfolding split by (auto simp: pretty_names_def)
  have dom: "fset (fmdom m) = {''R1'', ''R2''}" using m(2) trim by (auto simp: mapping_of_def)
  from m(2) have eq: "\<forall>sn \<in> {''R1'', ''R2''}. fmlookup m sn = Some sn"
    unfolding mapping_of_def dom by (simp add: trim)
  from m(1) eq dom show "\<exists>m. parseDeviceMapping (\<lambda>m. []) [] '' R1,R2'' = Inr m
     \<and> fmlookup m ''R1'' = Some ''R1'' \<and> fmlookup m ''R2'' = Some ''R2'' \<and> fmlookup m ''R3'' = None"
    by (intro exI [of _ m]) (auto simp: fmdom_notD)
qed

theorem log_order_irrelevant_witness:
  "LogValue [''A'', ''B''] (\<lparr>MetricPrefix = ''ecoflow'', ExporterType = ''rest'',
      Devices = fmupd ''A'' ''a'' (fmupd ''B'' ''b'' fmempty), Port = ''2112'', ProtobufDebug = False,
      Rest = zero_rest, Mqtt = zero_mqtt\<rparr>) =
   LogValue [''B'', ''A''] (\<lparr>MetricPrefix = ''ecoflow'', ExporterType = ''rest'',
      Devices = fmupd ''A'' ''a'' (fmupd ''B'' ''b'' fmempty), Port = ''2112'', ProtobufDebug = False,
      Rest = zero_rest, Mqtt = zero_mqtt\<rparr>)"
  by (rule log_order_irrelevant) (auto simp: range_order_def)

end
