(* ===== verification/Telemetry.thy ===== *)
theory Telemetry
  imports Metric
begin

text \<open>
  \<open>telemetry.go\<close>: the metrics about the exporter itself. They are objects of the Prometheus
  client library, so the model records the calls made on them: a telemetry state is the list
  of calls so far, newest last, and what a counter shows is a function of that list
  (\<open>inc_count\<close>). A nil \<open>*Telemetry\<close> is \<open>None\<close>, on which every operation does nothing.

  \<open>WithLabelValues\<close> panics when the number of values is not that of the labels or when a value is not
  valid UTF-8. Such a call is not recorded but sets \<open>tel_panicked\<close>, which nothing resets: the program
  has ended there, and what the model does after that has no counterpart in it.
\<close>

section \<open>Calls\<close>

datatype telemetry_metric =
    MqttConnected
  | LastMessage
  | MqttMessages
  | DecodeErrors
  | MqttPings
  | MqttReconnects
  | MqttRelogins
  | RestRequests
  | BuildInfo

text \<open>\<open>WithLabelValues(labels).Set(v)\<close> and \<open>WithLabelValues(labels).Inc()\<close>\<close>

datatype telemetry_call =
    TSet telemetry_metric "gostring list" float64
  | TInc telemetry_metric "gostring list"

record telemetry =
  tel_prefix :: gostring
  tel_calls :: "telemetry_call list"
  tel_panicked :: bool

type_synonym telemetry_ptr = "telemetry option"

definition metric_suffix :: "telemetry_metric \<Rightarrow> gostring" where
  "metric_suffix m =
    (case m of
       MqttConnected \<Rightarrow> ''mqtt_connected''
     | LastMessage \<Rightarrow> ''last_message_timestamp_seconds''
     | MqttMessages \<Rightarrow> ''mqtt_messages_total''
     | DecodeErrors \<Rightarrow> ''decode_errors_total''
     | MqttPings \<Rightarrow> ''mqtt_pings_total''
     | MqttReconnects \<Rightarrow> ''mqtt_forced_reconnects_total''
     | MqttRelogins \<Rightarrow> ''mqtt_relogins_total''
     | RestRequests \<Rightarrow> ''rest_requests_total''
     | BuildInfo \<Rightarrow> ''build_info'')"

definition metric_labels :: "telemetry_metric \<Rightarrow> gostring list" where
  "metric_labels m =
    (case m of
       LastMessage \<Rightarrow> [''device'', ''serial_number'']
     | MqttMessages \<Rightarrow> [''serial_number'', ''format'']
     | DecodeErrors \<Rightarrow> [''serial_number'', ''format'']
     | MqttPings \<Rightarrow> [''serial_number'', ''type'', ''result'']
     | RestRequests \<Rightarrow> [''endpoint'', ''result'']
     | BuildInfo \<Rightarrow> [''version'']
     | _ \<Rightarrow> [])"

definition telemetry_name :: "gostring \<Rightarrow> telemetry_metric \<Rightarrow> gostring" where
  "telemetry_name prefix m = prefix @ ''_exporter_'' @ metric_suffix m"

text \<open>The metrics that \<open>NewTelemetry\<close> registers, in the order of the code.\<close>

definition registered_metrics :: "telemetry_metric list" where
  "registered_metrics = [MqttConnected, LastMessage, MqttMessages, DecodeErrors, MqttPings,
     MqttReconnects, MqttRelogins, RestRequests, BuildInfo]"

text \<open>What the library accepts as label values.\<close>

fun call_ok :: "telemetry_call \<Rightarrow> bool" where
  "call_ok (TSet m ls v) = (length ls = length (metric_labels m) \<and> list_all valid_utf8 ls)"
| "call_ok (TInc m ls) = (length ls = length (metric_labels m) \<and> list_all valid_utf8 ls)"

definition record_call :: "telemetry_call \<Rightarrow> telemetry_ptr \<Rightarrow> telemetry_ptr" where
  "record_call c t =
     map_option (\<lambda>x. if call_ok c then x\<lparr>tel_calls := tel_calls x @ [c]\<rparr> else x\<lparr>tel_panicked := True\<rparr>) t"

definition telemetry_panicked :: "telemetry_ptr \<Rightarrow> bool" where
  "telemetry_panicked t = (case t of None \<Rightarrow> False | Some x \<Rightarrow> tel_panicked x)"

definition NewTelemetry :: "gostring \<Rightarrow> gostring \<Rightarrow> telemetry_ptr" where
  "NewTelemetry prefix version =
     record_call (TSet BuildInfo [version] (Fin 1)) (Some \<lparr>tel_prefix = prefix, tel_calls = [], tel_panicked = False\<rparr>)"

section \<open>Operations\<close>

text \<open>The \<open>result\<close> label: only whether the error is nil matters.\<close>

definition result :: "'e option \<Rightarrow> gostring" where
  "result err = (case err of Some _ \<Rightarrow> ''error'' | None \<Rightarrow> ''success'')"

definition SetMqttConnected :: "bool \<Rightarrow> telemetry_ptr \<Rightarrow> telemetry_ptr" where
  "SetMqttConnected conn t =
     record_call (TSet MqttConnected [] (if conn then Fin 1 else Fin 0)) t"

text \<open>\<open>time.Now().Unix()\<close> is the whole number of seconds since 1970.\<close>

definition unix_epoch :: time where
  "unix_epoch = 62135596800 * second"

definition unix_seconds :: "time \<Rightarrow> int" where
  "unix_seconds now = (now - unix_epoch) div second"

definition DeviceSeen :: "time \<Rightarrow> ecoflow_device \<Rightarrow> telemetry_ptr \<Rightarrow> telemetry_ptr" where
  "DeviceSeen now device t =
     record_call (TSet LastMessage [dev_Name device, dev_SN device] (f64_of_int (unix_seconds now))) t"

definition MqttMessage :: "gostring \<Rightarrow> gostring \<Rightarrow> telemetry_ptr \<Rightarrow> telemetry_ptr" where
  "MqttMessage sn format t = record_call (TInc MqttMessages [sn, format]) t"

definition DecodeError :: "gostring \<Rightarrow> gostring \<Rightarrow> telemetry_ptr \<Rightarrow> telemetry_ptr" where
  "DecodeError sn format t = record_call (TInc DecodeErrors [sn, format]) t"

definition MqttPing :: "gostring \<Rightarrow> gostring \<Rightarrow> 'e option \<Rightarrow> telemetry_ptr \<Rightarrow> telemetry_ptr" where
  "MqttPing sn kind err t = record_call (TInc MqttPings [sn, kind, result err]) t"

definition MqttForcedReconnect :: "telemetry_ptr \<Rightarrow> telemetry_ptr" where
  "MqttForcedReconnect t = record_call (TInc MqttReconnects []) t"

definition MqttRelogin :: "telemetry_ptr \<Rightarrow> telemetry_ptr" where
  "MqttRelogin t = record_call (TInc MqttRelogins []) t"

definition RestRequest :: "gostring \<Rightarrow> 'e option \<Rightarrow> telemetry_ptr \<Rightarrow> telemetry_ptr" where
  "RestRequest endpoint err t = record_call (TInc RestRequests [endpoint, result err]) t"

section \<open>What the metrics show\<close>

definition calls :: "telemetry_ptr \<Rightarrow> telemetry_call list" where
  "calls t = (case t of None \<Rightarrow> [] | Some x \<Rightarrow> tel_calls x)"

definition inc_count :: "telemetry_metric \<Rightarrow> gostring list \<Rightarrow> telemetry_ptr \<Rightarrow> nat" where
  "inc_count m labels t = count_list (calls t) (TInc m labels)"

text \<open>All increments of a metric, whatever the labels.\<close>

definition inc_total :: "telemetry_metric \<Rightarrow> telemetry_ptr \<Rightarrow> nat" where
  "inc_total m t = length (filter (\<lambda>c. \<exists>ls. c = TInc m ls) (calls t))"

lemma record_call_None [simp]: "record_call c None = None"
  by (simp add: record_call_def)

lemma record_call_eq_None [simp]: "record_call c t = None \<longleftrightarrow> t = None"
  by (simp add: record_call_def)

lemma calls_record [simp]: "t \<noteq> None \<Longrightarrow> call_ok c \<Longrightarrow> calls (record_call c t) = calls t @ [c]"
  by (auto simp: calls_def record_call_def)

lemmas telemetry_defs = SetMqttConnected_def DeviceSeen_def MqttMessage_def DecodeError_def
  MqttPing_def MqttForcedReconnect_def MqttRelogin_def RestRequest_def

text \<open>No call has been refused, and every call fits the labels with which its metric was created.\<close>

definition telemetry_ok :: "telemetry_ptr \<Rightarrow> bool" where
  "telemetry_ok t \<longleftrightarrow> \<not> telemetry_panicked t \<and> list_all call_ok (calls t)"

lemma telemetry_ok_None [simp]: "telemetry_ok None"
  by (simp add: telemetry_ok_def telemetry_panicked_def calls_def)

lemma telemetry_ok_record: "telemetry_ok t \<Longrightarrow> call_ok c \<Longrightarrow> telemetry_ok (record_call c t)"
  by (cases t) (auto simp: telemetry_ok_def telemetry_panicked_def calls_def record_call_def)

text \<open>A refused call is never forgotten.\<close>

lemma telemetry_refused: "t \<noteq> None \<Longrightarrow> \<not> call_ok c \<Longrightarrow> telemetry_panicked (record_call c t)"
  by (auto simp: telemetry_panicked_def record_call_def)

text \<open>The serial numbers and the names of a mapping can be label values.\<close>

definition utf8_mapping :: "(gostring, gostring) fmap \<Rightarrow> bool" where
  "utf8_mapping m \<longleftrightarrow> fmpred (\<lambda>sn name. valid_utf8 sn \<and> valid_utf8 name) m"

lemma utf8_mapping_sn: "utf8_mapping m \<Longrightarrow> fmlookup m sn \<noteq> None \<Longrightarrow> valid_utf8 sn"
  by (auto simp: utf8_mapping_def)

lemma utf8_mapping_name: "utf8_mapping m \<Longrightarrow> valid_utf8 sn \<Longrightarrow> valid_utf8 (getDeviceName m sn)"
  by (auto simp: utf8_mapping_def getDeviceName_def split: option.split)

lemma utf8_mapping_simps [simp]:
  "utf8_mapping fmempty" "utf8_mapping (fmupd sn name fmempty) \<longleftrightarrow> valid_utf8 sn \<and> valid_utf8 name"
  by (auto simp: utf8_mapping_def fmpred_iff)

text \<open>The other labels are constants of the program.\<close>

lemma ascii_labels [simp, intro]: "valid_utf8 (result err)" "valid_utf8 ''state_refresh''" "valid_utf8 ''keepalive''"
  "valid_utf8 ''device_list''" "valid_utf8 ''device_quota''"
  by (simp_all add: result_def code_def split: option.split)

lemma telemetry_ok_ops [simp, intro]:
  assumes "telemetry_ok t"
  shows "telemetry_ok (SetMqttConnected b t)" "telemetry_ok (MqttForcedReconnect t)" "telemetry_ok (MqttRelogin t)"
    "valid_utf8 (dev_SN d) \<Longrightarrow> valid_utf8 (dev_Name d) \<Longrightarrow> telemetry_ok (DeviceSeen now d t)"
    "valid_utf8 sn \<Longrightarrow> valid_utf8 f \<Longrightarrow> telemetry_ok (MqttMessage sn f t)"
    "valid_utf8 sn \<Longrightarrow> valid_utf8 f \<Longrightarrow> telemetry_ok (DecodeError sn f t)"
    "valid_utf8 sn \<Longrightarrow> valid_utf8 k \<Longrightarrow> telemetry_ok (MqttPing sn k err t)"
    "valid_utf8 e \<Longrightarrow> telemetry_ok (RestRequest e err t)"
  using assms by (auto simp: telemetry_defs metric_labels_def intro!: telemetry_ok_record)

lemma telemetry_ok_new: "valid_utf8 version \<Longrightarrow> telemetry_ok (NewTelemetry prefix version)"
  by (simp add: NewTelemetry_def telemetry_ok_def telemetry_panicked_def calls_def record_call_def metric_labels_def)

lemma telemetry_names_distinct: "distinct (map (telemetry_name prefix) registered_metrics)"
  by (simp add: registered_metrics_def telemetry_name_def metric_suffix_def)

end
