(* ===== verification/Proto_Schema.thy ===== *)
theory Proto_Schema
  imports Go_Value
begin

text \<open>
  The protobuf schema of the messages, from the struct declarations in
  \<open>internal/protobuf/ecoflow.pb.go\<close>: for every message type the list of its fields with the
  field number, the JSON name, the kind and whether the field is repeated, as the struct
  tags give them (\<open>json=\<close> where present, the field name otherwise). No field of the schema
  is a map, an enum or a bool, but the kinds of the protobuf library that the code
  distinguishes are all there.
\<close>

section \<open>Field descriptors\<close>

datatype msg_type =
    HeaderMessageT
  | HeaderT
  | PropertyUploadT
  | EnergyStrategyOperateModeT
  | CMSHeartBeatReportT
  | CMSStatus1T
  | CMSStatus2T
  | BMSHeartBeatReportT

datatype kind =
    BoolKind
  | EnumKind
  | FloatKind
  | DoubleKind
  | Int32Kind
  | Sint32Kind
  | Sfixed32Kind
  | Int64Kind
  | Sint64Kind
  | Sfixed64Kind
  | Uint32Kind
  | Fixed32Kind
  | Uint64Kind
  | Fixed64Kind
  | StringKind
  | BytesKind
  | MessageKind msg_type
  | GroupKind msg_type

datatype field_desc =
  Field (fd_number: nat) (fd_json: gostring) (fd_kind: kind) (fd_repeated: bool)

definition fI32 :: "nat \<Rightarrow> gostring \<Rightarrow> field_desc" where "fI32 n j = Field n j Int32Kind False"
definition fU32 :: "nat \<Rightarrow> gostring \<Rightarrow> field_desc" where "fU32 n j = Field n j Uint32Kind False"
definition fF32 :: "nat \<Rightarrow> gostring \<Rightarrow> field_desc" where "fF32 n j = Field n j FloatKind False"
definition fStr :: "nat \<Rightarrow> gostring \<Rightarrow> field_desc" where "fStr n j = Field n j StringKind False"
definition fRaw :: "nat \<Rightarrow> gostring \<Rightarrow> field_desc" where "fRaw n j = Field n j BytesKind False"
definition fRep :: "nat \<Rightarrow> gostring \<Rightarrow> kind \<Rightarrow> field_desc" where "fRep n j k = Field n j k True"

lemmas field_defs = fI32_def fU32_def fF32_def fStr_def fRaw_def fRep_def

section \<open>The messages\<close>

definition HeaderMessage_fields :: "field_desc list" where
  "HeaderMessage_fields =
    [fRep 1 ''header'' (MessageKind HeaderT)]"

definition Header_fields :: "field_desc list" where
  "Header_fields =
    [fRaw 1 ''pdata'', fI32 2 ''src'', fI32 3 ''dest'', fI32 4 ''dSrc'', fI32 5 ''dDest'',
     fI32 6 ''encType'', fI32 7 ''checkType'', fI32 8 ''cmdFunc'', fI32 9 ''cmdId'',
     fI32 10 ''dataLen'', fI32 11 ''needAck'', fI32 12 ''isAck'', fI32 14 ''seq'',
     fI32 15 ''productId'', fI32 16 ''version'', fI32 17 ''payloadVer'', fI32 18 ''timeSnap'',
     fI32 19 ''isRwCmd'', fI32 20 ''isQueue'', fI32 21 ''ackType'', fStr 22 ''code'',
     fStr 23 ''from'', fStr 24 ''moduleSn'', fStr 25 ''deviceSn'']"

definition PropertyUpload_fields_A :: "field_desc list" where
  "PropertyUpload_fields_A =
    [fU32 1 ''errcode'', fF32 3 ''powInSumW'', fF32 4 ''powOutSumW'', fU32 5 ''lcdLight'',
     fU32 6 ''energyBackupState'', fU32 7 ''energyBackupEn'', fU32 8 ''energyBackupStartSoc'',
     fF32 9 ''powGetQcusb1'', fF32 10 ''powGetQcusb2'', fF32 11 ''powGetTypec1'',
     fF32 12 ''powGetTypec2'', fU32 13 ''flowInfoQcusb1'', fU32 14 ''flowInfoQcusb2'',
     fU32 15 ''flowInfoTypec1'', fU32 16 ''flowInfoTypec2'', fU32 17 ''devStandbyTime'',
     fU32 18 ''screenOffTime'', fU32 19 ''acStandbyTime'', fU32 20 ''dcStandbyTime'',
     fU32 21 ''acPhaseType'', fU32 22 ''acAlwaysOnFlag'', fU32 23 ''acAlwaysOnMiniSoc'',
     fU32 24 ''pcsWorkMode'', fU32 25 ''xboostEn'', fF32 26 ''tempPcsDc'',
     fF32 27 ''tempPcsAc'', fF32 28 ''tempPvH'', fF32 29 ''tempPvL'', fU32 30 ''pcsFanLevel'',
     fU32 31 ''flowInfoPvH'', fU32 32 ''flowInfoPvL'', fU32 33 ''flowInfo12v'',
     fU32 34 ''flowInfo24v'', fF32 35 ''powGetPvH'', fF32 36 ''powGetPvL'',
     fF32 37 ''powGet12v'', fF32 38 ''powGet24v'', fU32 39 ''plugInInfoPvHFlag'',
     fU32 40 ''plugInInfoPvHType'', fF32 41 ''plugInInfoPvHVol'', fU32 42 ''plugInInfoPvLFlag'',
     fU32 43 ''plugInInfoPvLType'', fF32 44 ''plugInInfoPvLVol'', fU32 45 ''flowInfoAc2dc'',
     fU32 46 ''flowInfoDc2ac'', fU32 47 ''flowInfoAcIn'', fU32 48 ''flowInfoAcHvOut'',
     fU32 49 ''flowInfoAcLvOut'', fU32 50 ''flowInfo5p8In'', fU32 51 ''flowInfo5p8Out'',
     fF32 52 ''powGetLlc'', fF32 53 ''powGetAc'', fF32 54 ''powGetAcIn'',
     fF32 55 ''powGetAcHvOut'', fF32 56 ''powGetAcLvOut'', fF32 57 ''powGetAcLvTt30Out'',
     fF32 58 ''powGet5p8'', fU32 59 ''plugInInfoAcOutType'', fU32 60 ''plugInInfoAcOutFreq'',
     fU32 61 ''plugInInfoAcInFlag'', fU32 62 ''plugInInfoAcInFeq'',
     fU32 63 ''plugInInfo5p8Flag'', fU32 64 ''plugInInfo5p8Type'',
     fU32 65 ''plugInInfo5p8Detail'', fU32 66 ''plugInInfo5p8Freq'',
     fF32 67 ''plugInInfoAcOutVol'', fF32 68 ''plugInInfoAcInVol'', fF32 70 ''powGetPv2'',
     fF32 71 ''inAmpPv2'', fU32 74 ''dcOutOpen'', fU32 76 ''cfgAcOutOpen'',
     fF32 77 ''powGetDcp2'', fU32 78 ''flowInfoDcp2In'', fU32 79 ''flowInfoDcp2Out'',
     fU32 83 ''plugInInfoDcp2InFlag'', fU32 84 ''plugInInfoDcp2DsgChgType'',
     fU32 85 ''plugInInfoDcp2ChargerFlag'', fU32 86 ''plugInInfoDcp2Type'',
     fU32 87 ''plugInInfoDcp2Detail'', fStr 88 ''plugInInfoDcp2Sn'',
     fU32 89 ''plugInInfoDcp2RunState'', fU32 90 ''plugInInfoDcp2FirmVer'',
     fU32 124 ''plugInInfoAcInChgMode'', fRaw 126 ''currentTimeTaskV2Item'',
     fI32 133 ''utcTimezone'', fStr 134 ''utcTimezoneId'', fU32 135 ''utcSetMode'',
     fU32 140 ''bmsErrCode'', fU32 146 ''banBypassEn'', fU32 147 ''outputPowerOffMemory'',
     fU32 148 ''pvChgType'', fF32 149 ''plugInInfo24vVol'', fF32 150 ''plugInInfo24vAmp'',
     fF32 151 ''plugInInfoL1Vol'', fU32 152 ''flowInfoBmsDsg'', fU32 153 ''flowInfoBmsChg'',
     fU32 154 ''flowInfo4p81In'', fU32 155 ''flowInfo4p81Out'', fU32 156 ''flowInfo4p82In'',
     fU32 157 ''flowInfo4p82Out'', fF32 158 ''powGetBms'', fF32 159 ''powGet4p81'',
     fF32 160 ''powGet4p82'', fU32 161 ''plugInInfo4p81InFlag'',
     fU32 162 ''plugInInfo4p81Type'', fU32 163 ''plugInInfo4p81Detail'',
     fU32 164 ''plugInInfo4p82InFlag'', fU32 165 ''plugInInfo4p82Type'',
     fU32 166 ''plugInInfo4p82Detail'', fF32 167 ''plugInInfo4p81Vol'',
     fF32 168 ''plugInInfo4p82Vol'', fF32 169 ''plugInInfoBmsVol'']"

definition PropertyUpload_fields_B :: "field_desc list" where
  "PropertyUpload_fields_B =
    [fU32 170 ''plugInInfoPvLChargerFlag'', fU32 171 ''plugInInfoPvHChargerFlag'',
     fU32 172 ''pdMpptCommErr'', fU32 173 ''pdLlcCommErr'', fU32 174 ''pdBmsCommErr'',
     fU32 175 ''pdIotCommErr'', fU32 176 ''pdFirmVer'', fU32 177 ''iotFirmVer'',
     fU32 178 ''mpptFirmVer'', fU32 179 ''llcFirmVer'', fU32 180 ''plugInInfoPvLDcAmpMax'',
     fU32 181 ''plugInInfoPvHDcAmpMax'', fU32 182 ''fastChargeSwitch'',
     fU32 183 ''plugInInfo4p81DsgChgType'', fRaw 184 ''plugInInfo4p81Resv'',
     fStr 185 ''plugInInfo4p81Sn'', fU32 186 ''plugInInfo4p81FirmVer'',
     fU32 187 ''plugInInfo4p82DsgChgType'', fRaw 188 ''plugInInfo4p82Resv'',
     fStr 189 ''plugInInfo4p82Sn'', fU32 190 ''plugInInfo4p82FirmVer'',
     fU32 191 ''plugInInfo5p8DsgChg'', fRaw 192 ''plugInInfo5p8Resv'',
     fStr 193 ''plugInInfo5p8Sn'', fU32 194 ''plugInInfo5p8FirmVer'', fU32 195 ''enBeep'',
     fF32 196 ''plugInInfoL1Amp'', fF32 197 ''plugInInfoL2Vol'', fF32 198 ''plugInInfoL2Amp'',
     fF32 199 ''plugInInfoAcpL1Vol'', fU32 200 ''llcGfciFlag'',
     fF32 201 ''plugInInfoAcpL1l2Vol'', fU32 202 ''plugInInfoAcChargerFlag'',
     fU32 203 ''plugInInfo5p8ChargerFlag'', fU32 204 ''plugInInfo5p8RunState'',
     fU32 205 ''plugInInfo4p81ChargerFlag'', fU32 206 ''plugInInfo4p81RunState'',
     fU32 207 ''plugInInfo4p82ChargerFlag'', fU32 208 ''plugInInfo4p82RunState'',
     fU32 209 ''plugInInfoAcInChgPowMax'', fU32 210 ''plugInInfo5p8ChgPowMax'',
     fU32 211 ''acOutFreq'', fU32 212 ''devSleepState'', fU32 213 ''pdErrCode'',
     fU32 214 ''llcErrCode'', fU32 215 ''mpptErrCode'', fU32 216 ''plugInInfo5p8ErrCode'',
     fU32 217 ''plugInInfo4p81ErrCode'', fU32 218 ''plugInInfo4p82ErrCode'',
     fU32 220 ''mpptMonitorFlag'', fF32 221 ''plugInInfoPvHAmp'', fF32 222 ''plugInInfoPvLAmp'',
     fF32 223 ''plugInInfoAcInAmp'', fF32 224 ''plugInInfoAcOutAmp'',
     fU32 226 ''pcsFanErrFlag'', fU32 227 ''llcHvLvFlag'', fU32 231 ''llcInvFirmVer'',
     fU32 232 ''llcInvErrCode'', fU32 233 ''plugInInfoPvHChgVolMax'',
     fU32 234 ''plugInInfoPvLChgVolMax'', fU32 235 ''plugInInfoPvLChgAmpMax'',
     fU32 236 ''plugInInfoPvHChgAmpMax'', fU32 237 ''plugInInfo5p8DsgPowMax'',
     fU32 238 ''plugInInfoAcOutDsgPowMax'', fF32 239 ''plugInInfo4p81Amp'',
     fF32 240 ''plugInInfo4p82Amp'', fU32 241 ''bmsFirmVer'', fF32 242 ''bmsBattSoc'',
     fF32 243 ''bmsBattSoh'', fF32 244 ''bmsBattVol'', fF32 245 ''bmsBattAmp'',
     fU32 246 ''bmsBalState'', fU32 247 ''bmsFullCap'', fU32 248 ''bmsDesignCap'',
     fU32 249 ''bmsRemainCap'', fU32 250 ''bmsAlmState'', fU32 251 ''bmsProState'',
     fU32 252 ''bmsFltState'', fU32 253 ''bmsRuntimeErrCode'', fU32 254 ''bmsDsgRemTime'',
     fU32 255 ''bmsChgRemTime'', fU32 256 ''bmsMinCellVol'', fU32 257 ''bmsMaxCellVol'',
     fI32 258 ''bmsMinCellTemp'', fI32 259 ''bmsMaxCellTemp'', fI32 260 ''bmsMinMosTemp'',
     fI32 261 ''bmsMaxMosTemp'', fF32 262 ''cmsBattSoc'', fF32 263 ''cmsBattSoh'',
     fF32 264 ''cmsBattVol'', fF32 265 ''cmsBattAmp'', fF32 266 ''cmsChgReqVol'',
     fF32 267 ''cmsChgReqAmp'', fU32 268 ''cmsDsgRemTime'', fU32 269 ''cmsChgRemTime'',
     fU32 270 ''cmsMaxChgSoc'', fU32 271 ''cmsMinDsgSoc'', fU32 272 ''cmsOilOnSoc'',
     fU32 273 ''cmsOilOffSoc'', fU32 274 ''cmsOilSelfStart'', fU32 275 ''cmsBmsRunState'',
     fU32 276 ''bmsOverloadIcon'', fU32 277 ''bmsWarnIcon'', fU32 278 ''bmsHighTempIcon'',
     fU32 279 ''bmsLowTempIcon'', fU32 280 ''bmsLimitIcon'', fU32 281 ''bmsChgDsgState'',
     fU32 282 ''cmsChgDsgState'', fU32 283 ''acHvAlwaysOn'', fU32 284 ''acLvAlwaysOn'',
     fU32 285 ''timeTaskConflictFlag'', fU32 286 ''timeTaskChangeCnt'']"

definition PropertyUpload_fields_C :: "field_desc list" where
  "PropertyUpload_fields_C =
    [fU32 290 ''bleStandbyTime'', fU32 291 ''bmsAlmState2'', fU32 292 ''bmsProState2'',
     fI32 293 ''displayPropertyFullUploadPeriod'',
     fI32 294 ''displayPropertyIncrementalUploadPeriod'',
     fI32 295 ''runtimePropertyFullUploadPeriod'',
     fI32 296 ''runtimePropertyIncrementalUploadPeriod'', fF32 318 ''mpptRecvCmsChgReqVol'',
     fF32 337 ''mpptRecvCmsChgReqAmp'', fF32 338 ''pvVinRef'', fF32 339 ''pv2VinRef'',
     fF32 340 ''pv2BusVol'', fF32 341 ''mpptBatVol'', fF32 342 ''mpptBatAmp'',
     fU32 343 ''pvPauseCnt'', fU32 344 ''pv2PauseCnt'', fU32 345 ''mpptFanspeed'',
     fI32 346 ''adsNtcTemp'', fU32 347 ''mpptHardwareVer'', fU32 348 ''invMonitorFlag'',
     fU32 349 ''invMainFsmstate'', fU32 350 ''l1MainFsmstate'', fU32 351 ''l2MainFsmstate'',
     fF32 352 ''plugInInfoPfcOutVol'', fF32 353 ''powGetL1'', fF32 354 ''powGetL2'',
     fU32 355 ''upsAlram'', fU32 356 ''plugInInfoPvDcAmpMax'', fU32 357 ''ledMode'',
     fU32 358 ''lowPowerAlarm'', fU32 359 ''silenceChgWatt'', fU32 360 ''flowInfoPv'',
     fF32 361 ''powGetPv'', fU32 362 ''plugInInfoPvFlag'', fU32 363 ''plugInInfoPvType'',
     fU32 364 ''plugInInfoPvChargerFlag'', fU32 365 ''plugInInfoPvChgAmpMax'',
     fU32 366 ''plugInInfoPvChgVolMax'', fU32 367 ''flowInfoAcOut'', fF32 368 ''powGetAcOut'',
     fF32 369 ''invBusVol'', fI32 370 ''invNtcTemp2'', fI32 371 ''invNtcTemp3'',
     fU32 372 ''llcMonitorFlag'', fI32 373 ''llcNtcTemp'', fU32 374 ''llcFsmstate'',
     fU32 375 ''pdToInvDsgMode'', fF32 376 ''dcdcChgReqCur'', fF32 377 ''llcRecvCmsChgReqVol'',
     fF32 378 ''invToLlcAcPowLim'', fF32 379 ''tempPv'', fF32 380 ''plugInInfoPvVol'',
     fF32 381 ''plugInInfoPvAmp'', fF32 382 ''plugInInfo12vVol'', fF32 383 ''plugInInfo12vAmp'',
     fF32 384 ''llcBatVol'', fF32 385 ''llcBatCur'', fF32 386 ''llcBusVol'',
     fF32 387 ''pdSktOcp1'', fF32 388 ''pdSktOcp2'', fF32 389 ''pdSktOcp3'',
     fF32 390 ''pdSktOcp4'', fF32 391 ''pdSktOcp5'',
     Field 393 ''energyStrategyOperateMode'' (MessageKind EnergyStrategyOperateModeT) False,
     fU32 395 ''selfPoweredConflictFlag'', fU32 396 ''touModeConflictFlag'',
     fU32 423 ''flowInfoDcpIn'', fU32 424 ''flowInfoDcpOut'', fF32 425 ''powGetDcp'',
     fU32 426 ''plugInInfoDcpInFlag'', fU32 427 ''plugInInfoDcpType'',
     fU32 428 ''plugInInfoDcpDetail'', fU32 431 ''plugInInfoDcpDsgChgType'',
     fStr 433 ''plugInInfoDcpSn'', fU32 434 ''plugInInfoDcpFirmVer'',
     fU32 435 ''plugInInfoDcpChargerFlag'', fU32 436 ''plugInInfoDcpRunState'',
     fU32 438 ''plugInInfoDcpErrCode'', fU32 439 ''plugInInfoDcp2ErrCode'',
     fF32 442 ''inVolPv2'', fF32 443 ''plugInInfoDcpVol'', fF32 448 ''plugInInfoDcpAmp'',
     fU32 451 ''generatorPvHybridModeOpen'', fU32 452 ''generatorPvHybridModeSocMax'',
     fU32 453 ''generatorCareModeOpen'', fU32 454 ''generatorCareModeStartTime'',
     fU32 455 ''acEnergySavingOpen'', fU32 456 ''multiBpChgDsgMode'',
     fU32 457 ''plugInInfo5p8ChgHalPowMax'', fU32 458 ''plugInInfoAcInChgHalPowMax'',
     fU32 461 ''backupReverseSoc'', fF32 515 ''powGetSysGrid'', fF32 516 ''powGetSysLoad'',
     fF32 517 ''powGetPvSum'', fF32 518 ''powGetBpCms'', fF32 616 ''gridConnectionPower'',
     fRaw 785 ''cloudMetter'', fF32 992 ''sysGridConnectionPower'', fF32 996 ''powGetPv3'',
     fF32 997 ''powGetPv4'', fF32 998 ''inVolPv3'', fF32 999 ''inAmpPv3'',
     fF32 1000 ''inVolPv4'', fF32 1001 ''inAmpPv4'', fF32 1003 ''powGetSysLoadFromBp'',
     fF32 1004 ''powGetSysLoadFromGrid'', fF32 1210 ''powGetSchuko1'']"

definition PropertyUpload_fields :: "field_desc list" where
  "PropertyUpload_fields =
     PropertyUpload_fields_A @ PropertyUpload_fields_B @ PropertyUpload_fields_C"

definition EnergyStrategyOperateMode_fields :: "field_desc list" where
  "EnergyStrategyOperateMode_fields =
    [fI32 1 ''operateSelfPoweredOpen'', fI32 2 ''operateScheduledOpen'',
     fI32 3 ''operateTouModeOpen'']"

definition CMSHeartBeatReport_fields :: "field_desc list" where
  "CMSHeartBeatReport_fields =
    [Field 1 ''msg3221'' (MessageKind CMSStatus1T) False,
     Field 2 ''msg3222'' (MessageKind CMSStatus2T) False]"

definition CMSStatus1_fields :: "field_desc list" where
  "CMSStatus1_fields =
    [fI32 1 ''cmsStatusMisc1'', fI32 2 ''cmsStatusMisc2'', fI32 3 ''cmsStatusMisc3'',
     fI32 4 ''cmsBattVolMv'', fU32 5 ''cmsChgReqAmpMa'', fI32 6 ''cmsStatusMisc4'',
     fU32 7 ''cmsMaxChgSoc'', fU32 8 ''cmsMinDsgSoc'', fU32 9 ''cmsBattSocInt'',
     fI32 10 ''cmsStatusMisc5'', fI32 11 ''cmsStatusMisc6'', fU32 12 ''cmsChgRemTime'',
     fU32 13 ''cmsDsgRemTime'', fI32 14 ''cmsChgDsgState'', fF32 15 ''cmsBattSoc'',
     fRep 16 ''bmsIsConnState'' Int32Kind, fI32 17 ''cmsStatusMisc7'',
     fI32 18 ''cmsStatusMisc8'', fI32 19 ''cmsStatusMisc9'', fI32 20 ''cmsStatusMisc10'',
     fI32 21 ''cmsStatusMisc11'', fI32 22 ''cmsStatusMisc12'', fU32 23 ''cmsOilOffSoc'']"

definition CMSStatus2_fields :: "field_desc list" where
  "CMSStatus2_fields =
    [fI32 1 ''cmsStatusMisc13'', fI32 2 ''cmsStatusMisc14'', fI32 3 ''cmsStatusMisc15'',
     fI32 4 ''cmsStatusMisc16'', fI32 5 ''cmsStatusMisc17'']"

definition BMSHeartBeatReport_fields :: "field_desc list" where
  "BMSHeartBeatReport_fields =
    [fU32 1 ''num'', fU32 2 ''type'', fU32 3 ''cellId'', fU32 4 ''errCode'', fU32 5 ''sysVer'',
     fU32 6 ''soc'', fU32 7 ''vol'', fI32 8 ''amp'', fI32 9 ''temp'', fU32 10 ''openBmsFlag'',
     fU32 11 ''designCap'', fU32 12 ''remainCap'', fU32 13 ''fullCap'', fU32 14 ''cycles'',
     fU32 15 ''soh'', fU32 16 ''maxCellVol'', fU32 17 ''minCellVol'', fI32 18 ''maxCellTemp'',
     fI32 19 ''minCellTemp'', fI32 20 ''maxMosTemp'', fI32 21 ''minMosTemp'',
     fU32 22 ''bmsFault'', fU32 23 ''bqSysStatReg'', fU32 24 ''tagChgAmp'',
     fF32 25 ''f32ShowSoc'', fU32 26 ''inputWatts'', fU32 27 ''outputWatts'',
     fU32 28 ''remainTime'', fU32 29 ''mosState'', fU32 30 ''balanceState'',
     fU32 31 ''maxVolDiff'', fU32 32 ''cellSeriesNum'', fRep 33 ''cellVol'' Uint32Kind,
     fU32 34 ''cellNtcNum'', fRep 35 ''cellTemp'' Int32Kind, fStr 36 ''hwVer'',
     fU32 37 ''bmsHeartbeatVer'', fU32 38 ''ecloudOcv'', fStr 39 ''bmsSn'',
     fU32 40 ''productType'', fU32 41 ''productDetail'', fF32 42 ''actSoc'',
     fF32 43 ''diffSoc'', fF32 44 ''targetSoc'', fU32 45 ''sysLoaderVer'', fU32 46 ''sysState'',
     fU32 47 ''chgDsgState'', fU32 48 ''allErrCode'', fU32 49 ''allBmsFault'',
     fU32 50 ''accuChgCap'', fU32 51 ''accuDsgCap'', fF32 52 ''realSoh'',
     fF32 53 ''calendarSoh'', fF32 54 ''cycleSoh'', fU32 55 ''mosNtcNum'',
     fRep 56 ''mosTemp'' Int32Kind, fU32 57 ''envNtcNum'', fRep 58 ''envTemp'' Int32Kind,
     fU32 59 ''heatfilmNtcNum'', fRep 60 ''heatfilmTemp'' Int32Kind,
     fU32 61 ''curSensorNtcNum'', fRep 62 ''curSensorTemp'' Int32Kind, fI32 63 ''maxEnvTemp'',
     fI32 64 ''minEnvTemp'', fI32 65 ''maxHeatfilmTemp'', fI32 66 ''minHeatfilmTemp'',
     fI32 67 ''maxCurSensorTemp'', fI32 68 ''minCurSensorTemp'', fU32 69 ''balanceCmd'',
     fRep 70 ''remainBalanceTime'' Uint32Kind, fU32 71 ''afeSysStatus'',
     fU32 72 ''mcuPinInStatus'', fU32 73 ''mcuPinOutStatus'', fU32 74 ''bmsAlarmState1'',
     fU32 75 ''bmsAlarmState2'', fU32 76 ''bmsProtectState1'', fU32 77 ''bmsProtectState2'',
     fU32 78 ''bmsFaultState'', fU32 79 ''accuChgEnergy'', fU32 80 ''accuDsgEnergy'',
     fStr 81 ''packSn'', fU32 82 ''waterInFlag'']"

fun schema :: "msg_type \<Rightarrow> field_desc list" where
  "schema HeaderMessageT = HeaderMessage_fields"
| "schema HeaderT = Header_fields"
| "schema PropertyUploadT = PropertyUpload_fields"
| "schema EnergyStrategyOperateModeT = EnergyStrategyOperateMode_fields"
| "schema CMSHeartBeatReportT = CMSHeartBeatReport_fields"
| "schema CMSStatus1T = CMSStatus1_fields"
| "schema CMSStatus2T = CMSStatus2_fields"
| "schema BMSHeartBeatReportT = BMSHeartBeatReport_fields"

lemmas schema_defs = HeaderMessage_fields_def Header_fields_def PropertyUpload_fields_def
  PropertyUpload_fields_A_def PropertyUpload_fields_B_def PropertyUpload_fields_C_def
  EnergyStrategyOperateMode_fields_def CMSHeartBeatReport_fields_def CMSStatus1_fields_def
  CMSStatus2_fields_def BMSHeartBeatReport_fields_def

section \<open>Names are unique\<close>

text \<open>
  Rewriting rules that compare two literal strings from the left and stop at the first
  difference.
\<close>

lemma Cons_eq_if: "(x # xs = y # ys) = (if x = y then xs = ys else False)"
  by simp

lemma char_eq_if:
  "(Char a b c d e f g h = Char a' b' c' d' e' f' g' h') =
    (if a = a' then if b = b' then if c = c' then if d = d' then if e = e' then if f = f'
     then if g = g' then h = h' else False else False else False else False else False
     else False else False)"
  by simp

lemmas compare_names = schema_defs field_defs Cons_eq_if char_eq_if distinct.simps list.map
  field_desc.sel list.set insert_iff empty_iff list.distinct simp_thms if_True if_False
  append.simps de_Morgan_disj list.pred_inject

lemma names_A: "distinct (map fd_json PropertyUpload_fields_A)"
  by (simp only: compare_names)

lemma names_B: "distinct (map fd_json PropertyUpload_fields_B)"
  by (simp only: compare_names)

lemma names_C: "distinct (map fd_json PropertyUpload_fields_C)"
  by (simp only: compare_names)

lemma names_AB:
  "list_all (\<lambda>n. n \<notin> set (map fd_json PropertyUpload_fields_B)) (map fd_json PropertyUpload_fields_A)"
  by (simp only: compare_names)

lemma names_AC:
  "list_all (\<lambda>n. n \<notin> set (map fd_json PropertyUpload_fields_C)) (map fd_json PropertyUpload_fields_A)"
  by (simp only: compare_names)

lemma names_BC:
  "list_all (\<lambda>n. n \<notin> set (map fd_json PropertyUpload_fields_C)) (map fd_json PropertyUpload_fields_B)"
  by (simp only: compare_names)

lemma names_BMS: "distinct (map fd_json BMSHeartBeatReport_fields)"
  by (simp only: compare_names)

lemma names_CMS: "distinct (map fd_json (CMSStatus1_fields @ CMSStatus2_fields))"
  by (simp only: compare_names)

lemma names_small:
  "distinct (map fd_json HeaderMessage_fields)" "distinct (map fd_json Header_fields)"
  "distinct (map fd_json EnergyStrategyOperateMode_fields)"
  "distinct (map fd_json CMSHeartBeatReport_fields)"
  by (simp_all only: compare_names)

lemma names_PropertyUpload: "distinct (map fd_json PropertyUpload_fields)"
  using names_A names_B names_C names_AB names_AC names_BC
  by (auto simp: PropertyUpload_fields_def list_all_iff)

lemma schema_names_distinct: "distinct (map fd_json (schema t))"
  using names_PropertyUpload names_BMS names_CMS names_small by (cases t) auto

text \<open>No JSON name contains the separator of flattened names.\<close>

definition no_dot :: "gostring \<Rightarrow> bool" where
  "no_dot s \<longleftrightarrow> list_all (\<lambda>c. c \<noteq> CHR ''.'') s"

lemma names_no_dot_aux:
  "list_all (\<lambda>f. no_dot (fd_json f)) PropertyUpload_fields_A"
  "list_all (\<lambda>f. no_dot (fd_json f)) PropertyUpload_fields_B"
  "list_all (\<lambda>f. no_dot (fd_json f)) PropertyUpload_fields_C"
  "list_all (\<lambda>f. no_dot (fd_json f)) BMSHeartBeatReport_fields"
  "list_all (\<lambda>f. no_dot (fd_json f)) CMSStatus1_fields"
  "list_all (\<lambda>f. no_dot (fd_json f)) CMSStatus2_fields"
  "list_all (\<lambda>f. no_dot (fd_json f)) CMSHeartBeatReport_fields"
  "list_all (\<lambda>f. no_dot (fd_json f)) EnergyStrategyOperateMode_fields"
  "list_all (\<lambda>f. no_dot (fd_json f)) Header_fields"
  "list_all (\<lambda>f. no_dot (fd_json f)) HeaderMessage_fields"
  by (simp_all only: compare_names no_dot_def)

lemma schema_names_no_dot: "f \<in> set (schema t) \<Longrightarrow> no_dot (fd_json f)"
  using names_no_dot_aux by (cases t) (auto simp: PropertyUpload_fields_def list_all_iff)

end
