(* ===== verification/Proto_Messages.thy ===== *)
theory Proto_Messages
  imports Proto_Schema "HOL-Library.Multiset"
begin

text \<open>
  \<open>internal/protobuf/messages.go\<close>: which message a command carries and how a decoded message
  becomes a flat map of parameters.

  A message is what the protobuf library gives the code through reflection: the populated
  fields in the order in which \<open>Range\<close> visits them (the library leaves it open) and the bytes
  of the unknown fields. The library's operations are parameters: \<open>unmarshal t data\<close> is
  \<open>proto.Unmarshal\<close> into an empty message of type \<open>t\<close>, and \<open>consume raw\<close> is
  \<open>protowire.ConsumeField\<close>: \<open>None\<close> for a negative length, else the field number and the
  number of bytes after the first one, as a field that is consumed has at least one byte.
\<close>

section \<open>Messages\<close>

datatype pval =
    PBool bool
  | PFloat float64
  | PInt int
  | PUint int
  | PEnum int
  | PString gostring
  | PBytes "byte list"
  | PMsg pmsg
  | PList "pval list"
and pmsg = Msg (msg_fields: "pfield list") (msg_unknown: "byte list")
and pfield = PField (pf_desc: field_desc) (pf_val: pval)

section \<open>Commands\<close>

definition bmsHeartbeatCommands :: "(int32 \<times> int32) list" where
  "bmsHeartbeatCommands =
     [(3, 1), (3, 2), (3, 30), (3, 50),
      (32, 1), (32, 3), (32, 50), (32, 51), (32, 52),
      (254, 24), (254, 25), (254, 26), (254, 27), (254, 28), (254, 29), (254, 30)]"

definition newMessageFor :: "int32 \<Rightarrow> int32 \<Rightarrow> msg_type option" where
  "newMessageFor cmdFunc cmdId =
    (if cmdFunc = 254 \<and> (cmdId = 21 \<or> cmdId = 22) then Some PropertyUploadT
     else if cmdFunc = 32 \<and> cmdId = 2 then Some CMSHeartBeatReportT
     else if (cmdFunc, cmdId) \<in> set bmsHeartbeatCommands then Some BMSHeartBeatReportT
     else None)"

section \<open>Flattening\<close>

text \<open>
  The value stored for a scalar field: numbers and bools as \<open>float64\<close>, strings as they are,
  nothing for bytes. The protobuf library keeps values and kinds in agreement; a value of
  another kind stores nothing here.
\<close>

text \<open>The cases of the switch of \<open>flattenMessage\<close> that store a value.\<close>

definition float_kinds :: "kind list" where
  "float_kinds = [FloatKind, DoubleKind]"

definition int_kinds :: "kind list" where
  "int_kinds = [Int32Kind, Sint32Kind, Sfixed32Kind, Int64Kind, Sint64Kind, Sfixed64Kind]"

definition uint_kinds :: "kind list" where
  "uint_kinds = [Uint32Kind, Fixed32Kind, Uint64Kind, Fixed64Kind]"

definition scalar_value :: "kind \<Rightarrow> pval \<Rightarrow> goval option" where
  "scalar_value k v =
    (case v of
       PBool b \<Rightarrow> if k = BoolKind then Some (VFloat64 (if b then Fin 1 else Fin 0)) else None
     | PFloat x \<Rightarrow> if k \<in> set float_kinds then Some (VFloat64 x) else None
     | PInt n \<Rightarrow> if k \<in> set int_kinds then Some (VFloat64 (f64_of_int n)) else None
     | PUint n \<Rightarrow> if k \<in> set uint_kinds then Some (VFloat64 (f64_of_int n)) else None
     | PEnum n \<Rightarrow> if k = EnumKind then Some (VFloat64 (f64_of_int n)) else None
     | PString s \<Rightarrow> if k = StringKind then Some (VString s) else None
     | _ \<Rightarrow> None)"

fun kind_msg :: "kind \<Rightarrow> msg_type option" where
  "kind_msg (MessageKind t) = Some t"
| "kind_msg (GroupKind t) = Some t"
| "kind_msg _ = None"

fun flattenMessage :: "pmsg \<Rightarrow> gostring \<Rightarrow> bool \<Rightarrow> params \<Rightarrow> params"
and flattenField :: "pfield \<Rightarrow> gostring \<Rightarrow> bool \<Rightarrow> params \<Rightarrow> params"
where
  "flattenMessage (Msg fs unknown) prefix inlineNested out =
     fold (\<lambda>f out. flattenField f prefix inlineNested out) fs out"
| "flattenField (PField fd v) prefix inlineNested out =
    (if fd_repeated fd then out
     else
       (let key = prefix @ fd_json fd in
        if kind_msg (fd_kind fd) \<noteq> None then
          (let nestedPrefix = (if inlineNested then prefix else key @ ''.'') in
           case v of PMsg m \<Rightarrow> flattenMessage m nestedPrefix False out | _ \<Rightarrow> out)
        else
          (case scalar_value (fd_kind fd) v of None \<Rightarrow> out | Some x \<Rightarrow> fmupd key x out)))"

section \<open>Unknown fields\<close>

function unknown_numbers :: "(byte list \<Rightarrow> (nat \<times> nat) option) \<Rightarrow> byte list \<Rightarrow> nat list" where
  "unknown_numbers consume raw =
    (if raw = [] then []
     else (case consume raw of
             None \<Rightarrow> []
           | Some (num, n) \<Rightarrow> num # unknown_numbers consume (drop (Suc n) raw)))"
  by pat_completeness auto
termination
  by (relation "measure (\<lambda>(c, raw). length raw)") auto

declare unknown_numbers.simps [simp del]

fun collectUnknownFields :: "(byte list \<Rightarrow> (nat \<times> nat) option) \<Rightarrow> pmsg \<Rightarrow> nat list"
and collectUnknownField :: "(byte list \<Rightarrow> (nat \<times> nat) option) \<Rightarrow> pfield \<Rightarrow> nat list"
where
  "collectUnknownFields consume (Msg fs unknown) =
     unknown_numbers consume unknown @ concat (map (collectUnknownField consume) fs)"
| "collectUnknownField consume (PField fd v) =
    (case fd_kind fd of
       MessageKind _ \<Rightarrow>
         (if fd_repeated fd then []
          else (case v of PMsg m \<Rightarrow> collectUnknownFields consume m | _ \<Rightarrow> []))
     | _ \<Rightarrow> [])"

section \<open>Decoding pdata\<close>

text \<open>\<open>(*BMSHeartBeatReport).GetNum\<close>: the field \<open>num\<close>, number 1, or 0 when it is not set.\<close>

definition GetNum :: "pmsg \<Rightarrow> int" where
  "GetNum m =
    (case find (\<lambda>f. fd_number (pf_desc f) = 1) (msg_fields m) of
       Some (PField fd (PUint n)) \<Rightarrow> n
     | _ \<Rightarrow> 0)"

text \<open>The results of \<open>decodeProtobufPdata\<close>: not supported, an error, or params and unknown fields.\<close>

datatype pdata_result = Unsupported | PdataError | Decoded params "nat list"

definition flatten_prefix :: "msg_type \<Rightarrow> pmsg \<Rightarrow> gostring" where
  "flatten_prefix t m =
    (if t = BMSHeartBeatReportT then ''bms.'' @ format_int (GetNum m) @ ''.'' else [])"

definition decodeProtobufPdata ::
  "(msg_type \<Rightarrow> byte list \<Rightarrow> pmsg option) \<Rightarrow> (byte list \<Rightarrow> (nat \<times> nat) option)
     \<Rightarrow> int32 \<Rightarrow> int32 \<Rightarrow> byte list \<Rightarrow> pdata_result"
where
  "decodeProtobufPdata unmarshal consume cmdFunc cmdId pdata =
    (case newMessageFor cmdFunc cmdId of
       None \<Rightarrow> Unsupported
     | Some t \<Rightarrow>
         (case unmarshal t pdata of
            None \<Rightarrow> PdataError
          | Some m \<Rightarrow>
              (let params =
                 (if t = BMSHeartBeatReportT
                  then flattenMessage m (''bms.'' @ format_int (GetNum m) @ ''.'') False fmempty
                  else if t = CMSHeartBeatReportT then flattenMessage m [] True fmempty
                  else flattenMessage m [] False fmempty)
               in Decoded params (collectUnknownFields consume m))))"

section \<open>The entries of a message\<close>

text \<open>
  What flattening should produce, as a list of keys and values that mentions neither the map
  nor the order: one entry for every scalar field that is set, also in nested messages.
\<close>

fun msg_entries :: "pmsg \<Rightarrow> gostring \<Rightarrow> bool \<Rightarrow> (gostring \<times> goval) list"
and field_entries :: "pfield \<Rightarrow> gostring \<Rightarrow> bool \<Rightarrow> (gostring \<times> goval) list"
where
  "msg_entries (Msg fs unknown) prefix inl = concat (map (\<lambda>f. field_entries f prefix inl) fs)"
| "field_entries (PField fd v) prefix inl =
    (if fd_repeated fd then []
     else if kind_msg (fd_kind fd) \<noteq> None then
       (case v of
          PMsg m \<Rightarrow> msg_entries m (if inl then prefix else prefix @ fd_json fd @ ''.'') False
        | _ \<Rightarrow> [])
     else (case scalar_value (fd_kind fd) v of
             None \<Rightarrow> []
           | Some x \<Rightarrow> [(prefix @ fd_json fd, x)]))"

definition store_entries :: "(gostring \<times> goval) list \<Rightarrow> params \<Rightarrow> params" where
  "store_entries es out = fold (\<lambda>(k, x). fmupd k x) es out"

lemma store_entries_Nil [simp]: "store_entries [] out = out"
  by (simp add: store_entries_def)

lemma store_entries_append: "store_entries (es @ es') out = store_entries es' (store_entries es out)"
  by (simp add: store_entries_def)

lemma flatten_store:
  "flattenMessage m prefix inl out = store_entries (msg_entries m prefix inl) out"
  "flattenField f prefix inl out = store_entries (field_entries f prefix inl) out"
proof (induction m prefix inl out and f prefix inl out rule: flattenMessage_flattenField.induct)
  case (1 fs unknown prefix inl out)
  have "fold (\<lambda>f out. flattenField f prefix inl out) fs' acc =
      store_entries (concat (map (\<lambda>f. field_entries f prefix inl) fs')) acc"
    if "set fs' \<subseteq> set fs" for fs' acc
    using that 1
    by (induction fs' arbitrary: acc) (auto simp: store_entries_append)
  then show ?case by simp
next
  case (2 fd v prefix inl out)
  then show ?case
    by (auto simp: Let_def store_entries_def split: pval.splits option.splits)
qed

lemma store_entries_Cons: "store_entries ((k, x) # es) out = store_entries es (fmupd k x out)"
  by (simp add: store_entries_def)

lemma store_entries_lookup:
  "distinct (map fst es) \<Longrightarrow>
   fmlookup (store_entries es out) k = (case map_of es k of None \<Rightarrow> fmlookup out k | Some x \<Rightarrow> Some x)"
proof (induction es arbitrary: out)
  case (Cons e es)
  obtain a x where e: "e = (a, x)" by (cases e)
  with Cons.prems have "map_of es a = None" by (simp add: map_of_eq_None_iff)
  with Cons e show ?case by (auto simp: store_entries_Cons split: option.split)
qed simp

lemma store_entries_mem:
  "distinct (map fst es) \<Longrightarrow> fmlookup (store_entries es fmempty) k = Some x \<longleftrightarrow> (k, x) \<in> set es"
  by (simp add: store_entries_lookup split: option.split) (metis map_of_eq_Some_iff option.distinct(1) option.inject)

section \<open>Well-formed messages\<close>

text \<open>
  What the protobuf library guarantees of a decoded message: each populated field is a field
  of the message's type, set once, with a value of its kind.
\<close>

fun wf_msg :: "msg_type \<Rightarrow> pmsg \<Rightarrow> bool"
and wf_field :: "msg_type \<Rightarrow> pfield \<Rightarrow> bool"
where
  "wf_msg t (Msg fs unknown) \<longleftrightarrow>
     distinct (map (\<lambda>f. fd_json (pf_desc f)) fs) \<and> list_all (wf_field t) fs"
| "wf_field t (PField fd v) \<longleftrightarrow>
     fd \<in> set (schema t) \<and>
     (if fd_repeated fd then (case v of PList vs \<Rightarrow> True | _ \<Rightarrow> False)
      else (case kind_msg (fd_kind fd) of
              Some t' \<Rightarrow> (case v of PMsg m \<Rightarrow> wf_msg t' m | _ \<Rightarrow> False)
            | None \<Rightarrow>
                if fd_kind fd = BytesKind then (case v of PBytes b \<Rightarrow> True | _ \<Rightarrow> False)
                else scalar_value (fd_kind fd) v \<noteq> None))"

text \<open>The keys of a field start with its name, which ends at a dot or at the end of the key.\<close>

definition key_of :: "gostring \<Rightarrow> gostring \<Rightarrow> gostring \<Rightarrow> bool" where
  "key_of prefix name k \<longleftrightarrow> k = prefix @ name \<or> (\<exists>r. k = prefix @ name @ ''.'' @ r)"

lemma key_of_unique:
  assumes "key_of prefix a k" and "key_of prefix b k" and "no_dot a" and "no_dot b"
  shows "a = b"
proof -
  have *: "takeWhile (\<lambda>c. c \<noteq> CHR ''.'') (x @ r) = x"
    if "no_dot x" "r = [] \<or> hd r = CHR ''.''" for x r
    using that by (subst takeWhile_append2) (auto simp: no_dot_def list_all_iff takeWhile_eq_Nil_iff)
  have **: "takeWhile (\<lambda>c. c \<noteq> CHR ''.'') (drop (length prefix) k) = x"
    if "key_of prefix x k" "no_dot x" for x
    using that * [of x "[]"] * [of x "''.'' @ r" for r] by (fastforce simp: key_of_def)
  from ** [OF assms(1,3)] ** [OF assms(2,4)] show ?thesis by simp
qed

text \<open>The entries of a field, by the kind of the field.\<close>

lemma field_entries_scalar:
  "kind_msg (fd_kind fd) = None \<Longrightarrow>
   (k, x) \<in> set (field_entries (PField fd v) prefix inl) \<Longrightarrow> k = prefix @ fd_json fd"
  by (simp split: if_splits option.splits)

lemma field_entries_nested:
  assumes "kind_msg (fd_kind fd) \<noteq> None" and "(k, x) \<in> set (field_entries (PField fd v) prefix inl)"
  obtains m where "v = PMsg m" "\<not> fd_repeated fd"
    "(k, x) \<in> set (msg_entries m (if inl then prefix else prefix @ fd_json fd @ ''.'') False)"
proof (cases v)
  case (PMsg m)
  with assms that show ?thesis by (cases "fd_repeated fd") simp_all
qed (use assms in \<open>simp_all split: if_splits\<close>)

lemma msg_entries_prefix:
  "(k, x) \<in> set (msg_entries m prefix inl) \<Longrightarrow> \<exists>r. k = prefix @ r"
  "(k, x) \<in> set (field_entries f prefix inl) \<Longrightarrow> \<exists>r. k = prefix @ r"
proof (induction m prefix inl and f prefix inl rule: msg_entries_field_entries.induct)
  case (1 fs unknown prefix inl)
  then show ?case by auto
next
  case (2 fd v prefix inl)
  show ?case
  proof (cases "kind_msg (fd_kind fd) = None")
    case True
    with "2.prems" show ?thesis using field_entries_scalar by blast
  next
    case False
    then obtain m where m: "v = PMsg m" "\<not> fd_repeated fd"
      and mem: "(k, x) \<in> set (msg_entries m (if inl then prefix else prefix @ fd_json fd @ ''.'') False)"
      using "2.prems" by (rule field_entries_nested)
    from "2.IH" [OF m(2) False m(1) mem] show ?thesis by (auto split: if_splits)
  qed
qed

lemma field_entries_key:
  assumes "(k, x) \<in> set (field_entries (PField fd v) prefix False)"
  shows "key_of prefix (fd_json fd) k"
proof (cases "kind_msg (fd_kind fd) = None")
  case True
  with assms show ?thesis unfolding key_of_def using field_entries_scalar by blast
next
  case False
  then obtain m where "(k, x) \<in> set (msg_entries m (prefix @ fd_json fd @ ''.'') False)"
    using assms by (rule field_entries_nested) simp
  from msg_entries_prefix(1) [OF this] show ?thesis by (auto simp: key_of_def)
qed

lemma distinct_entries_concat:
  assumes "distinct (map (\<lambda>f. fd_json (pf_desc f)) fs)"
    and "\<And>f. f \<in> set fs \<Longrightarrow> distinct (map fst (field_entries f prefix False)) \<and> no_dot (fd_json (pf_desc f))"
  shows "distinct (map fst (concat (map (\<lambda>f. field_entries f prefix False) fs)))"
  using assms
proof (induction fs)
  case (Cons f fs)
  have "fst ` set (field_entries f prefix False) \<inter>
      fst ` set (concat (map (\<lambda>f. field_entries f prefix False) fs)) = {}"
  proof (rule ccontr)
    assume "\<not> ?thesis"
    then obtain k x y g where "(k, x) \<in> set (field_entries f prefix False)" "g \<in> set fs"
        "(k, y) \<in> set (field_entries g prefix False)"
      by fastforce
    then have "key_of prefix (fd_json (pf_desc f)) k" "key_of prefix (fd_json (pf_desc g)) k"
      by (metis field_entries_key pfield.collapse)+
    with Cons.prems \<open>g \<in> set fs\<close> have "fd_json (pf_desc f) = fd_json (pf_desc g)"
      by (meson key_of_unique list.set_intros)
    with Cons.prems(1) \<open>g \<in> set fs\<close> show False by auto
  qed
  with Cons show ?case by auto
qed simp

text \<open>A well-formed message never stores two values under one key.\<close>

lemma wf_field_no_dot:
  assumes "wf_field t f"
  shows "no_dot (fd_json (pf_desc f))"
proof (cases f)
  case (PField fd v)
  with assms have "fd \<in> set (schema t)" by (simp only: wf_field.simps)
  with PField show ?thesis by (simp add: schema_names_no_dot)
qed

lemma wf_msg_entries_distinct:
  "wf_msg t m \<Longrightarrow> \<not> inl \<Longrightarrow> distinct (map fst (msg_entries m prefix inl))"
  "wf_field t f \<Longrightarrow> \<not> inl \<Longrightarrow> distinct (map fst (field_entries f prefix inl))"
proof (induction m prefix inl and f prefix inl arbitrary: t and t
    rule: msg_entries_field_entries.induct)
  case (1 fs unknown prefix inl)
  have "distinct (map fst (field_entries f prefix False)) \<and> no_dot (fd_json (pf_desc f))"
    if "f \<in> set fs" for f
    using that 1 wf_field_no_dot by (auto simp: list_all_iff)
  with 1 distinct_entries_concat [of fs prefix] show ?case
    by simp
next
  case (2 fd v prefix inl)
  show ?case
  proof (cases "kind_msg (fd_kind fd)")
    case None
    then show ?thesis by (simp split: option.split)
  next
    case (Some t')
    show ?thesis
    proof (cases v)
      case (PMsg m)
      with 2 Some show ?thesis by (cases "fd_repeated fd") auto
    qed (use Some in simp_all)
  qed
qed

lemma wf_msg_entries_key:
  assumes "wf_msg t m" and "(k, x) \<in> set (msg_entries m prefix False)"
  obtains fd where "fd \<in> set (schema t)" "key_of prefix (fd_json fd) k"
proof -
  obtain fs u where m: "m = Msg fs u" by (cases m)
  with assms(2) obtain f where f: "f \<in> set fs" "(k, x) \<in> set (field_entries f prefix False)"
    by auto
  obtain fd v where fd: "f = PField fd v" by (cases f)
  have "wf_field t f" using assms(1) m f by (simp add: list_all_iff)
  then have "fd \<in> set (schema t)" by (simp add: fd)
  with field_entries_key [of k x fd v prefix] f fd that show ?thesis by blast
qed

section \<open>The inlined report\<close>

text \<open>
  \<open>CMSHeartBeatReport\<close> is flattened without the names of its two parts; the names of the two
  parts are different, so nothing is lost.
\<close>

lemma CMS_field:
  assumes "wf_field CMSHeartBeatReportT f"
  obtains t' m where "f = PField (pf_desc f) (PMsg m)" "wf_msg t' m"
    "field_entries f prefix True = msg_entries m prefix False"
    "fd_json (pf_desc f) = ''msg3221'' \<and> t' = CMSStatus1T
      \<or> fd_json (pf_desc f) = ''msg3222'' \<and> t' = CMSStatus2T"
proof -
  obtain fd v where f: "f = PField fd v" by (cases f)
  with assms show ?thesis
    by (cases v) (auto simp: CMSHeartBeatReport_fields_def intro: that)
qed

lemma CMS_names_disjoint:
  "fd \<in> set (schema CMSStatus1T) \<Longrightarrow> fd' \<in> set (schema CMSStatus2T) \<Longrightarrow> fd_json fd \<noteq> fd_json fd'"
  using names_CMS by force

lemma CMS_parts_disjoint:
  assumes "wf_msg CMSStatus1T m" "wf_msg CMSStatus2T m'"
    "(k, x) \<in> set (msg_entries m prefix False)" "(k, x') \<in> set (msg_entries m' prefix False)"
  shows False
proof -
  obtain fd where fd: "fd \<in> set (schema CMSStatus1T)" "key_of prefix (fd_json fd) k"
    using assms(1,3) by (rule wf_msg_entries_key)
  obtain fd' where fd': "fd' \<in> set (schema CMSStatus2T)" "key_of prefix (fd_json fd') k"
    using assms(2,4) by (rule wf_msg_entries_key)
  from key_of_unique [OF fd(2) fd'(2)] fd fd' CMS_names_disjoint schema_names_no_dot
  show False by blast
qed

lemma distinct_concat_disjoint:
  assumes "distinct fs" and "\<And>f. f \<in> set fs \<Longrightarrow> distinct (map fst (g f))"
    and "\<And>f f' k x x'. f \<in> set fs \<Longrightarrow> f' \<in> set fs \<Longrightarrow> (k, x) \<in> set (g f) \<Longrightarrow> (k, x') \<in> set (g f') \<Longrightarrow> f = f'"
  shows "distinct (map fst (concat (map g fs)))"
  using assms
proof (induction fs)
  case (Cons f fs)
  have "fst ` set (g f) \<inter> fst ` set (concat (map g fs)) = {}"
    using Cons.prems(1,3) by fastforce
  moreover have "distinct (map fst (concat (map g fs)))"
    using Cons.prems by (intro Cons.IH) auto
  ultimately show ?case using Cons.prems(2) [of f] by simp
qed simp

lemma CMS_field_unique:
  assumes "distinct (map (\<lambda>f. fd_json (pf_desc f)) fs)" "f \<in> set fs" "f' \<in> set fs"
    "wf_field CMSHeartBeatReportT f" "wf_field CMSHeartBeatReportT f'"
    "(k, x) \<in> set (field_entries f prefix True)" "(k, x') \<in> set (field_entries f' prefix True)"
  shows "f = f'"
proof (rule ccontr)
  assume "f \<noteq> f'"
  with assms(1-3) have names: "fd_json (pf_desc f) \<noteq> fd_json (pf_desc f')"
    by (auto simp: distinct_map dest: inj_onD)
  obtain t m where m: "wf_msg t m" "field_entries f prefix True = msg_entries m prefix False"
    "fd_json (pf_desc f) = ''msg3221'' \<and> t = CMSStatus1T
      \<or> fd_json (pf_desc f) = ''msg3222'' \<and> t = CMSStatus2T"
    using assms(4) by (rule CMS_field)
  obtain t' m' where m': "wf_msg t' m'" "field_entries f' prefix True = msg_entries m' prefix False"
    "fd_json (pf_desc f') = ''msg3221'' \<and> t' = CMSStatus1T
      \<or> fd_json (pf_desc f') = ''msg3222'' \<and> t' = CMSStatus2T"
    using assms(5) by (rule CMS_field)
  show False
    using m m' names assms(6,7) CMS_parts_disjoint [of m m' k x prefix x']
      CMS_parts_disjoint [of m' m k x' prefix x] by auto
qed

lemma CMS_entries_distinct:
  assumes "wf_msg CMSHeartBeatReportT (Msg fs u)"
  shows "distinct (map fst (msg_entries (Msg fs u) prefix True))"
proof -
  have wf: "wf_field CMSHeartBeatReportT f" if "f \<in> set fs" for f
    using assms that by (simp add: list_all_iff)
  have names: "distinct (map (\<lambda>f. fd_json (pf_desc f)) fs)" using assms by simp
  have "distinct (map fst (concat (map (\<lambda>f. field_entries f prefix True) fs)))"
  proof (rule distinct_concat_disjoint)
    show "distinct fs" using names by (simp add: distinct_map)
  next
    fix f assume "f \<in> set fs"
    then obtain t m where "wf_msg t m" "field_entries f prefix True = msg_entries m prefix False"
      using wf by (metis CMS_field)
    then show "distinct (map fst (field_entries f prefix True))"
      by (simp add: wf_msg_entries_distinct(1))
  next
    fix f f' k x x'
    assume "f \<in> set fs" "f' \<in> set fs"
      "(k, x) \<in> set (field_entries f prefix True)" "(k, x') \<in> set (field_entries f' prefix True)"
    then show "f = f'" using CMS_field_unique names wf by blast
  qed
  then show ?thesis by simp
qed

text \<open>The entries that decoding a message of a type produces.\<close>

definition report_entries :: "msg_type \<Rightarrow> pmsg \<Rightarrow> (gostring \<times> goval) list" where
  "report_entries t m = msg_entries m (flatten_prefix t m) (t = CMSHeartBeatReportT)"

lemma report_entries_distinct: "wf_msg t m \<Longrightarrow> distinct (map fst (report_entries t m))"
  unfolding report_entries_def
  by (cases m) (metis CMS_entries_distinct wf_msg_entries_distinct(1))

lemma decodeProtobufPdata_report:
  "newMessageFor f i = Some t \<Longrightarrow> unmarshal t pdata = Some m \<Longrightarrow>
   decodeProtobufPdata unmarshal consume f i pdata =
     Decoded (store_entries (report_entries t m) fmempty) (collectUnknownFields consume m)"
  by (simp add: decodeProtobufPdata_def flatten_store report_entries_def flatten_prefix_def Let_def)

section \<open>Order of visiting\<close>

text \<open>
  Two messages that differ only in the order in which \<open>Range\<close> visits their fields, at any depth.
\<close>

inductive reorder :: "pmsg \<Rightarrow> pmsg \<Rightarrow> bool" where
  reorder_perm: "mset fs = mset fs' \<Longrightarrow> reorder (Msg fs u) (Msg fs' u)"
| reorder_nested: "reorder m m' \<Longrightarrow>
    reorder (Msg (fs @ PField fd (PMsg m) # gs) u) (Msg (fs @ PField fd (PMsg m') # gs) u)"
| reorder_trans: "reorder m m' \<Longrightarrow> reorder m' m'' \<Longrightarrow> reorder m m''"

lemma scalar_value_msg [simp]: "scalar_value k (PMsg m) = None"
  by (simp add: scalar_value_def)

lemma field_entries_cong:
  "(\<And>p b. set (msg_entries m p b) = set (msg_entries m' p b)) \<Longrightarrow>
   set (field_entries (PField fd (PMsg m)) prefix inl) = set (field_entries (PField fd (PMsg m')) prefix inl)"
  by simp

lemma reorder_entries:
  "reorder m m' \<Longrightarrow> set (msg_entries m prefix inl) = set (msg_entries m' prefix inl)"
proof (induction arbitrary: prefix inl rule: reorder.induct)
  case (reorder_perm fs fs' u)
  then show ?case by (auto dest: mset_eq_setD)
next
  case (reorder_nested m m' fs fd gs u)
  from field_entries_cong [OF this(2)] show ?case by (simp del: field_entries.simps)
qed simp

lemma wf_field_nested_cong:
  "(\<And>t. wf_msg t m \<longleftrightarrow> wf_msg t m') \<Longrightarrow>
   wf_field t (PField fd (PMsg m)) \<longleftrightarrow> wf_field t (PField fd (PMsg m'))"
  by (simp add: scalar_value_def split: option.split)

lemma reorder_wf: "reorder m m' \<Longrightarrow> wf_msg t m \<longleftrightarrow> wf_msg t m'"
proof (induction arbitrary: t rule: reorder.induct)
  case (reorder_perm fs fs' u)
  then have "mset (map (\<lambda>f. fd_json (pf_desc f)) fs) = mset (map (\<lambda>f. fd_json (pf_desc f)) fs')"
    by simp
  then have "distinct (map (\<lambda>f. fd_json (pf_desc f)) fs) = distinct (map (\<lambda>f. fd_json (pf_desc f)) fs')"
    by (rule mset_eq_imp_distinct_iff)
  moreover have "list_all (wf_field t) fs = list_all (wf_field t) fs'"
    by (simp add: list_all_iff mset_eq_setD [OF reorder_perm])
  ultimately show ?case by (simp only: wf_msg.simps)
next
  case (reorder_nested m m' fs fd gs u)
  from wf_field_nested_cong [OF this(2)] show ?case
    by (simp only: wf_msg.simps list_all_append list.pred_inject map_append list.map pfield.sel)
qed simp

lemma store_entries_cong:
  assumes "distinct (map fst es)" "distinct (map fst es')" "set es = set es'"
  shows "store_entries es fmempty = store_entries es' fmempty"
proof (rule fmap_ext)
  fix k
  show "fmlookup (store_entries es fmempty) k = fmlookup (store_entries es' fmempty) k"
    using store_entries_mem [OF assms(1)] store_entries_mem [OF assms(2)] assms(3)
    by (metis not_None_eq)
qed

section \<open>Keys of battery packs\<close>

lemma bms_prefix_inj:
  assumes "''bms.'' @ format_int n @ ''.'' @ r = ''bms.'' @ format_int n' @ ''.'' @ r'"
  shows "n = n'"
proof -
  have digits: "CHR ''.'' \<notin> set (format_int k)" for k
    using format_nat_digits [of "nat k"] format_nat_digits [of "nat (- k)"]
    by (auto simp: format_int_def list_all_iff is_digit_def code_def)
  have "takeWhile (\<lambda>c. c \<noteq> CHR ''.'') (format_int k @ ''.'' @ s) = format_int k" for k s
    using digits [of k] by (subst takeWhile_append2) auto
  with assms have "format_int n = format_int n'"
    by (metis same_append_eq)
  then show ?thesis by (rule format_int_inj)
qed

section \<open>Unknown fields\<close>

lemma unknown_numbers_all:
  assumes "\<And>n b rest. (n, b) \<in> set fs \<Longrightarrow> b \<noteq> [] \<and> consume (b @ rest) = Some (n, length b - 1)"
  shows "unknown_numbers consume (concat (map snd fs)) = map fst fs"
  using assms
proof (induction fs)
  case Nil
  then show ?case by (simp add: unknown_numbers.simps)
next
  case (Cons f fs)
  obtain n b where f: "f = (n, b)" by (cases f)
  with Cons.prems have b: "b \<noteq> []" "consume (b @ concat (map snd fs)) = Some (n, length b - 1)"
    by auto
  moreover have "unknown_numbers consume (concat (map snd fs)) = map fst fs"
    using Cons.prems by (intro Cons.IH) auto
  ultimately show ?case
    by (simp add: f unknown_numbers.simps [of consume "b @ concat (map snd fs)"])
qed

section \<open>Properties\<close>

text \<open>C8: Decoding a pdata whose command is known and whose bytes unmarshal gives exactly the
  set scalar fields of the message under their dotted names: each of them is a parameter, none
  is lost to a collision of names, and nothing else is there. This holds for every message type,
  also for the report whose part names are left out.\<close>
theorem decoded_params_exact:
  assumes "newMessageFor f i = Some t" and "unmarshal t pdata = Some m" and "wf_msg t m"
  shows "\<exists>params. decodeProtobufPdata unmarshal consume f i pdata = Decoded params (collectUnknownFields consume m)
    \<and> (\<forall>k x. fmlookup params k = Some x \<longleftrightarrow> (k, x) \<in> set (report_entries t m))"
  using decodeProtobufPdata_report [of f i t unmarshal pdata m consume, OF assms(1,2)] store_entries_mem [OF report_entries_distinct [OF assms(3)]]
  by blast

definition sample_bms :: pmsg where
  "sample_bms =
     Msg [PField (fU32 1 ''num'') (PUint 2), PField (fU32 6 ''soc'') (PUint 87),
          PField (fF32 25 ''f32ShowSoc'') (PFloat (Fin (175 / 2))),
          PField (fStr 81 ''packSn'') (PString ''P1'')] []"

theorem decoded_params_exact_witness:
  "\<exists>params. decodeProtobufPdata (\<lambda>t b. Some sample_bms) (\<lambda>r. None) 32 50 [] = Decoded params []
    \<and> fmlookup params ''bms.2.soc'' = Some (VFloat64 (Fin 87))"
proof -
  have wf: "wf_msg BMSHeartBeatReportT sample_bms"
    by (simp add: sample_bms_def BMSHeartBeatReport_fields_def field_defs scalar_value_def
        uint_kinds_def float_kinds_def)
  have cmd: "newMessageFor 32 50 = Some BMSHeartBeatReportT"
    by (simp add: newMessageFor_def bmsHeartbeatCommands_def)
  have unk: "collectUnknownFields (\<lambda>r. None) sample_bms = []"
    by (simp add: sample_bms_def unknown_numbers.simps field_defs)
  have fmt: "format_nat 2 = ''2''" by code_simp
  have mem: "(''bms.2.soc'', VFloat64 (Fin 87)) \<in> set (report_entries BMSHeartBeatReportT sample_bms)"
    by (simp add: sample_bms_def report_entries_def flatten_prefix_def GetNum_def field_defs
        scalar_value_def uint_kinds_def float_kinds_def format_int_def fmt f64_of_int_exact)
  from decoded_params_exact [of 32 50 BMSHeartBeatReportT "\<lambda>t b. Some sample_bms" "[]" sample_bms "\<lambda>r. None"]
  show ?thesis using wf cmd unk mem by auto
qed

text \<open>The order in which the protobuf library visits the fields of a message, which it
  leaves open, does not matter: two messages that differ only in it flatten to the same
  parameters.\<close>
theorem flatten_order_irrelevant:
  assumes "wf_msg t m" and "reorder m m'"
  shows "flattenMessage m prefix False fmempty = flattenMessage m' prefix False fmempty"
proof -
  have "wf_msg t m'" using assms reorder_wf by blast
  then show ?thesis
    using assms wf_msg_entries_distinct(1)
    unfolding flatten_store(1) by (intro store_entries_cong reorder_entries) blast+
qed

theorem flatten_order_irrelevant_witness:
  "flattenMessage (Msg [PField (fU32 6 ''soc'') (PUint 87), PField (fU32 1 ''num'') (PUint 2)] []) ''x.'' False fmempty
   = flattenMessage (Msg [PField (fU32 1 ''num'') (PUint 2), PField (fU32 6 ''soc'') (PUint 87)] []) ''x.'' False fmempty"
  by (rule flatten_order_irrelevant [of BMSHeartBeatReportT])
    (simp_all add: BMSHeartBeatReport_fields_def field_defs scalar_value_def uint_kinds_def reorder_perm)

text \<open>C38: The battery packs of a device are kept apart: the parameters decoded from two
  heartbeat reports with different pack numbers have no name in common.\<close>
theorem battery_packs_kept_apart:
  assumes "decodeProtobufPdata unmarshal consume f i pdata = Decoded params u"
    and "decodeProtobufPdata unmarshal consume f' i' pdata' = Decoded params' u'"
    and "newMessageFor f i = Some BMSHeartBeatReportT" and "newMessageFor f' i' = Some BMSHeartBeatReportT"
    and "unmarshal BMSHeartBeatReportT pdata = Some m" and "unmarshal BMSHeartBeatReportT pdata' = Some m'"
    and "wf_msg BMSHeartBeatReportT m" and "wf_msg BMSHeartBeatReportT m'"
    and "GetNum m \<noteq> GetNum m'"
  shows "fmlookup params k = None \<or> fmlookup params' k = None"
proof (rule ccontr)
  assume "\<not> ?thesis"
  then obtain x x' where k: "fmlookup params k = Some x" "fmlookup params' k = Some x'" by auto
  have "(k, x) \<in> set (report_entries BMSHeartBeatReportT m)"
       "(k, x') \<in> set (report_entries BMSHeartBeatReportT m')"
    using k assms(1,2) decodeProtobufPdata_report [of f i _ unmarshal pdata m consume, OF assms(3,5)]
      decodeProtobufPdata_report [of f' i' _ unmarshal pdata' m' consume, OF assms(4,6)]
      store_entries_mem [OF report_entries_distinct [OF assms(7)]]
      store_entries_mem [OF report_entries_distinct [OF assms(8)]] by auto
  then obtain r r' where "k = flatten_prefix BMSHeartBeatReportT m @ r"
      "k = flatten_prefix BMSHeartBeatReportT m' @ r'"
    unfolding report_entries_def by (meson msg_entries_prefix(1))
  with assms(9) bms_prefix_inj [of "GetNum m" r "GetNum m'" r'] show False
    by (simp add: flatten_prefix_def)
qed

text \<open>A library for the witness: the byte is the pack number.\<close>

definition pack_of :: "msg_type \<Rightarrow> byte list \<Rightarrow> pmsg option" where
  "pack_of t b = Some (Msg [PField (fU32 1 ''num'') (PUint (uint (hd b)))] [])"

theorem battery_packs_kept_apart_witness:
  "\<exists>p p'. decodeProtobufPdata pack_of (\<lambda>r. None) 32 50 [1] = Decoded p []
     \<and> decodeProtobufPdata pack_of (\<lambda>r. None) 32 51 [2] = Decoded p' []
     \<and> (fmlookup p ''bms.1.num'' = None \<or> fmlookup p' ''bms.1.num'' = None)"
proof -
  have cmd: "newMessageFor 32 50 = Some BMSHeartBeatReportT" "newMessageFor 32 51 = Some BMSHeartBeatReportT"
    by (simp_all add: newMessageFor_def bmsHeartbeatCommands_def)
  define m where "m n = Msg [PField (fU32 1 ''num'') (PUint n)] []" for n
  have wf: "wf_msg BMSHeartBeatReportT (m n)" "GetNum (m n) = n" "collectUnknownFields (\<lambda>r. None) (m n) = []" for n
    by (simp_all add: m_def BMSHeartBeatReport_fields_def field_defs scalar_value_def uint_kinds_def
        GetNum_def unknown_numbers.simps)
  have un: "pack_of t [1] = Some (m 1)" "pack_of t [2] = Some (m 2)" for t
    by (simp_all add: pack_of_def m_def)
  define p where "p n = store_entries (report_entries BMSHeartBeatReportT (m n)) fmempty" for n
  have d: "decodeProtobufPdata pack_of (\<lambda>r. None) 32 50 [1] = Decoded (p 1) []"
    "decodeProtobufPdata pack_of (\<lambda>r. None) 32 51 [2] = Decoded (p 2) []"
    using decodeProtobufPdata_report [of 32 50 _ pack_of "[1]" "m 1" "\<lambda>r. None", OF cmd(1) un(1)]
      decodeProtobufPdata_report [of 32 51 _ pack_of "[2]" "m 2" "\<lambda>r. None", OF cmd(2) un(2)]
    by (simp_all add: p_def wf)
  have "fmlookup (p 1) ''bms.1.num'' = None \<or> fmlookup (p 2) ''bms.1.num'' = None"
    by (rule battery_packs_kept_apart [OF d cmd un wf(1) wf(1)]) (simp add: wf)
  with d show ?thesis by blast
qed

text \<open>All unknown fields of a message are reported: when the unknown bytes of a flat message
  are the encodings of a sequence of fields, the numbers of exactly these fields are collected,
  in their order.\<close>
theorem unknown_fields_collected:
  assumes "\<And>n b rest. (n, b) \<in> set fs \<Longrightarrow> b \<noteq> [] \<and> consume (b @ rest) = Some (n, length b - 1)"
    and "list_all (\<lambda>f. kind_msg (fd_kind (pf_desc f)) = None) known"
  shows "collectUnknownFields consume (Msg known (concat (map snd fs))) = map fst fs"
proof -
  have "collectUnknownField consume f = []" if "f \<in> set known" for f
  proof -
    have "kind_msg (fd_kind (pf_desc f)) = None" using that assms(2) by (simp add: list_all_iff)
    then show ?thesis by (cases f; cases "fd_kind (pf_desc f)") simp_all
  qed
  then have "concat (map (collectUnknownField consume) known) = []" by simp
  then show ?thesis using unknown_numbers_all [OF assms(1)] by simp
qed

text \<open>A field library for the witness: one byte, whose value is the field number.\<close>

definition one_byte :: "byte list \<Rightarrow> (nat \<times> nat) option" where
  "one_byte raw = (case raw of [] \<Rightarrow> None | b # bs \<Rightarrow> Some (unat b, 0))"

theorem unknown_fields_collected_witness:
  "collectUnknownFields one_byte (Msg [] (concat (map snd [(7 :: nat, [7]), (9, [9])]))) = [7, 9]"
  by (subst unknown_fields_collected) (auto simp: one_byte_def)

end
