(* ===== verification/Proto_Decoder.thy ===== *)
theory Proto_Decoder
  imports Proto_Messages Go_Json
begin

text \<open>
  \<open>internal/protobuf/decoder.go\<close>: which format an MQTT message has, and how a protobuf message
  becomes one map of parameters.

  The generated unmarshaller is a parameter, as in \<^theory_text>\<open>Proto_Messages\<close>; for the outer message it
  returns the list of headers. Everything the decoder writes to the log is a \<open>log_entry\<close> in
  the order of writing, with the values that the code computes for it; the constant help
  texts are left out. The mutex guards the two maps and is not modelled: each operation on
  them is one step. The counters count messages, so they are \<open>nat\<close>.
\<close>

section \<open>Formats\<close>

datatype MessageFormat = FormatUnknown | FormatJSON | FormatProtobuf

fun MessageFormat_String :: "MessageFormat \<Rightarrow> gostring" where
  "MessageFormat_String FormatJSON = ''json''"
| "MessageFormat_String FormatProtobuf = ''protobuf''"
| "MessageFormat_String FormatUnknown = ''unknown''"

text \<open>The message \<open>Header\<close> of \<open>ecoflow.pb.go\<close>.\<close>

record Header =
  Pdata :: "byte list"
  Src :: int32
  Dest :: int32
  DSrc :: int32
  DDest :: int32
  EncType :: int32
  CheckType :: int32
  CmdFunc :: int32
  CmdId :: int32
  DataLen :: int32
  NeedAck :: int32
  IsAck :: int32
  Seq :: int32
  ProductId :: int32
  Version :: int32
  PayloadVer :: int32
  TimeSnap :: int32
  IsRwCmd :: int32
  IsQueue :: int32
  AckType :: int32
  Code :: gostring
  From :: gostring
  ModuleSn :: gostring
  DeviceSn :: gostring

text \<open>
  The protobuf library: unmarshalling of \<open>HeaderMessage\<close> and of the messages in pdata, and
  \<open>protowire.ConsumeField\<close>.
\<close>

record proto_lib =
  lib_headers :: "byte list \<Rightarrow> Header list option"
  lib_message :: "msg_type \<Rightarrow> byte list \<Rightarrow> pmsg option"
  lib_consume :: "byte list \<Rightarrow> (nat \<times> nat) option"

definition DetectFormat :: "proto_lib \<Rightarrow> byte list \<Rightarrow> MessageFormat" where
  "DetectFormat lib payload =
    (let trimmed = trim_space (go_string payload) in
     if 2 \<le> length trimmed \<and> hd trimmed = CHR 0x7B \<and> last trimmed = CHR 0x7D
        \<and> unmarshal_map trimmed \<noteq> None
     then FormatJSON
     else (case lib_headers lib payload of
             Some (h # hs) \<Rightarrow> FormatProtobuf
           | _ \<Rightarrow> FormatUnknown))"

section \<open>Decryption and printing\<close>

definition xorDecrypt :: "byte list \<Rightarrow> int32 \<Rightarrow> byte list" where
  "xorDecrypt data sq =
    (if data = [] then data
     else (let seqByte = (ucast (and sq 0xFF) :: byte) in map (\<lambda>b. xor b seqByte) data))"

definition formatAscii :: "byte list \<Rightarrow> gostring" where
  "formatAscii data = map (\<lambda>b. if 32 \<le> b \<and> b \<le> 126 then byte_char b else CHR ''.'') data"

definition hex_encode :: "byte list \<Rightarrow> gostring" where
  "hex_encode data = concat (map (\<lambda>b. [hex_digit (unat b div 16), hex_digit (unat b mod 16)]) data)"

section \<open>The decoder\<close>

datatype log_entry =
    FirstMessage gostring
  | RawPayload nat gostring
  | UnmarshalFailed nat gostring
  | NoHeaders nat gostring
  | MessageStructure nat nat
  | HeaderStructure nat nat int32 int32 int32 int32 int32 int32 int32 int32
  | HeaderPdata nat nat gostring gostring int32
  | DecryptedPdata nat int32 int32 int32 nat nat gostring gostring
  | ParsedAsJson nat int32 int32 params
  | ParsedAsProtobuf nat int32 int32 params "nat list"
  | FinalParams params nat nat nat
  | NothingExtracted nat nat
  | UnsupportedCommand int32 int32 nat gostring gostring bool "(gostring \<times> gostring) option"
  | FrequentCommand int32 int32 nat

record decoder =
  dec_debug :: bool
  unknownCommands :: "(gostring, nat) fmap"
  seenDevices :: "(gostring, bool) fmap"
  dec_log :: "log_entry list"

definition NewProtobufDecoder :: "bool \<Rightarrow> decoder" where
  "NewProtobufDecoder debug =
     \<lparr>dec_debug = debug, unknownCommands = fmempty, seenDevices = fmempty, dec_log = []\<rparr>"

definition log_write :: "log_entry \<Rightarrow> decoder \<Rightarrow> decoder" where
  "log_write e d = d\<lparr>dec_log := dec_log d @ [e]\<rparr>"

text \<open>\<open>if debugEnabled { slog.Info(...) }\<close>\<close>

definition log_debug :: "log_entry \<Rightarrow> decoder \<Rightarrow> decoder" where
  "log_debug e d = (if dec_debug d then log_write e d else d)"

definition LogFirstProtobufMessage :: "gostring \<Rightarrow> decoder \<Rightarrow> decoder" where
  "LogFirstProtobufMessage serialNumber d =
    (if \<not> dec_debug d then d
     else
       (let seen = (fmlookup (seenDevices d) serialNumber = Some True);
            d = d\<lparr>seenDevices := fmupd serialNumber True (seenDevices d)\<rparr>
        in if \<not> seen then log_write (FirstMessage serialNumber) d else d))"

text \<open>\<open>fmt.Sprintf("%d:%d", cmdFunc, cmdId)\<close>\<close>

definition command_key :: "int32 \<Rightarrow> int32 \<Rightarrow> gostring" where
  "command_key cmdFunc cmdId = format_int (sint cmdFunc) @ '':'' @ format_int (sint cmdId)"

definition seen_count :: "gostring \<Rightarrow> decoder \<Rightarrow> nat" where
  "seen_count key d = (case fmlookup (unknownCommands d) key of None \<Rightarrow> 0 | Some n \<Rightarrow> n)"

definition logUnknownCommand :: "int32 \<Rightarrow> int32 \<Rightarrow> byte list \<Rightarrow> bool \<Rightarrow> decoder \<Rightarrow> decoder" where
  "logUnknownCommand cmdFunc cmdId pdata parseErr d =
    (let key = command_key cmdFunc cmdId;
         count = seen_count key d + 1;
         d = d\<lparr>unknownCommands := fmupd key count (unknownCommands d)\<rparr>;
         previewLen = min 128 (length pdata);
         d = (if count = 1 then
                log_write
                  (UnsupportedCommand cmdFunc cmdId (length pdata)
                    (hex_encode (take previewLen pdata)) (formatAscii (take previewLen pdata)) parseErr
                    (if dec_debug d then Some (hex_encode pdata, formatAscii pdata) else None)) d
              else d)
     in if count mod 100 = 0 then log_write (FrequentCommand cmdFunc cmdId count) d else d)"

section \<open>Decoding a message\<close>

record decode_state =
  st_params :: params
  st_encrypted :: nat
  st_parsed :: nat
  st_failed :: nat
  st_decoder :: decoder

text \<open>The body of the loop over the headers; \<open>i\<close> is the index of the header.\<close>

definition is_encrypted :: "Header \<Rightarrow> bool" where
  "is_encrypted h \<longleftrightarrow> EncType h = 1 \<and> Seq h \<noteq> 0 \<and> Src h \<noteq> 32"

definition decode_header :: "proto_lib \<Rightarrow> nat \<Rightarrow> Header \<Rightarrow> decode_state \<Rightarrow> decode_state" where
  "decode_header lib i h s =
    (let d = log_debug (HeaderPdata i (length (Pdata h)) (hex_encode (Pdata h)) (formatAscii (Pdata h))
               (EncType h)) (st_decoder s);
         (pdata, encrypted, d) =
           (if is_encrypted h then
              (let pdata = xorDecrypt (Pdata h) (Seq h) in
               (pdata, st_encrypted s + 1,
                log_debug (DecryptedPdata i (Seq h) (CmdFunc h) (CmdId h) (length (Pdata h)) (length pdata)
                  (hex_encode pdata) (formatAscii pdata)) d))
            else (Pdata h, st_encrypted s, d));
         trimmed = trim_space (go_string pdata);
         json = (if 0 < length trimmed \<and> hd trimmed = CHR 0x7B then unmarshal_map trimmed else None)
     in case json of
          Some ps \<Rightarrow>
            s\<lparr>st_params := st_params s ++\<^sub>f ps, st_encrypted := encrypted, st_parsed := st_parsed s + 1,
              st_decoder := log_debug (ParsedAsJson i (CmdFunc h) (CmdId h) ps) d\<rparr>
        | None \<Rightarrow>
            (case decodeProtobufPdata (lib_message lib) (lib_consume lib) (CmdFunc h) (CmdId h) pdata of
               Decoded ps unknown \<Rightarrow>
                 s\<lparr>st_params := st_params s ++\<^sub>f ps, st_encrypted := encrypted, st_parsed := st_parsed s + 1,
                   st_decoder := log_debug (ParsedAsProtobuf i (CmdFunc h) (CmdId h) ps unknown) d\<rparr>
             | PdataError \<Rightarrow>
                 s\<lparr>st_encrypted := encrypted, st_failed := st_failed s + 1,
                   st_decoder := logUnknownCommand (CmdFunc h) (CmdId h) pdata True d\<rparr>
             | Unsupported \<Rightarrow>
                 s\<lparr>st_encrypted := encrypted, st_failed := st_failed s + 1,
                   st_decoder := logUnknownCommand (CmdFunc h) (CmdId h) pdata False d\<rparr>))"

datatype decode_result = DecodeOk params | UnmarshalError | NoHeaderError | NoParamsError

definition log_structure :: "Header list \<Rightarrow> nat \<Rightarrow> decoder \<Rightarrow> decoder" where
  "log_structure hs payload_len d =
    fold (\<lambda>(i, h). log_debug (HeaderStructure i (length (Pdata h)) (EncType h) (Seq h) (CmdFunc h)
            (CmdId h) (Src h) (Dest h) (ProductId h) (Version h)))
      (enumerate 0 hs) (log_debug (MessageStructure (length hs) payload_len) d)"

definition decode_headers :: "proto_lib \<Rightarrow> Header list \<Rightarrow> decoder \<Rightarrow> decode_state" where
  "decode_headers lib hs d =
    fold (\<lambda>(i, h). decode_header lib i h) (enumerate 0 hs)
      \<lparr>st_params = fmempty, st_encrypted = 0, st_parsed = 0, st_failed = 0, st_decoder = d\<rparr>"

definition DecodeProtobufMessage ::
  "proto_lib \<Rightarrow> byte list \<Rightarrow> decoder \<Rightarrow> decode_result \<times> decoder"
where
  "DecodeProtobufMessage lib payload d =
    (let d = log_debug (RawPayload (length payload) (hex_encode payload)) d;
         preview = hex_encode (take (min 256 (length payload)) payload)
     in case lib_headers lib payload of
          None \<Rightarrow> (UnmarshalError, log_write (UnmarshalFailed (length payload) preview) d)
        | Some hs \<Rightarrow>
            if length hs = 0 then (NoHeaderError, log_write (NoHeaders (length payload) preview) d)
            else
              (let s = decode_headers lib hs (log_structure hs (length payload) d);
                   d = log_debug (FinalParams (st_params s) (st_parsed s) (st_encrypted s) (st_failed s))
                         (st_decoder s)
               in if st_parsed s = 0 then (NoParamsError, log_write (NothingExtracted (length hs) (st_failed s)) d)
                  else (DecodeOk (st_params s), d)))"

section \<open>What decoding means\<close>

text \<open>
  The specification of one header, without log, counters and merging: the pdata as sent, and the
  parameters it stands for, if it can be decoded.
\<close>

definition header_pdata :: "Header \<Rightarrow> byte list" where
  "header_pdata h = (if is_encrypted h then xorDecrypt (Pdata h) (Seq h) else Pdata h)"

definition json_params :: "byte list \<Rightarrow> params option" where
  "json_params pdata =
    (let trimmed = trim_space (go_string pdata) in
     if trimmed \<noteq> [] \<and> hd trimmed = CHR 0x7B then unmarshal_map trimmed else None)"

definition protobuf_params :: "proto_lib \<Rightarrow> Header \<Rightarrow> params option" where
  "protobuf_params lib h =
    (case decodeProtobufPdata (lib_message lib) (lib_consume lib) (CmdFunc h) (CmdId h) (header_pdata h) of
       Decoded ps unknown \<Rightarrow> Some ps | _ \<Rightarrow> None)"

definition header_params :: "proto_lib \<Rightarrow> Header \<Rightarrow> params option" where
  "header_params lib h =
    (case json_params (header_pdata h) of Some ps \<Rightarrow> Some ps | None \<Rightarrow> protobuf_params lib h)"

text \<open>The specification of a message: the maps of the headers that can be decoded, later ones first.\<close>

definition decoded_maps :: "proto_lib \<Rightarrow> Header list \<Rightarrow> params list" where
  "decoded_maps lib hs = List.map_filter (header_params lib) hs"

definition merged :: "params list \<Rightarrow> params" where
  "merged ms = foldl (++\<^sub>f) fmempty ms"

lemma decode_header_params:
  "st_params (decode_header lib i h s) =
     (case header_params lib h of Some ps \<Rightarrow> st_params s ++\<^sub>f ps | None \<Rightarrow> st_params s)"
  by (auto simp: decode_header_def header_params_def protobuf_params_def json_params_def header_pdata_def
      Let_def split: option.split pdata_result.split)

lemma decode_header_counts:
  "st_parsed (decode_header lib i h s) = st_parsed s + (if header_params lib h = None then 0 else 1)"
  "st_failed (decode_header lib i h s) = st_failed s + (if header_params lib h = None then 1 else 0)"
  "st_encrypted (decode_header lib i h s) = st_encrypted s + (if is_encrypted h then 1 else 0)"
  by (auto simp: decode_header_def header_params_def protobuf_params_def json_params_def header_pdata_def
      Let_def split: option.split pdata_result.split)

lemma decode_fold:
  "fold (\<lambda>(i, h). decode_header lib i h) (enumerate n hs) s = s' \<Longrightarrow>
   st_params s' = foldl (++\<^sub>f) (st_params s) (decoded_maps lib hs)
   \<and> st_parsed s' = st_parsed s + length (decoded_maps lib hs)
   \<and> st_parsed s' + st_failed s' = st_parsed s + st_failed s + length hs
   \<and> st_encrypted s' = st_encrypted s + length (filter is_encrypted hs)"
proof (induction hs arbitrary: n s)
  case (Cons h hs)
  from Cons.IH [of "Suc n" "decode_header lib n h s"] Cons.prems
  show ?case
    by (auto simp: decoded_maps_def decode_header_params decode_header_counts map_filter_simps
        split: option.splits)
qed (auto simp: decoded_maps_def map_filter_simps)

lemma decode_headers_spec:
  "st_params (decode_headers lib hs d) = merged (decoded_maps lib hs)"
  "st_parsed (decode_headers lib hs d) = length (decoded_maps lib hs)"
  "st_parsed (decode_headers lib hs d) + st_failed (decode_headers lib hs d) = length hs"
  "st_encrypted (decode_headers lib hs d) = length (filter is_encrypted hs)"
  using decode_fold [OF refl, of lib 0 hs
      "\<lparr>st_params = fmempty, st_encrypted = 0, st_parsed = 0, st_failed = 0, st_decoder = d\<rparr>"]
  by (simp_all add: decode_headers_def merged_def)

text \<open>The specification of the whole decoder.\<close>

definition decode_spec :: "proto_lib \<Rightarrow> byte list \<Rightarrow> decode_result" where
  "decode_spec lib payload =
    (case lib_headers lib payload of
       None \<Rightarrow> UnmarshalError
     | Some [] \<Rightarrow> NoHeaderError
     | Some hs \<Rightarrow>
         if decoded_maps lib hs = [] then NoParamsError else DecodeOk (merged (decoded_maps lib hs)))"

text \<open>The value of a parameter in the merge: that of the last map that has it.\<close>

fun last_value :: "params list \<Rightarrow> gostring \<Rightarrow> goval option" where
  "last_value [] k = None"
| "last_value (m # ms) k = (case last_value ms k of Some v \<Rightarrow> Some v | None \<Rightarrow> fmlookup m k)"

lemma foldl_merge_lookup:
  "fmlookup (foldl (++\<^sub>f) m ms) k = (case last_value ms k of Some v \<Rightarrow> Some v | None \<Rightarrow> fmlookup m k)"
  by (induction ms arbitrary: m) (auto simp: fmadd_lookup split: option.splits)

lemma merged_lookup: "fmlookup (merged ms) k = last_value ms k"
  by (simp add: merged_def foldl_merge_lookup split: option.split)

lemma last_value_None_iff: "last_value ms k = None \<longleftrightarrow> (\<forall>m \<in> set ms. fmlookup m k = None)"
  by (induction ms) (auto split: option.splits)

section \<open>The counters of unknown commands\<close>

lemma log_write_state [simp]:
  "dec_debug (log_write e d) = dec_debug d" "unknownCommands (log_write e d) = unknownCommands d"
  "seenDevices (log_write e d) = seenDevices d" "dec_log (log_write e d) = dec_log d @ [e]"
  by (simp_all add: log_write_def)

lemma log_debug_state [simp]:
  "dec_debug (log_debug e d) = dec_debug d" "unknownCommands (log_debug e d) = unknownCommands d"
  "seenDevices (log_debug e d) = seenDevices d"
  by (simp_all add: log_debug_def)

lemma log_structure_state [simp]:
  "unknownCommands (log_structure hs n d) = unknownCommands d"
  unfolding log_structure_def
  by (rule fold_invariant_list) (auto split: prod.split)

lemma seen_count_log [simp]:
  "seen_count k (log_debug e d) = seen_count k d" "seen_count k (log_write e d) = seen_count k d"
  "seen_count k (log_structure hs n d) = seen_count k d"
  by (simp_all add: seen_count_def)

lemma logUnknownCommand_count:
  "seen_count k (logUnknownCommand f i pdata e d) =
     seen_count k d + (if k = command_key f i then 1 else 0)"
  by (auto simp: logUnknownCommand_def Let_def seen_count_def)

lemma decode_header_seen:
  "seen_count k (st_decoder (decode_header lib i h s)) =
     seen_count k (st_decoder s)
       + (if header_params lib h = None \<and> k = command_key (CmdFunc h) (CmdId h) then 1 else 0)"
  by (auto simp: decode_header_def header_params_def protobuf_params_def json_params_def header_pdata_def
      Let_def logUnknownCommand_count split: option.split pdata_result.split)

text \<open>The headers of a command that cannot be decoded.\<close>

definition undecoded :: "proto_lib \<Rightarrow> gostring \<Rightarrow> Header list \<Rightarrow> Header list" where
  "undecoded lib k hs =
     filter (\<lambda>h. header_params lib h = None \<and> k = command_key (CmdFunc h) (CmdId h)) hs"

lemma decode_fold_seen:
  "seen_count k (st_decoder (fold (\<lambda>(i, h). decode_header lib i h) (enumerate n hs) s)) =
     seen_count k (st_decoder s) + length (undecoded lib k hs)"
  by (induction hs arbitrary: n s) (auto simp: undecoded_def decode_header_seen)

lemma command_key_inj:
  assumes "command_key f i = command_key f' i'"
  shows "f = f' \<and> i = i'"
proof -
  have colon: "CHR '':'' \<notin> set (format_int n)" for n
    using format_nat_digits [of "nat n"] format_nat_digits [of "nat (- n)"]
    by (auto simp: format_int_def list_all_iff is_digit_def code_def)
  have "takeWhile (\<lambda>c. c \<noteq> CHR '':'') (format_int n @ '':'' @ r) = format_int n" for n r
    using colon [of n] by (subst takeWhile_append2) auto
  with assms have f: "format_int (sint f) = format_int (sint f')"
    unfolding command_key_def by metis
  with assms have "format_int (sint i) = format_int (sint i')"
    by (simp add: command_key_def)
  with f show ?thesis using format_int_inj signed_word_eqI by blast
qed

section \<open>Encryption\<close>

lemma low_byte: "(ucast (and sq 0xFF) :: byte) = ucast (sq :: int32)"
proof (rule bit_word_eqI)
  fix n assume "n < LENGTH(8)"
  moreover have "bit (0xFF :: int32) n" if "n < 8"
  proof -
    have "n = 0 \<or> n = 1 \<or> n = 2 \<or> n = 3 \<or> n = 4 \<or> n = 5 \<or> n = 6 \<or> n = 7" using that by linarith
    then show ?thesis by (elim disjE) simp_all
  qed
  ultimately show "bit (ucast (and sq 0xFF) :: byte) n = bit (ucast sq :: byte) n"
    by (simp add: bit_ucast_iff bit_and_iff)
qed

lemma xorDecrypt_map: "xorDecrypt data sq = map (\<lambda>b. xor b (ucast sq)) data"
  by (simp add: xorDecrypt_def low_byte)

text \<open>
  The specification of the encryption, from the side of the device: every byte of the pdata is
  combined with the sequence number modulo 256; a sequence number of 0 and the source 32 stand for no
  encryption, whatever the type says.
\<close>

definition device_cipher :: "int32 \<Rightarrow> int32 \<Rightarrow> byte list \<Rightarrow> byte list" where
  "device_cipher src sq p =
     (if sq = 0 \<or> src = 32 then p else map (\<lambda>b. xor b (word_of_int (sint sq mod 256))) p)"

lemma key_byte: "(word_of_int (sint (sq :: int32) mod 256) :: byte) = ucast sq"
proof -
  have "(word_of_int (sint sq mod 256) :: byte) = word_of_int (sint sq)"
    by (subst word_of_int_eq_iff) (simp add: take_bit_eq_mod mod_mod_cancel)
  also have "\<dots> = scast sq" by (rule scast_eq [symmetric])
  also have "\<dots> = ucast sq" by (rule bit_word_eqI) (simp add: bit_ucast_iff bit_signed_iff)
  finally show ?thesis .
qed

lemma header_pdata_cipher:
  "header_pdata (h\<lparr>Pdata := device_cipher (Src h) sq p, EncType := 1, Seq := sq\<rparr>) = p"
  by (simp add: header_pdata_def is_encrypted_def device_cipher_def xorDecrypt_map key_byte xor.assoc comp_def)

lemma header_params_encrypted:
  "header_params lib (h\<lparr>Pdata := device_cipher (Src h) sq p, EncType := 1, Seq := sq\<rparr>)
   = header_params lib (h\<lparr>Pdata := p, EncType := 0, Seq := sq\<rparr>)"
proof -
  have "header_pdata (h\<lparr>Pdata := p, EncType := 0, Seq := sq\<rparr>) = p"
    by (simp add: header_pdata_def is_encrypted_def)
  then show ?thesis
    by (simp add: header_params_def protobuf_params_def header_pdata_cipher split: option.split)
qed

section \<open>Properties\<close>

text \<open>C9: The decoder returns what its specification says, whatever the debug flag, the counters
  and the log: an error when the message cannot be unmarshalled or has no header, an error when no
  header can be decoded, and otherwise the merge of the parameters of all headers that can be
  decoded, in which the last header with a parameter determines its value. A header that fails
  does not stop the others.\<close>
theorem decode_refines_spec:
  "fst (DecodeProtobufMessage lib payload d) = decode_spec lib payload"
  by (auto simp: DecodeProtobufMessage_def decode_spec_def Let_def decode_headers_spec
      split: option.split list.split)

text \<open>In the result of a decoded message each parameter has the value of the last header
  that carries it, and a parameter is there exactly when some header carries it.\<close>
theorem last_header_wins:
  assumes "fst (DecodeProtobufMessage lib payload d) = DecodeOk ps"
  shows "\<exists>hs. lib_headers lib payload = Some hs
    \<and> (\<forall>k. fmlookup ps k = last_value (decoded_maps lib hs) k)
    \<and> (\<forall>k. fmlookup ps k = None \<longleftrightarrow> (\<forall>m \<in> set (decoded_maps lib hs). fmlookup m k = None))"
  using assms
  by (auto simp: DecodeProtobufMessage_def Let_def decode_headers_spec merged_lookup
      last_value_None_iff split: option.splits if_splits)

text \<open>C18: XOR encryption is transparent: a header whose pdata a device has encrypted, every byte with
  the sequence number modulo 256 (and not at all for the sequence number 0 and for the source 32),
  contributes the same parameters and the same outcome as the header with the plain pdata sent
  unencrypted.\<close>
theorem encryption_transparent:
  "st_params (decode_header lib i (h\<lparr>Pdata := device_cipher (Src h) sq p, EncType := 1, Seq := sq\<rparr>) s)
     = st_params (decode_header lib i (h\<lparr>Pdata := p, EncType := 0, Seq := sq\<rparr>) s)
   \<and> st_parsed (decode_header lib i (h\<lparr>Pdata := device_cipher (Src h) sq p, EncType := 1, Seq := sq\<rparr>) s)
     = st_parsed (decode_header lib i (h\<lparr>Pdata := p, EncType := 0, Seq := sq\<rparr>) s)
   \<and> st_failed (decode_header lib i (h\<lparr>Pdata := device_cipher (Src h) sq p, EncType := 1, Seq := sq\<rparr>) s)
     = st_failed (decode_header lib i (h\<lparr>Pdata := p, EncType := 0, Seq := sq\<rparr>) s)"
  by (simp only: decode_header_params decode_header_counts header_params_encrypted)

text \<open>A message adds to the counter of each command the number of its headers with this
  command that could not be decoded, and changes no other counter; the counters of different
  commands are never mixed up.\<close>
theorem unknown_commands_counted:
  "seen_count (command_key f i) (snd (DecodeProtobufMessage lib payload d)) =
     seen_count (command_key f i) d +
     (case lib_headers lib payload of
        None \<Rightarrow> 0
      | Some hs \<Rightarrow> length (filter (\<lambda>h. header_params lib h = None \<and> CmdFunc h = f \<and> CmdId h = i) hs))"
proof -
  have key: "command_key f i = command_key (CmdFunc h) (CmdId h) \<longleftrightarrow> CmdFunc h = f \<and> CmdId h = i" for h
    using command_key_inj by auto
  show ?thesis
    by (auto simp: DecodeProtobufMessage_def Let_def decode_headers_def decode_fold_seen undecoded_def
        key split: option.split)
qed

lemma logUnknownCommand_log:
  "length (dec_log (logUnknownCommand f i pdata e d)) =
     length (dec_log d) + (if seen_count (command_key f i) d = 0 then 1 else 0)
       + (if (seen_count (command_key f i) d + 1) mod 100 = 0 then 1 else 0)"
  by (simp add: logUnknownCommand_def Let_def)

lemma unknown_log_lines:
  "seen_count (command_key f i) d = c \<Longrightarrow>
   length (dec_log (fold (\<lambda>(pdata, e). logUnknownCommand f i pdata e) ms d)) =
     length (dec_log d) + (if c = 0 \<and> ms \<noteq> [] then 1 else 0) + (c + length ms) div 100 - c div 100"
proof (induction ms arbitrary: c d)
  case (Cons m ms)
  obtain pdata e where m: "m = (pdata, e)" by (cases m)
  let ?d = "logUnknownCommand f i pdata e d"
  have "seen_count (command_key f i) ?d = c + 1"
    using Cons.prems by (simp add: logUnknownCommand_count)
  from Cons.IH [OF this]
  have "length (dec_log (fold (\<lambda>(pdata, e). logUnknownCommand f i pdata e) (m # ms) d)) =
      length (dec_log ?d) + (c + 1 + length ms) div 100 - (c + 1) div 100"
    by (simp add: m)
  moreover have "(c + 1) div 100 = c div 100 + (if (c + 1) mod 100 = 0 then 1 else 0)"
    by (simp add: div_Suc)
  moreover have "(c + 1) div 100 \<le> (c + 1 + length ms) div 100" by (rule div_le_mono) simp
  ultimately show ?case
    using Cons.prems by (simp add: logUnknownCommand_log)
qed simp

text \<open>Unknown commands cannot flood the log: a command that was not seen before and then
  arrives \<open>n\<close> times writes one line for its first occurrence and one for every hundredth,
  whatever the data.\<close>
theorem unknown_command_log_throttled:
  assumes "seen_count (command_key f i) d = 0"
  shows "length (dec_log (fold (\<lambda>(pdata, e). logUnknownCommand f i pdata e) ms d)) =
    length (dec_log d) + (if length ms = 0 then 0 else 1) + length ms div 100"
  using unknown_log_lines [OF assms, of ms] by simp

theorem unknown_command_log_throttled_witness:
  "length (dec_log (fold (\<lambda>(pdata, e). logUnknownCommand 3 4 pdata e) (replicate 250 ([], False))
     (NewProtobufDecoder False))) = 3"
  by (subst unknown_command_log_throttled) (simp_all add: NewProtobufDecoder_def seen_count_def)

text \<open>When a message is detected as protobuf, decoding it does not fail on its outer
  message: it has headers, and the only error left is that none of them could be decoded.\<close>
theorem detected_protobuf_unmarshals:
  assumes "DetectFormat lib payload = FormatProtobuf"
  shows "\<exists>hs. lib_headers lib payload = Some hs \<and> hs \<noteq> []
    \<and> fst (DecodeProtobufMessage lib payload d) =
        (if decoded_maps lib hs = [] then NoParamsError else DecodeOk (merged (decoded_maps lib hs)))"
  using assms
  by (auto simp: DetectFormat_def DecodeProtobufMessage_def Let_def decode_headers_spec
      split: option.splits list.splits if_splits)

subsection \<open>A library for the witnesses\<close>

text \<open>One header with the payload as its pdata, except that the empty payload has no header.\<close>

definition plain_header :: Header where
  "plain_header =
     \<lparr>Pdata = [], Src = 2, Dest = 0, DSrc = 0, DDest = 0, EncType = 0, CheckType = 0, CmdFunc = 32,
      CmdId = 50, DataLen = 0, NeedAck = 0, IsAck = 0, Seq = 5, ProductId = 0, Version = 0,
      PayloadVer = 0, TimeSnap = 0, IsRwCmd = 0, IsQueue = 0, AckType = 0, Code = [], From = [],
      ModuleSn = [], DeviceSn = []\<rparr>"

definition one_header_lib :: proto_lib where
  "one_header_lib =
     \<lparr>lib_headers = (\<lambda>b. Some (if b = [] then [] else [plain_header\<lparr>Pdata := b\<rparr>])),
      lib_message = pack_of, lib_consume = (\<lambda>r. None)\<rparr>"

lemma trim_ctrl: "code c < 9 \<Longrightarrow> trim_left [c] = [c]" "code c < 9 \<Longrightarrow> trim_right [c] = [c]"
  by (simp_all add: trim_left.simps [of "[c]"] trim_right.simps [of "[c]"] decode_last_rune_def is_space_def)

lemma one_header_params:
  "header_params one_header_lib (plain_header\<lparr>Pdata := [3]\<rparr>) =
     Some (fmupd ''bms.3.num'' (VFloat64 (Fin 3)) fmempty)"
proof -
  have fmt: "format_nat 3 = ''3''" by code_simp
  have code3: "code (byte_char 3) = 3" by code_simp
  have neq: "byte_char 3 \<noteq> CHR 0x7B" by code_simp
  have json: "json_params [3] = None"
    using neq by (simp add: json_params_def go_string_def trim_space_def trim_ctrl code3)
  have cmd: "newMessageFor 32 50 = Some BMSHeartBeatReportT"
    by (simp add: newMessageFor_def bmsHeartbeatCommands_def)
  show ?thesis
    using json cmd
    by (simp add: header_params_def protobuf_params_def header_pdata_def is_encrypted_def plain_header_def
        one_header_lib_def pack_of_def decodeProtobufPdata_def Let_def GetNum_def field_defs
        scalar_value_def uint_kinds_def format_int_def fmt f64_of_int_exact)
qed

lemma one_header_decodes:
  "decoded_maps one_header_lib [plain_header\<lparr>Pdata := [3]\<rparr>] = [fmupd ''bms.3.num'' (VFloat64 (Fin 3)) fmempty]"
  by (simp add: decoded_maps_def map_filter_simps one_header_params)

lemma one_header_result:
  "fst (DecodeProtobufMessage one_header_lib [3] d) = DecodeOk (fmupd ''bms.3.num'' (VFloat64 (Fin 3)) fmempty)"
proof -
  have "lib_headers one_header_lib [3] = Some [plain_header\<lparr>Pdata := [3]\<rparr>]"
    by (simp add: one_header_lib_def)
  then show ?thesis
    by (simp add: DecodeProtobufMessage_def Let_def decode_headers_spec one_header_decodes merged_def)
qed

lemma one_header_detected: "DetectFormat one_header_lib [3] = FormatProtobuf"
proof -
  have "code (byte_char 3) = 3" by code_simp
  then show ?thesis
    by (simp add: DetectFormat_def Let_def go_string_def trim_space_def trim_ctrl one_header_lib_def)
qed

theorem detected_protobuf_unmarshals_witness:
  "fst (DecodeProtobufMessage one_header_lib [3] (NewProtobufDecoder True)) =
     DecodeOk (fmupd ''bms.3.num'' (VFloat64 (Fin 3)) fmempty)"
proof -
  obtain hs where "lib_headers one_header_lib [3] = Some hs"
    "fst (DecodeProtobufMessage one_header_lib [3] (NewProtobufDecoder True)) =
        (if decoded_maps one_header_lib hs = [] then NoParamsError
         else DecodeOk (merged (decoded_maps one_header_lib hs)))"
    using detected_protobuf_unmarshals [OF one_header_detected] by blast
  moreover from this(1) have "hs = [plain_header\<lparr>Pdata := [3]\<rparr>]"
    by (simp add: one_header_lib_def)
  ultimately show ?thesis by (simp add: one_header_decodes merged_def)
qed

theorem last_header_wins_witness:
  "\<exists>ps hs. fst (DecodeProtobufMessage one_header_lib [3] (NewProtobufDecoder False)) = DecodeOk ps
    \<and> lib_headers one_header_lib [3] = Some hs
    \<and> fmlookup ps ''bms.3.num'' = last_value (decoded_maps one_header_lib hs) ''bms.3.num''"
proof -
  have "lib_headers one_header_lib [3] = Some [plain_header\<lparr>Pdata := [3]\<rparr>]"
    by (simp add: one_header_lib_def)
  then have "\<exists>ps. fst (DecodeProtobufMessage one_header_lib [3] (NewProtobufDecoder False)) = DecodeOk ps"
    by (simp add: DecodeProtobufMessage_def Let_def decode_headers_spec one_header_decodes)
  then obtain ps where ps: "fst (DecodeProtobufMessage one_header_lib [3] (NewProtobufDecoder False)) = DecodeOk ps" ..
  from last_header_wins [OF ps] ps show ?thesis by blast
qed

text \<open>The byte 3 encrypted with the sequence number 261, whose lowest byte is 5, is sent as 6.\<close>

theorem encryption_transparent_witness:
  "st_params (decode_header one_header_lib 0 (plain_header\<lparr>Pdata := [6], EncType := 1, Seq := 261\<rparr>)
      \<lparr>st_params = fmempty, st_encrypted = 0, st_parsed = 0, st_failed = 0, st_decoder = NewProtobufDecoder False\<rparr>)
   = fmupd ''bms.3.num'' (VFloat64 (Fin 3)) fmempty"
proof -
  let ?s = "\<lparr>st_params = fmempty, st_encrypted = 0, st_parsed = 0, st_failed = 0, st_decoder = NewProtobufDecoder False\<rparr>"
  have cipher: "device_cipher (Src plain_header) 261 [3] = [6]"
    by (simp add: device_cipher_def plain_header_def)
  have "header_params one_header_lib (plain_header\<lparr>Pdata := [3], EncType := 0, Seq := 261\<rparr>) =
      header_params one_header_lib (plain_header\<lparr>Pdata := [3]\<rparr>)"
    by (simp add: header_params_def protobuf_params_def header_pdata_def is_encrypted_def plain_header_def
        split: option.split)
  then have plain: "st_params (decode_header one_header_lib 0 (plain_header\<lparr>Pdata := [3], EncType := 0, Seq := 261\<rparr>) ?s)
      = fmupd ''bms.3.num'' (VFloat64 (Fin 3)) fmempty"
    by (simp add: decode_header_params one_header_params)
  show ?thesis
    using encryption_transparent [where lib = one_header_lib and i = 0 and h = plain_header and sq = 261 and p = "[3]" and s = ?s] plain by (simp add: cipher)
qed

end
