(* ===== verification/Mqtt_Status.thy ===== *)
theory Mqtt_Status
  imports Telemetry Proto_Decoder
begin

text \<open>
  \<open>mqtt_exporter.go\<close>, first part: the configuration and the state of the MQTT exporter, and the
  operations on the status of the devices, which the code does under \<open>statusMu\<close>: each of them is
  one step of the model. The current time is an argument of an operation that asks for it.

  The MQTT client of the Ecoflow library is a handle; whether it is connected is known to the
  library, so the answer is an argument. The channel \<open>relogin\<close> has room for one request, so it
  is a flag. A nil map reads as an empty one, and the code makes the map before it writes to it;
  both are the empty map here. The handlers are the list of their states; what a handler does is
  a parameter of the operations that call handlers.
\<close>

section \<open>Configuration and state\<close>

record MqttExporterConfig =
  mc_Email :: gostring
  mc_Password :: gostring
  mc_Devices :: "(gostring, gostring) fmap"
  mc_OfflineThreshold :: duration
  mc_PingInterval :: duration
  mc_StateRefreshInterval :: duration
  mc_ProtobufDebug :: bool
  mc_Telemetry :: telemetry_ptr

type_synonym mqtt_client = nat

record 'h mqtt =
  mq_email :: gostring
  mq_password :: gostring
  mq_client :: "mqtt_client option"
  mq_devices :: "(gostring, gostring) fmap"
  mq_handlers :: "'h list"
  mq_offlineThreshold :: duration
  mq_pingInterval :: duration
  mq_stateRefreshInterval :: duration
  mq_deviceState :: "(gostring, params) fmap"
  mq_decoder :: decoder
  mq_telemetry :: telemetry_ptr
  mq_userId :: gostring
  mq_relogin :: bool
  mq_lastReceived :: "(gostring, time) fmap"
  mq_offlineSent :: "(gostring, time) fmap"
  mq_reconnectDelay :: duration
  mq_nextReconnect :: time
  mq_fruitlessReconnects :: int
  mq_pingOK :: "(gostring, int) fmap"
  mq_pingFailed :: "(gostring, int) fmap"

definition maxReconnectDelay :: duration where "maxReconnectDelay = 10 * minute"
definition loginRetryDelay :: duration where "loginRetryDelay = 5 * second"
definition maxLoginDelay :: duration where "maxLoginDelay = 5 * minute"
definition reloginAfterReconnects :: int where "reloginAfterReconnects = 3"

datatype mqtt_config_error =
    CredentialsRequired
  | DeviceRequired
  | HandlerRequired
  | BadOfflineThreshold duration
  | BadPingInterval duration
  | BadStateRefreshInterval duration

definition NewMqttMetricsExporter ::
  "MqttExporterConfig \<Rightarrow> 'h list \<Rightarrow> mqtt_config_error + 'h mqtt" where
  "NewMqttMetricsExporter cfg handlers =
    (if mc_Email cfg = [] \<or> mc_Password cfg = [] then Inl CredentialsRequired
     else if go_len (mc_Devices cfg) = 0 then Inl DeviceRequired
     else if length handlers = 0 then Inl HandlerRequired
     else if mc_OfflineThreshold cfg \<le> 0 then Inl (BadOfflineThreshold (mc_OfflineThreshold cfg))
     else if mc_PingInterval cfg \<le> 0 then Inl (BadPingInterval (mc_PingInterval cfg))
     else if mc_StateRefreshInterval cfg \<le> 0
     then Inl (BadStateRefreshInterval (mc_StateRefreshInterval cfg))
     else Inr
       \<lparr>mq_email = mc_Email cfg, mq_password = mc_Password cfg, mq_client = None,
        mq_devices = mc_Devices cfg, mq_handlers = handlers,
        mq_offlineThreshold = mc_OfflineThreshold cfg, mq_pingInterval = mc_PingInterval cfg,
        mq_stateRefreshInterval = mc_StateRefreshInterval cfg, mq_deviceState = fmempty,
        mq_decoder = NewProtobufDecoder (mc_ProtobufDebug cfg), mq_telemetry = mc_Telemetry cfg,
        mq_userId = [], mq_relogin = False, mq_lastReceived = fmempty, mq_offlineSent = fmempty,
        mq_reconnectDelay = 0, mq_nextReconnect = 0, mq_fruitlessReconnects = 0,
        mq_pingOK = fmempty, mq_pingFailed = fmempty\<rparr>)"

section \<open>Client and health\<close>

text \<open>A request that is already pending is enough: the send does not block.\<close>

definition requestRelogin :: "'h mqtt \<Rightarrow> 'h mqtt" where
  "requestRelogin m = m\<lparr>mq_relogin := True\<rparr>"

definition currentUserId :: "'h mqtt \<Rightarrow> gostring" where
  "currentUserId m = mq_userId m"

definition mqtt_connected :: "(mqtt_client \<Rightarrow> bool) \<Rightarrow> 'h mqtt \<Rightarrow> bool" where
  "mqtt_connected is_connected m = (case mq_client m of None \<Rightarrow> False | Some c \<Rightarrow> is_connected c)"

datatype mqtt_health_error = NotLoggedIn | NotConnected

definition mqtt_Health :: "(mqtt_client \<Rightarrow> bool) \<Rightarrow> 'h mqtt \<Rightarrow> mqtt_health_error option" where
  "mqtt_Health is_open m =
    (case mq_client m of
       None \<Rightarrow> Some NotLoggedIn
     | Some c \<Rightarrow> if \<not> is_open c then Some NotConnected else None)"

section \<open>Status of the devices\<close>

text \<open>The topic is split at slashes; its last part is the serial number. \<open>[]\<close> means none.\<close>

definition getSnFromTopic :: "gostring \<Rightarrow> gostring" where
  "getSnFromTopic topic = (if topic = [] then [] else last (split_on (CHR ''/'') topic))"

definition markReceived :: "time \<Rightarrow> gostring \<Rightarrow> 'h mqtt \<Rightarrow> bool \<times> 'h mqtt" where
  "markReceived now sn m =
    (fmlookup (mq_offlineSent m) sn \<noteq> None,
     m\<lparr>mq_lastReceived := fmupd sn now (mq_lastReceived m), mq_reconnectDelay := 0, mq_nextReconnect := 0,
       mq_fruitlessReconnects := 0, mq_offlineSent := fmdrop sn (mq_offlineSent m)\<rparr>)"

definition offlineDevices :: "time \<Rightarrow> gostring list \<Rightarrow> 'h mqtt \<Rightarrow> gostring list" where
  "offlineDevices now ks m =
     filter (\<lambda>sn. case fmlookup (mq_lastReceived m) sn of
               None \<Rightarrow> False
             | Some last_time \<Rightarrow> time_sub now last_time > mq_offlineThreshold m) ks"

fun updates_due ::
  "time \<Rightarrow> duration \<Rightarrow> gostring list \<Rightarrow> (gostring, time) fmap \<Rightarrow> gostring list \<times> (gostring, time) fmap" where
  "updates_due now threshold [] sent = ([], sent)"
| "updates_due now threshold (sn # sns) sent =
    (if (case fmlookup sent sn of None \<Rightarrow> True | Some last_time \<Rightarrow> time_sub now last_time \<ge> threshold)
     then (case updates_due now threshold sns (fmupd sn now sent) of (due, sent') \<Rightarrow> (sn # due, sent'))
     else updates_due now threshold sns sent)"

definition offlineUpdatesDue :: "time \<Rightarrow> gostring list \<Rightarrow> 'h mqtt \<Rightarrow> gostring list \<times> 'h mqtt" where
  "offlineUpdatesDue now offline m =
    (case updates_due now (mq_offlineThreshold m) offline (mq_offlineSent m) of
       (due, sent) \<Rightarrow> (due, m\<lparr>mq_offlineSent := sent\<rparr>))"

definition reconnectDue :: "time \<Rightarrow> 'h mqtt \<Rightarrow> bool \<times> 'h mqtt" where
  "reconnectDue now m =
    (if now < mq_nextReconnect m then (False, m)
     else
       (let delay = min (max (wrap64 (2 * mq_reconnectDelay m)) (mq_offlineThreshold m)) maxReconnectDelay
        in (True, m\<lparr>mq_reconnectDelay := delay, mq_nextReconnect := now + delay\<rparr>)))"

definition reloginDue :: "'h mqtt \<Rightarrow> bool \<times> 'h mqtt" where
  "reloginDue m =
    (let fruitless = mq_fruitlessReconnects m + 1 in
     if fruitless \<ge> reloginAfterReconnects
     then (True, m\<lparr>mq_fruitlessReconnects := 0\<rparr>)
     else (False, m\<lparr>mq_fruitlessReconnects := fruitless\<rparr>))"

text \<open>The loop visits the devices in the order \<open>ks\<close>.\<close>

definition initDeviceStatuses :: "time \<Rightarrow> gostring list \<Rightarrow> 'h mqtt \<Rightarrow> 'h mqtt" where
  "initDeviceStatuses now ks m =
     m\<lparr>mq_lastReceived :=
         fold (\<lambda>sn r. if fmlookup r sn = None then fmupd sn now r else r) ks (mq_lastReceived m)\<rparr>"

section \<open>The invariant of the status\<close>

text \<open>
  Only configured devices have a status, only devices with a status can be offline, the delay
  between reconnects is bounded and there are never more fruitless reconnects than it takes to
  log in again.
\<close>

definition status_inv :: "'h mqtt \<Rightarrow> bool" where
  "status_inv m \<longleftrightarrow>
     fmdom (mq_lastReceived m) |\<subseteq>| fmdom (mq_devices m)
     \<and> fmdom (mq_offlineSent m) |\<subseteq>| fmdom (mq_lastReceived m)
     \<and> 0 < mq_offlineThreshold m
     \<and> 0 \<le> mq_reconnectDelay m \<and> mq_reconnectDelay m \<le> maxReconnectDelay
     \<and> 0 \<le> mq_fruitlessReconnects m \<and> mq_fruitlessReconnects m < reloginAfterReconnects"

lemma reconnect_delay_bounds:
  assumes "0 \<le> d" and "d \<le> maxReconnectDelay" and "0 < t"
  shows "wrap64 (2 * d) = 2 * d"
    and "0 < min (max (wrap64 (2 * d)) t) maxReconnectDelay"
    and "min (max (wrap64 (2 * d)) t) maxReconnectDelay \<le> maxReconnectDelay"
proof -
  show w: "wrap64 (2 * d) = 2 * d"
    using assms by (intro wrap64_small) (auto simp: maxReconnectDelay_def)
  show "0 < min (max (wrap64 (2 * d)) t) maxReconnectDelay"
    using assms(3) by (simp add: w maxReconnectDelay_def)
qed simp

named_theorems status_intros \<open>the operations keep the invariant of the status\<close>

lemma NewMqtt_inv: "NewMqttMetricsExporter cfg hs = Inr m \<Longrightarrow> status_inv m"
  by (auto simp: NewMqttMetricsExporter_def status_inv_def maxReconnectDelay_def reloginAfterReconnects_def
      split: if_splits)

lemma requestRelogin_inv [status_intros]: "status_inv m \<Longrightarrow> status_inv (requestRelogin m)"
  by (simp add: requestRelogin_def status_inv_def)

lemma markReceived_inv [status_intros]:
  "status_inv m \<Longrightarrow> sn |\<in>| fmdom (mq_devices m) \<Longrightarrow> status_inv (snd (markReceived now sn m))"
  by (auto simp: markReceived_def status_inv_def maxReconnectDelay_def reloginAfterReconnects_def)

lemma updates_due_dom:
  "updates_due now t sns sent = (due, sent') \<Longrightarrow> fset (fmdom sent') \<subseteq> fset (fmdom sent) \<union> set sns"
  by (induction sns arbitrary: sent due) (fastforce split: if_splits prod.splits)+

lemma offlineUpdatesDue_inv [status_intros]:
  assumes "status_inv m" and "set offline \<subseteq> fset (fmdom (mq_lastReceived m))"
  shows "status_inv (snd (offlineUpdatesDue now offline m))"
proof -
  obtain due sent where u: "updates_due now (mq_offlineThreshold m) offline (mq_offlineSent m) = (due, sent)"
    by (metis surj_pair)
  from updates_due_dom [OF u] assms have "fmdom sent |\<subseteq>| fmdom (mq_lastReceived m)"
    by (auto simp: status_inv_def)
  with assms(1) show ?thesis by (simp add: offlineUpdatesDue_def u status_inv_def)
qed

lemma reconnectDue_inv [status_intros]: "status_inv m \<Longrightarrow> status_inv (snd (reconnectDue now m))"
  using reconnect_delay_bounds [of "mq_reconnectDelay m" "mq_offlineThreshold m"]
  by (auto simp: reconnectDue_def status_inv_def Let_def)

lemma reloginDue_inv [status_intros]: "status_inv m \<Longrightarrow> status_inv (snd (reloginDue m))"
  by (auto simp: reloginDue_def status_inv_def Let_def reloginAfterReconnects_def)

lemma init_lookup:
  "fmlookup (fold (\<lambda>sn r. if fmlookup r sn = None then fmupd sn now r else r) ks r) sn =
    (case fmlookup r sn of Some t \<Rightarrow> Some t | None \<Rightarrow> if sn \<in> set ks then Some now else None)"
  by (induction ks arbitrary: r) (auto split: option.split)

lemma initDeviceStatuses_inv [status_intros]:
  assumes "status_inv m" and "range_order (mq_devices m) ks"
  shows "status_inv (initDeviceStatuses now ks m)"
proof -
  let ?r = "fold (\<lambda>sn r. if fmlookup r sn = None then fmupd sn now r else r) ks (mq_lastReceived m)"
  have "fmdom (mq_lastReceived m) |\<subseteq>| fmdom ?r"
    by (auto simp: fmlookup_dom_iff init_lookup split: option.split)
  moreover have "fmdom ?r |\<subseteq>| fmdom (mq_devices m)"
  proof (rule fsubsetI)
    fix sn assume "sn |\<in>| fmdom ?r"
    then have "sn |\<in>| fmdom (mq_lastReceived m) \<or> sn \<in> set ks"
      by (auto simp: fmlookup_dom_iff init_lookup split: option.splits if_splits)
    with assms show "sn |\<in>| fmdom (mq_devices m)"
      by (auto simp: status_inv_def range_order_set)
  qed
  ultimately show ?thesis
    using assms(1) by (auto simp: initDeviceStatuses_def status_inv_def)
qed

section \<open>What the operations do\<close>

lemma offlineDevices_mem:
  assumes "range_order (mq_lastReceived m) ks" and "0 < mq_offlineThreshold m" "mq_offlineThreshold m < 2 ^ 63 - 1"
  shows "sn \<in> set (offlineDevices now ks m) \<longleftrightarrow>
    (\<exists>t. fmlookup (mq_lastReceived m) sn = Some t \<and> now - t > mq_offlineThreshold m)"
  using assms by (auto simp: offlineDevices_def range_order_mem time_sub_def split: option.splits)

definition update_due :: "time \<Rightarrow> duration \<Rightarrow> (gostring, time) fmap \<Rightarrow> gostring \<Rightarrow> bool" where
  "update_due now t sent sn =
    (case fmlookup sent sn of None \<Rightarrow> True | Some l \<Rightarrow> time_sub now l \<ge> t)"

lemma updates_due_spec:
  "distinct sns \<Longrightarrow> updates_due now t sns sent = (due, sent') \<Longrightarrow>
   due = filter (update_due now t sent) sns
   \<and> (\<forall>sn. fmlookup sent' sn = (if sn \<in> set due then Some now else fmlookup sent sn))"
proof (induction sns arbitrary: sent due)
  case (Cons x sns)
  show ?case
  proof (cases "update_due now t sent x")
    case True
    obtain due' where d: "updates_due now t sns (fmupd x now sent) = (due', sent')" "due = x # due'"
      using Cons.prems(2) True by (auto simp: update_due_def split: prod.splits if_splits)
    have f: "filter (update_due now t (fmupd x now sent)) sns = filter (update_due now t sent) sns"
      using Cons.prems(1) by (intro filter_cong) (auto simp: update_due_def)
    have ih: "due' = filter (update_due now t (fmupd x now sent)) sns"
      "\<And>sn. fmlookup sent' sn = (if sn \<in> set due' then Some now else fmlookup (fmupd x now sent) sn)"
      using Cons.IH [OF _ d(1)] Cons.prems(1) by simp_all
    show ?thesis using True ih f d(2) by auto
  next
    case False
    then have "updates_due now t sns sent = (due, sent')"
      using Cons.prems(2) by (auto simp: update_due_def split: if_splits)
    with False Cons show ?thesis by simp
  qed
qed auto

section \<open>Sequences of operations without a message in between\<close>

text \<open>The calls of \<open>reconnectDue\<close> at the times \<open>ts\<close>: the times at which a reconnect was due.\<close>

fun reconnect_run :: "time list \<Rightarrow> 'h mqtt \<Rightarrow> time list \<times> 'h mqtt" where
  "reconnect_run [] m = ([], m)"
| "reconnect_run (t # ts) m =
    (case reconnectDue t m of
       (due, m) \<Rightarrow>
         (case reconnect_run ts m of (dues, m) \<Rightarrow> (if due then t # dues else dues, m)))"

text \<open>The delay after the \<open>n\<close>-th reconnect without data: it doubles up to ten minutes.\<close>

definition reconnect_backoff :: "duration \<Rightarrow> nat \<Rightarrow> duration" where
  "reconnect_backoff threshold n = (if n = 0 then 0 else min (threshold * 2 ^ (n - 1)) maxReconnectDelay)"

lemma reconnect_backoff_bounds:
  "0 < threshold \<Longrightarrow> 0 \<le> reconnect_backoff threshold n \<and> reconnect_backoff threshold n \<le> maxReconnectDelay"
  by (simp add: reconnect_backoff_def maxReconnectDelay_def)

lemma reconnect_backoff_Suc:
  assumes "0 < t"
  shows "min (max (wrap64 (2 * reconnect_backoff t n)) t) maxReconnectDelay = reconnect_backoff t (Suc n)"
proof -
  have w: "wrap64 (2 * reconnect_backoff t n) = 2 * reconnect_backoff t n"
    using reconnect_backoff_bounds [OF assms, of n] by (intro reconnect_delay_bounds(1) [where t = t]) (use assms in auto)
  show ?thesis
  proof (cases n)
    case 0
    with assms show ?thesis by (simp add: reconnect_backoff_def wrap64_small)
  next
    case (Suc k)
    define p where "p = t * 2 ^ k"
    have "t * 1 \<le> t * 2 ^ k" using assms by (intro mult_left_mono) simp_all
    then have p: "t \<le> p" by (simp add: p_def)
    have "reconnect_backoff t n = min p maxReconnectDelay"
      "reconnect_backoff t (Suc n) = min (2 * p) maxReconnectDelay"
      using Suc by (simp_all add: reconnect_backoff_def p_def mult_ac)
    with p assms show ?thesis
      unfolding w by (simp add: min_def max_def maxReconnectDelay_def)
  qed
qed

lemma reconnectDue_backoff:
  assumes "0 < mq_offlineThreshold m" and "mq_reconnectDelay m = reconnect_backoff (mq_offlineThreshold m) n"
  shows "reconnectDue t m =
    (if t < mq_nextReconnect m then (False, m)
     else (True, m\<lparr>mq_reconnectDelay := reconnect_backoff (mq_offlineThreshold m) (Suc n),
                   mq_nextReconnect := t + reconnect_backoff (mq_offlineThreshold m) (Suc n)\<rparr>))"
  using assms reconnect_backoff_Suc [OF assms(1), of n] by (simp add: reconnectDue_def Let_def)

text \<open>Times with at least the gap \<open>gap i\<close> between the \<open>i\<close>-th and the next one.\<close>

fun spaced :: "(nat \<Rightarrow> duration) \<Rightarrow> time list \<Rightarrow> bool" where
  "spaced gap (t # u # ts) = (t + gap 0 \<le> u \<and> spaced (gap \<circ> Suc) (u # ts))"
| "spaced gap _ = True"

lemma spaced_Cons: "spaced gap (t # ts) \<longleftrightarrow> (ts \<noteq> [] \<longrightarrow> t + gap 0 \<le> hd ts) \<and> spaced (gap \<circ> Suc) ts"
  by (cases ts) auto

lemma reconnect_run_backoff:
  assumes "0 < mq_offlineThreshold m" and "mq_reconnectDelay m = reconnect_backoff (mq_offlineThreshold m) n"
    and "reconnect_run ts m = (dues, m')"
  shows "mq_reconnectDelay m' = reconnect_backoff (mq_offlineThreshold m) (n + length dues)
    \<and> spaced (\<lambda>i. reconnect_backoff (mq_offlineThreshold m) (n + Suc i)) dues
    \<and> (dues \<noteq> [] \<longrightarrow> mq_nextReconnect m \<le> hd dues)"
  using assms
proof (induction ts arbitrary: m n dues)
  case (Cons t ts)
  show ?case
  proof (cases "t < mq_nextReconnect m")
    case True
    with Cons.prems have "reconnect_run ts m = (dues, m')"
      by (simp add: reconnectDue_def split: prod.splits)
    from Cons.IH [OF Cons.prems(1,2) this] show ?thesis .
  next
    case False
    let ?m = "m\<lparr>mq_reconnectDelay := reconnect_backoff (mq_offlineThreshold m) (Suc n),
                 mq_nextReconnect := t + reconnect_backoff (mq_offlineThreshold m) (Suc n)\<rparr>"
    from False Cons.prems(3) obtain dues' where d: "reconnect_run ts ?m = (dues', m')" "dues = t # dues'"
      by (auto simp: reconnectDue_backoff [OF Cons.prems(1,2)] split: prod.splits)
    have "mq_reconnectDelay m' = reconnect_backoff (mq_offlineThreshold m) (Suc n + length dues')
      \<and> spaced (\<lambda>i. reconnect_backoff (mq_offlineThreshold m) (Suc n + Suc i)) dues'
      \<and> (dues' \<noteq> [] \<longrightarrow> t + reconnect_backoff (mq_offlineThreshold m) (Suc n) \<le> hd dues')"
      using Cons.IH [of ?m "Suc n" dues'] Cons.prems(1) d(1) by simp
    with False d(2) show ?thesis by (simp add: spaced_Cons comp_def)
  qed
qed simp

text \<open>The calls of \<open>reloginDue\<close>: their answers.\<close>

fun relogin_run :: "nat \<Rightarrow> 'h mqtt \<Rightarrow> bool list" where
  "relogin_run 0 m = []"
| "relogin_run (Suc n) m = (case reloginDue m of (due, m) \<Rightarrow> due # relogin_run n m)"

lemma relogin_run_nth:
  assumes "mq_fruitlessReconnects m = int k" and "k < 3" and "i < n"
  shows "relogin_run n m ! i \<longleftrightarrow> (k + i + 1) mod 3 = 0"
  using assms
proof (induction n arbitrary: m k i)
  case (Suc n)
  show ?case
  proof (cases i)
    case 0
    with Suc.prems show ?thesis
      by (cases "k = 2") (auto simp: reloginDue_def Let_def reloginAfterReconnects_def)
  next
    case (Suc j)
    show ?thesis
    proof (cases "k = 2")
      case True
      have "relogin_run n (m\<lparr>mq_fruitlessReconnects := 0\<rparr>) ! j \<longleftrightarrow> (0 + j + 1) mod 3 = 0"
        using Suc.prems Suc by (intro Suc.IH) auto
      moreover have "(k + i + 1) mod 3 = (j + 1) mod 3" using True Suc by simp presburger
      ultimately show ?thesis
        using True Suc Suc.prems by (simp add: reloginDue_def Let_def reloginAfterReconnects_def)
    next
      case False
      have "relogin_run n (m\<lparr>mq_fruitlessReconnects := int (k + 1)\<rparr>) ! j \<longleftrightarrow> (k + 1 + j + 1) mod 3 = 0"
        using Suc.prems Suc False by (intro Suc.IH) auto
      moreover have "int k + 1 < 3" using False Suc.prems by simp
      ultimately show ?thesis
        using False Suc Suc.prems by (simp add: reloginDue_def Let_def reloginAfterReconnects_def add.commute)
    qed
  qed
qed simp

text \<open>
  The rounds of the monitor for the offline devices: each round is a time and the list of the
  devices that are offline then. The result is the times at which an update of \<open>sn\<close> was due.
\<close>

fun offline_run :: "gostring \<Rightarrow> (time \<times> gostring list) list \<Rightarrow> 'h mqtt \<Rightarrow> time list \<times> 'h mqtt" where
  "offline_run sn [] m = ([], m)"
| "offline_run sn ((now, offline) # rounds) m =
    (case offlineUpdatesDue now offline m of
       (due, m) \<Rightarrow>
         (case offline_run sn rounds m of (sent, m) \<Rightarrow> (if sn \<in> set due then now # sent else sent, m)))"

lemma offlineUpdatesDue_spec:
  assumes "distinct offline" and "offlineUpdatesDue now offline m = (due, m')"
  shows "sn \<in> set due \<longleftrightarrow> sn \<in> set offline \<and> update_due now (mq_offlineThreshold m) (mq_offlineSent m) sn"
    and "fmlookup (mq_offlineSent m') sn = (if sn \<in> set due then Some now else fmlookup (mq_offlineSent m) sn)"
    and "mq_offlineThreshold m' = mq_offlineThreshold m"
proof -
  obtain sent where u: "updates_due now (mq_offlineThreshold m) offline (mq_offlineSent m) = (due, sent)"
    "m' = m\<lparr>mq_offlineSent := sent\<rparr>"
    using assms(2) by (auto simp: offlineUpdatesDue_def split: prod.splits)
  note spec = updates_due_spec [OF assms(1) u(1)]
  show "sn \<in> set due \<longleftrightarrow> sn \<in> set offline \<and> update_due now (mq_offlineThreshold m) (mq_offlineSent m) sn"
    and "fmlookup (mq_offlineSent m') sn = (if sn \<in> set due then Some now else fmlookup (mq_offlineSent m) sn)"
    and "mq_offlineThreshold m' = mq_offlineThreshold m"
    using spec u(2) by auto
qed

lemma offline_run_spaced:
  assumes "\<forall>(now, offline) \<in> set rounds. distinct offline" and "0 < mq_offlineThreshold m" "mq_offlineThreshold m < 2 ^ 63"
    and "offline_run sn rounds m = (sent, m')"
  shows "spaced (\<lambda>i. mq_offlineThreshold m) sent
    \<and> (\<forall>l. fmlookup (mq_offlineSent m) sn = Some l \<and> sent \<noteq> [] \<longrightarrow> l + mq_offlineThreshold m \<le> hd sent)"
  using assms
proof (induction rounds arbitrary: m sent)
  case (Cons r rounds)
  obtain now offline where r: "r = (now, offline)" by (cases r)
  obtain due m1 where d: "offlineUpdatesDue now offline m = (due, m1)" by (metis surj_pair)
  obtain sent' where t: "offline_run sn rounds m1 = (sent', m')" "sent = (if sn \<in> set due then now # sent' else sent')"
    using Cons.prems(4) r d by (auto split: prod.splits)
  have dist: "distinct offline" using Cons.prems(1) r by simp
  note spec = offlineUpdatesDue_spec [OF dist d]
  have IH: "spaced (\<lambda>i. mq_offlineThreshold m) sent'
      \<and> (\<forall>l. fmlookup (mq_offlineSent m1) sn = Some l \<and> sent' \<noteq> [] \<longrightarrow> l + mq_offlineThreshold m \<le> hd sent')"
    using Cons.IH [of m1 sent'] Cons.prems t(1) spec(3) by simp
  show ?case
  proof (cases "sn \<in> set due")
    case True
    have "l + mq_offlineThreshold m \<le> now" if "fmlookup (mq_offlineSent m) sn = Some l" for l
      using True spec(1) that Cons.prems(2,3) by (auto simp: update_due_def time_sub_def)
    with True IH t(2) spec(2) [of sn] show ?thesis by (auto simp: spaced_Cons comp_def)
  next
    case False
    with IH t(2) spec(2) [of sn] show ?thesis by simp
  qed
qed simp

section \<open>Properties\<close>

text \<open>The constructor accepts exactly the configurations with credentials, at least one device
  and one handler and three positive durations; an exporter it makes has that configuration and a
  status in which its invariant holds.\<close>
theorem constructor_validates:
  "((\<exists>m. NewMqttMetricsExporter cfg hs = Inr m) \<longleftrightarrow>
     mc_Email cfg \<noteq> [] \<and> mc_Password cfg \<noteq> [] \<and> mc_Devices cfg \<noteq> fmempty \<and> hs \<noteq> []
     \<and> 0 < mc_OfflineThreshold cfg \<and> 0 < mc_PingInterval cfg \<and> 0 < mc_StateRefreshInterval cfg)
   \<and> (case NewMqttMetricsExporter cfg hs of
        Inl e \<Rightarrow> True
      | Inr m \<Rightarrow> status_inv m \<and> mq_client m = None \<and> mq_devices m = mc_Devices cfg \<and> mq_handlers m = hs)"
  by (auto simp: NewMqttMetricsExporter_def go_len_zero_iff status_inv_def maxReconnectDelay_def
      reloginAfterReconnects_def)

text \<open>C20: While no message arrives, the forced reconnects back off: whenever the monitor asks, the
  reconnects that are due are apart by the offline threshold, then twice, four times as long and so
  on, but never more than ten minutes, and the multiplication by two never wraps around.\<close>
theorem reconnects_back_off:
  assumes "0 < mq_offlineThreshold m" and "mq_reconnectDelay m = 0" and "reconnect_run ts m = (dues, m')"
  shows "spaced (\<lambda>i. min (mq_offlineThreshold m * 2 ^ i) maxReconnectDelay) dues
    \<and> mq_reconnectDelay m' = (if dues = [] then 0 else min (mq_offlineThreshold m * 2 ^ (length dues - 1)) maxReconnectDelay)"
  using reconnect_run_backoff [OF assms(1) _ assms(3), of 0] assms(2) by (simp add: reconnect_backoff_def)

text \<open>C21: While no message arrives, exactly every third of the due reconnects is replaced by a new
  login: two reconnects are tried before each login.\<close>
theorem every_third_reconnect_is_login:
  assumes "mq_fruitlessReconnects m = 0" and "i < n"
  shows "relogin_run n m ! i \<longleftrightarrow> i mod 3 = 2"
  using relogin_run_nth [of m 0 i n] assms by simp presburger

text \<open>C22: However often the monitor checks, and whichever devices it finds offline, the offline
  updates of one device are at least the offline threshold apart while it sends no message.\<close>
theorem offline_updates_rate_limited:
  assumes "\<forall>(now, offline) \<in> set rounds. distinct offline" and "0 < mq_offlineThreshold m" "mq_offlineThreshold m < 2 ^ 63"
    and "offline_run sn rounds m = (sent, m')"
  shows "spaced (\<lambda>i. mq_offlineThreshold m) sent"
  using offline_run_spaced [OF assms] by blast

section \<open>Witnesses\<close>

definition sample_status :: "unit mqtt" where
  "sample_status =
     \<lparr>mq_email = ''a@b.c'', mq_password = ''pw'', mq_client = Some 1,
      mq_devices = fmupd ''R1'' ''garage'' fmempty, mq_handlers = [()],
      mq_offlineThreshold = 2 * minute, mq_pingInterval = 20 * second,
      mq_stateRefreshInterval = 300 * second, mq_deviceState = fmempty,
      mq_decoder = NewProtobufDecoder False, mq_telemetry = None, mq_userId = ''u7'', mq_relogin = False,
      mq_lastReceived = fmempty, mq_offlineSent = fmempty, mq_reconnectDelay = 0, mq_nextReconnect = 0,
      mq_fruitlessReconnects = 0, mq_pingOK = fmempty, mq_pingFailed = fmempty\<rparr>"

theorem reconnects_back_off_witness:
  "spaced (\<lambda>i. min (2 * minute * 2 ^ i) maxReconnectDelay)
     (fst (reconnect_run [minute, 2 * minute, 3 * minute, 4 * minute, 7 * minute, 20 * minute] sample_status))
   \<and> fst (reconnect_run [minute, 2 * minute, 3 * minute, 4 * minute, 7 * minute, 20 * minute] sample_status)
       = [minute, 3 * minute, 7 * minute, 20 * minute]"
proof -
  let ?ts = "[minute, 2 * minute, 3 * minute, 4 * minute, 7 * minute, 20 * minute]"
  obtain dues m' where r: "reconnect_run ?ts sample_status = (dues, m')" by (metis surj_pair)
  have "fst (reconnect_run ?ts sample_status) = [minute, 3 * minute, 7 * minute, 20 * minute]"
    by (simp add: reconnectDue_def Let_def sample_status_def maxReconnectDelay_def wrap64_small)
  moreover have "0 < mq_offlineThreshold sample_status" "mq_reconnectDelay sample_status = 0"
    "mq_offlineThreshold sample_status = 2 * minute" by (simp_all add: sample_status_def)
  ultimately show ?thesis using reconnects_back_off [OF _ _ r] r by auto
qed

theorem every_third_reconnect_is_login_witness:
  "relogin_run 6 sample_status ! 2 \<and> \<not> relogin_run 6 sample_status ! 3"
  using every_third_reconnect_is_login [of sample_status 2 6] every_third_reconnect_is_login [of sample_status 3 6]
  by (simp add: sample_status_def)

theorem offline_updates_rate_limited_witness:
  "spaced (\<lambda>i. 2 * minute)
     (fst (offline_run ''R1'' [(minute, [''R1'']), (2 * minute, [''R1'']), (3 * minute, [''R1''])] sample_status))
   \<and> fst (offline_run ''R1'' [(minute, [''R1'']), (2 * minute, [''R1'']), (3 * minute, [''R1''])] sample_status)
       = [minute, 3 * minute]"
proof -
  let ?rs = "[(minute, [''R1'']), (2 * minute, [''R1'']), (3 * minute, [''R1''])]"
  obtain sent m' where r: "offline_run ''R1'' ?rs sample_status = (sent, m')" by (metis surj_pair)
  have "fst (offline_run ''R1'' ?rs sample_status) = [minute, 3 * minute]"
    by (simp add: offlineUpdatesDue_def sample_status_def time_sub_def)
  moreover have "mq_offlineThreshold sample_status = 2 * minute" by (simp add: sample_status_def)
  ultimately show ?thesis using offline_updates_rate_limited [OF _ _ _ r] r by auto
qed

end
