(* ===== verification/Go_Json_Encode.thy ===== *)
theory Go_Json_Encode
  imports Go_Json
begin

text \<open>
  \<open>json.Marshal\<close> for the values the exporter encodes: strings, integers and maps with string
  keys, whose members are written in the order of their keys. The main result is that the
  decoder of \<^theory_text>\<open>Go_Json\<close> reads back what the encoder writes (\<open>parse_marshal\<close>), for texts in
  ASCII and integers that a \<open>float64\<close> represents exactly.
\<close>

section \<open>Encoding\<close>

datatype json_out =
    JString gostring
  | JInt int
  | JObject "(gostring \<times> json_out) list"

definition escape_ascii :: "char \<Rightarrow> gostring" where
  "escape_ascii c =
    (if c = CHR 0x22 \<or> c = CHR 0x5C then [CHR 0x5C, c]
     else if c = CHR 0x08 then [CHR 0x5C, CHR ''b'']
     else if c = CHR 0x0C then [CHR 0x5C, CHR ''f'']
     else if c = CHR 0x0A then [CHR 0x5C, CHR ''n'']
     else if c = CHR 0x0D then [CHR 0x5C, CHR ''r'']
     else if c = CHR 0x09 then [CHR 0x5C, CHR ''t'']
     else if code c < 32 \<or> c = CHR ''<'' \<or> c = CHR ''>'' \<or> c = CHR ''&''
     then [CHR 0x5C, CHR ''u'', CHR ''0'', CHR ''0'', hex_digit (code c div 16), hex_digit (code c mod 16)]
     else [c])"

text \<open>Outside ASCII: invalid bytes become an escape, and so do U+2028 and U+2029.\<close>

function json_escape :: "gostring \<Rightarrow> gostring" where
  "json_escape [] = []"
| "json_escape (c # cs) =
    (if code c < 128 then escape_ascii c @ json_escape cs
     else (case decode_rune (c # cs) of
             (r, w) \<Rightarrow>
               (if r = rune_error \<and> w = 1 then [CHR 0x5C, CHR ''u'', CHR ''f'', CHR ''f'', CHR ''f'', CHR ''d'']
                else if r = 8232 \<or> r = 8233
                then [CHR 0x5C, CHR ''u'', CHR ''2'', CHR ''0'', CHR ''2'', hex_digit (r mod 16)]
                else take w (c # cs)) @ json_escape (drop w (c # cs))))"
  by pat_completeness auto
termination
proof (relation "measure length", goal_cases)
  case (3 c cs)
  then show ?case using decode_rune_width_pos [of "c # cs"] by (cases "decode_rune (c # cs)") auto
qed simp_all

definition json_quote :: "gostring \<Rightarrow> gostring" where
  "json_quote s = CHR 0x22 # json_escape s @ [CHR 0x22]"

fun join_members :: "(gostring \<times> gostring) list \<Rightarrow> gostring" where
  "join_members [] = []"
| "join_members [(k, t)] = json_quote k @ CHR '':'' # t"
| "join_members ((k, t) # m # ms) = json_quote k @ CHR '':'' # t @ CHR '','' # join_members (m # ms)"

text \<open>The members in the order of their keys, which are compared byte by byte.\<close>

fun key_less :: "gostring \<Rightarrow> gostring \<Rightarrow> bool" where
  "key_less _ [] = False"
| "key_less [] (_ # _) = True"
| "key_less (a # as) (b # bs) = (code a < code b \<or> a = b \<and> key_less as bs)"

fun insert_member :: "gostring \<times> 'a \<Rightarrow> (gostring \<times> 'a) list \<Rightarrow> (gostring \<times> 'a) list" where
  "insert_member m [] = [m]"
| "insert_member m (n # ns) = (if key_less (fst n) (fst m) then n # insert_member m ns else m # n # ns)"

definition sort_members :: "(gostring \<times> 'a) list \<Rightarrow> (gostring \<times> 'a) list" where
  "sort_members ms = foldr insert_member ms []"

fun json_marshal :: "json_out \<Rightarrow> gostring" where
  "json_marshal (JString s) = json_quote s"
| "json_marshal (JInt n) = format_int n"
| "json_marshal (JObject ms) =
     CHR ''{'' # join_members (sort_members (map (\<lambda>(k, v). (k, json_marshal v)) ms)) @ [CHR ''}'']"

section \<open>Reading back\<close>

text \<open>The value that decoding the text gives.\<close>

fun json_value :: "json_out \<Rightarrow> goval" where
  "json_value (JString s) = VString s"
| "json_value (JInt n) = VFloat64 (f64_of_int n)"
| "json_value (JObject ms) = VObject (sort_members (map (\<lambda>(k, v). (k, json_value v)) ms))"

definition ascii_text :: "gostring \<Rightarrow> bool" where
  "ascii_text s \<longleftrightarrow> list_all (\<lambda>c. code c < 128) s"

fun json_plain :: "json_out \<Rightarrow> bool" where
  "json_plain (JString s) \<longleftrightarrow> ascii_text s"
| "json_plain (JInt n) \<longleftrightarrow> 0 \<le> n \<and> n < 2 ^ 53"
| "json_plain (JObject ms) \<longleftrightarrow> list_all (\<lambda>(k, v). ascii_text k \<and> json_plain v) ms"

fun json_depth :: "json_out \<Rightarrow> nat" where
  "json_depth (JObject ms) = Suc (Max (insert 0 (set (map (\<lambda>(k, v). json_depth v) ms))))"
| "json_depth _ = 0"

lemma insert_member_map: "insert_member (k, f v) (map (\<lambda>(k, v). (k, f v)) ms) = map (\<lambda>(k, v). (k, f v)) (insert_member (k, v) ms)"
  by (induction ms) auto

lemma sort_members_map: "sort_members (map (\<lambda>(k, v). (k, f v)) ms) = map (\<lambda>(k, v). (k, f v)) (sort_members ms)"
  by (induction ms) (auto simp: sort_members_def insert_member_map)

lemma set_insert_member: "set (insert_member m ms) = insert m (set ms)"
  by (induction ms) auto

lemma set_sort_members: "set (sort_members ms) = set ms"
  by (induction ms) (auto simp: sort_members_def set_insert_member)

lemma sort_members_Nil_iff: "sort_members ms = [] \<longleftrightarrow> ms = []"
  using set_sort_members [of ms] by (metis set_empty)

text \<open>One escape is read back as the character it stands for.\<close>

lemma hex_value_digit: "n < 16 \<Longrightarrow> hex_value (hex_digit n) = Some n"
  by (auto simp: hex_value_def hex_digit_def)

lemma unicode_escape_low:
  assumes "n < 128"
  shows "unicode_escape (CHR ''0'' # CHR ''0'' # hex_digit (n div 16) # hex_digit (n mod 16) # rest) = Some (n, 4)"
proof -
  have "hex_value (CHR ''0'') = Some 0" by (simp add: hex_value_def code_def)
  moreover have "n div 16 < 16" "n mod 16 < 16" using assms by simp_all
  ultimately have "hex4 (CHR ''0'' # CHR ''0'' # hex_digit (n div 16) # hex_digit (n mod 16) # rest) = Some n"
    by (simp add: hex_value_digit)
  with assms show ?thesis by (simp add: unicode_escape_def)
qed

lemma parse_string_plain:
  assumes "32 \<le> code c" "code c < 128" "c \<noteq> CHR 0x22" "c \<noteq> CHR 0x5C"
  shows "parse_string (c # r) = map_option (\<lambda>(t, rest). (c # t, rest)) (parse_string r)"
proof -
  have "string_unit c r = Some ([c], r)"
    using assms by (simp add: string_unit_def code_def)
  with assms(3) show ?thesis by (simp add: comp_def)
qed

lemma parse_string_simple:
  assumes "simple_escape e = Some c" and "e \<noteq> CHR ''u''"
  shows "parse_string (CHR 0x5C # e # r) = map_option (\<lambda>(t, rest). (c # t, rest)) (parse_string r)"
proof -
  have "string_unit (CHR 0x5C) (e # r) = Some ([c], r)"
    using assms by (simp add: string_unit_def code_def)
  then show ?thesis by simp
qed

lemma parse_string_unicode:
  assumes "code c < 128"
  shows "parse_string (CHR 0x5C # CHR ''u'' # CHR ''0'' # CHR ''0'' # hex_digit (code c div 16)
      # hex_digit (code c mod 16) # r) = map_option (\<lambda>(t, rest). (c # t, rest)) (parse_string r)"
proof -
  have "string_unit (CHR 0x5C) (CHR ''u'' # CHR ''0'' # CHR ''0'' # hex_digit (code c div 16)
      # hex_digit (code c mod 16) # r) = Some ([c], r)"
    using assms by (simp add: string_unit_def unicode_escape_low code_def)
  then show ?thesis by simp
qed

lemma parse_escape_ascii:
  assumes "code c < 128"
  shows "parse_string (escape_ascii c @ r) = map_option (\<lambda>(t, rest). (c # t, rest)) (parse_string r)"
  using assms parse_string_unicode [OF assms] parse_string_plain [of c r]
  by (auto simp: escape_ascii_def simple_escape_def parse_string_simple [of _ c] simp del: parse_string.simps)

lemma parse_escape:
  "ascii_text s \<Longrightarrow> parse_string (json_escape s @ CHR 0x22 # rest) = Some (s, rest)"
proof (induction s)
  case (Cons c s)
  then show ?case
    by (simp add: ascii_text_def parse_escape_ascii del: parse_string.simps)
qed simp

text \<open>A value is followed by the end of the text, a comma or a closing brace.\<close>

definition value_end :: "gostring \<Rightarrow> bool" where
  "value_end r \<longleftrightarrow> r = [] \<or> hd r = CHR '','' \<or> hd r = CHR ''}''"

lemma value_end_simps [simp]: "value_end []" "value_end (CHR '','' # r)" "value_end (CHR ''}'' # r)"
  by (simp_all add: value_end_def)

lemma parse_format_nat:
  assumes "value_end rest"
  shows "parse_number (format_nat n @ rest) = Some (Decimal False n 0, rest)"
proof -
  let ?ds = "format_nat n"
  have ds: "list_all is_digit ?ds" "?ds \<noteq> []" using format_nat_digits by blast+
  have stop: "rest = [] \<or> \<not> is_digit (hd rest)"
    using assms by (auto simp: value_end_def is_digit_def code_def)
  have split: "takeWhile is_digit (?ds @ rest) = ?ds" "dropWhile is_digit (?ds @ rest) = rest"
    using ds stop by (simp_all add: list_all_iff takeWhile_eq_Nil_iff dropWhile_eq_self_iff)
  obtain d ds' where d: "?ds = d # ds'" "is_digit d" using format_nat_head by blast
  have whole: "parse_whole (?ds @ rest) = Some (?ds, rest)"
  proof (cases "d = CHR ''0''")
    case True
    have "n = 0 \<or> ds' \<noteq> [] \<longrightarrow> ds' = []" using d(1) format_nat_zero [of n d ds'] True by blast
    then have "ds' = []" using d(1) True format_nat_zero [of n d ds'] by blast
    then show ?thesis using split d True by (simp add: parse_whole_def span_digits_def)
  next
    case False
    then show ?thesis using split d by (simp add: parse_whole_def span_digits_def)
  qed
  have "hd (?ds @ rest) \<noteq> CHR ''-''" using d by (auto simp: is_digit_def code_def)
  moreover have "parse_fraction rest = Some ([], rest)" "parse_exponent rest = Some (0, rest)"
    using assms by (auto simp: value_end_def parse_fraction_def parse_exponent_def split: list.split)
  ultimately show ?thesis using whole by (simp add: parse_number_def format_nat_value)
qed

lemma parse_value_nat:
  assumes "value_end rest" and "int n < 2 ^ 53"
  shows "parse_value (Suc f) d (format_nat n @ rest) = Some (VFloat64 (f64_of_int (int n)), rest)"
proof -
  obtain c ds where c: "format_nat n = c # ds" "is_digit c" using format_nat_head by blast
  have "parse_float (Decimal False n 0) = (f64_of_int (int n), True)"
  proof (cases "n = 0")
    case True
    then show ?thesis by (simp add: parse_float_zero f64_of_int_exact)
  next
    case False
    with assms(2) show ?thesis by (simp add: parse_float_nat f64_of_int_exact)
  qed
  moreover have "c \<noteq> CHR ''{''" "c \<noteq> CHR ''[''" "c \<noteq> CHR 0x22" "c \<noteq> CHR ''t''" "c \<noteq> CHR ''f''" "c \<noteq> CHR ''n''"
    using c(2) by (auto simp: is_digit_def code_def)
  moreover note parse_format_nat [OF assms(1), of n]
  ultimately show ?thesis using c(1) by simp
qed

text \<open>
  An encoded value is read back when there is fuel for its text and what follows it.
\<close>

definition reads :: "nat \<Rightarrow> gostring \<Rightarrow> goval \<Rightarrow> bool" where
  "reads d t v \<longleftrightarrow> t \<noteq> [] \<and> \<not> json_space (hd t) \<and>
     (\<forall>f rest. value_end rest \<longrightarrow> 2 * length (t @ rest) + 1 \<le> f \<longrightarrow> parse_value f d (t @ rest) = Some (v, rest))"

lemma readsD:
  "reads d t v \<Longrightarrow> value_end rest \<Longrightarrow> 2 * length (t @ rest) + 1 \<le> f \<Longrightarrow>
   parse_value f d (t @ rest) = Some (v, rest)"
  by (simp add: reads_def)

lemma skip_brace [simp]: "skip_space (CHR ''}'' # r) = CHR ''}'' # r" "skip_space (CHR '','' # r) = CHR '','' # r"
  "skip_space (CHR '':'' # r) = CHR '':'' # r" "skip_space (CHR 0x22 # r) = CHR 0x22 # r"
  by (simp_all add: skip_space_def json_space_def)

lemma join_members_head: "ms \<noteq> [] \<Longrightarrow> \<exists>r. join_members ms = CHR 0x22 # r"
  by (cases ms rule: join_members.cases) (simp_all add: json_quote_def)

lemma parse_members_join:
  assumes "es \<noteq> []" and "\<And>k t v. (k, t, v) \<in> set es \<Longrightarrow> ascii_text k \<and> reads d t v"
    and "2 * length (join_members (map (\<lambda>(k, t, v). (k, t)) es) @ CHR ''}'' # rest) + 2 \<le> f"
  shows "parse_members f d (join_members (map (\<lambda>(k, t, v). (k, t)) es) @ CHR ''}'' # rest) =
    Some (map (\<lambda>(k, t, v). (k, v)) es, rest)"
  using assms
proof (induction es arbitrary: f)
  case (Cons e es)
  obtain k t v where e: "e = (k, t, v)" by (cases e)
  have k: "ascii_text k" and t: "reads d t v" using Cons.prems(2) [of k t v] e by auto
  obtain g where f: "f = Suc g" using Cons.prems(3) by (cases f) auto
  define tail where "tail = (case es of [] \<Rightarrow> CHR ''}'' # rest
    | _ \<Rightarrow> CHR '','' # join_members (map (\<lambda>(k, t, v). (k, t)) es) @ CHR ''}'' # rest)"
  have whole: "join_members (map (\<lambda>(k, t, v). (k, t)) (e # es)) @ CHR ''}'' # rest
      = CHR 0x22 # json_escape k @ CHR 0x22 # CHR '':'' # t @ tail"
    by (cases es) (auto simp: e tail_def json_quote_def split: prod.split)
  have skip: "skip_space (t @ tail) = t @ tail"
    using t by (intro skip_space_id) (auto simp: reads_def)
  have "value_end tail" by (auto simp: tail_def split: list.split)
  moreover have "2 * length (t @ tail) + 1 \<le> g" using Cons.prems(3) unfolding whole f by simp
  ultimately have val: "parse_value g d (t @ tail) = Some (v, tail)" using t by (simp add: reads_def)
  have head: "parse_members f d (CHR 0x22 # json_escape k @ CHR 0x22 # CHR '':'' # t @ tail) =
      (case tail of [] \<Rightarrow> None
       | e # es \<Rightarrow> if e = CHR '','' then map_option (\<lambda>(ms, r''). ((k, v) # ms, r'')) (parse_members g d (skip_space es))
                   else if e = CHR ''}'' then Some ([(k, v)], es) else None)"
    using parse_escape [OF k, of "CHR '':'' # t @ tail"] skip val
    by (simp add: f tail_def split: list.split)
  show ?case
  proof (cases es)
    case Nil
    then show ?thesis unfolding whole head by (simp add: tail_def e)
  next
    case (Cons e' es')
    obtain r where r: "join_members (map (\<lambda>(k, t, v). (k, t)) es) = CHR 0x22 # r"
      using join_members_head [of "map (\<lambda>(k, t, v). (k, t)) es"] Cons by auto
    have "parse_members g d (join_members (map (\<lambda>(k, t, v). (k, t)) es) @ CHR ''}'' # rest) =
      Some (map (\<lambda>(k, t, v). (k, v)) es, rest)"
      using Cons.prems(1,2) Cons.prems(3) [unfolded whole f] Cons
      by (intro Cons.IH) (auto simp: tail_def)
    moreover have "skip_space (join_members (map (\<lambda>(k, t, v). (k, t)) es) @ CHR ''}'' # rest) =
        join_members (map (\<lambda>(k, t, v). (k, t)) es) @ CHR ''}'' # rest"
      by (simp add: r)
    moreover have "tail = CHR '','' # join_members (map (\<lambda>(k, t, v). (k, t)) es) @ CHR ''}'' # rest"
      by (simp add: tail_def Cons)
    ultimately show ?thesis unfolding whole head by (simp add: e)
  qed
qed simp

lemma json_depth_member: "(k, v) \<in> set ms \<Longrightarrow> json_depth v < json_depth (JObject ms)"
proof -
  assume "(k, v) \<in> set ms"
  then have "json_depth v \<in> insert 0 (set (map (\<lambda>(k, v). json_depth v) ms))" by force
  then show ?thesis by (simp add: less_Suc_eq_le)
qed

lemma marshal_reads:
  "json_plain v \<Longrightarrow> d + json_depth v \<le> max_nesting \<Longrightarrow> reads d (json_marshal v) (json_value v)"
proof (induction v arbitrary: d)
  case (JString s)
  have "parse_value f d (json_quote s @ rest) = Some (VString s, rest)"
    if "2 * length (json_quote s @ rest) + 1 \<le> f" for f rest
    using that parse_escape [of s rest] JString.prems
    by (cases f) (simp_all add: json_quote_def)
  then show ?case by (simp add: reads_def json_quote_def json_space_def)
next
  case (JInt n)
  then have n: "format_int n = format_nat (nat n)" "int (nat n) = n" by (simp_all add: format_int_def)
  obtain c cs where c: "format_nat (nat n) = c # cs" "is_digit c" using format_nat_head by blast
  have "parse_value f d (format_int n @ rest) = Some (VFloat64 (f64_of_int n), rest)"
    if ends: "value_end rest" and fuel: "2 * length (format_int n @ rest) + 1 \<le> f" for f rest
  proof -
    obtain g where "f = Suc g" using fuel by (cases f) auto
    with parse_value_nat [OF ends, of "nat n" g d] JInt.prems n show ?thesis by simp
  qed
  then show ?case using c n by (auto simp: reads_def json_space_def is_digit_def code_def)
next
  case (JObject ms)
  define es where "es = map (\<lambda>(k, v). (k, json_marshal v, json_value v)) (sort_members ms)"
  have texts: "sort_members (map (\<lambda>(k, v). (k, json_marshal v)) ms) = map (\<lambda>(k, t, v). (k, t)) es"
    by (simp add: sort_members_map es_def comp_def case_prod_beta)
  have vals: "sort_members (map (\<lambda>(k, v). (k, json_value v)) ms) = map (\<lambda>(k, t, v). (k, v)) es"
    by (simp add: sort_members_map es_def comp_def case_prod_beta)
  have mem: "ascii_text k \<and> reads (Suc d) t v" if "(k, t, v) \<in> set es" for k t v
  proof -
    from that obtain w where w: "(k, w) \<in> set ms" "t = json_marshal w" "v = json_value w"
      by (auto simp: es_def set_sort_members)
    have "Suc d + json_depth w \<le> max_nesting"
      using json_depth_member [OF w(1)] JObject.prems(2) by linarith
    then show ?thesis
      using JObject.IH [OF w(1)] JObject.prems(1) w by (auto simp: list_all_iff)
  qed
  have "parse_value f d (json_marshal (JObject ms) @ rest) = Some (json_value (JObject ms), rest)"
    if fuel: "2 * length (json_marshal (JObject ms) @ rest) + 1 \<le> f" for f rest
  proof -
    obtain g where f: "f = Suc g" using fuel by (cases f) auto
    have d: "\<not> max_nesting \<le> d" using JObject.prems(2) by simp
    show ?thesis
    proof (cases "ms = []")
      case True
      then show ?thesis using d by (simp add: f sort_members_def)
    next
      case False
      then have es: "es \<noteq> []" by (simp add: es_def sort_members_Nil_iff)
      obtain r where r: "join_members (map (\<lambda>(k, t, v). (k, t)) es) = CHR 0x22 # r"
        using join_members_head [of "map (\<lambda>(k, t, v). (k, t)) es"] es by auto
      have "parse_members g (Suc d) (join_members (map (\<lambda>(k, t, v). (k, t)) es) @ CHR ''}'' # rest) =
          Some (map (\<lambda>(k, t, v). (k, v)) es, rest)"
        using fuel by (intro parse_members_join [OF es mem]) (simp_all add: texts f)
      then show ?thesis using d by (simp add: f texts vals r)
    qed
  qed
  then show ?case by (simp add: reads_def json_space_def)
qed

text \<open>What is encoded is read back.\<close>

lemma parse_marshal:
  assumes "json_plain v" and "json_depth v \<le> max_nesting"
  shows "parse_json (json_marshal v) = Some (json_value v)"
proof -
  have r: "reads 0 (json_marshal v) (json_value v)" using assms by (intro marshal_reads) simp_all
  then have "skip_space (json_marshal v) = json_marshal v" by (intro skip_space_id) (simp_all add: reads_def)
  moreover from r have "parse_value (json_fuel (json_marshal v)) 0 (json_marshal v @ []) = Some (json_value v, [])"
    by (rule readsD) (simp_all add: json_fuel_def)
  ultimately show ?thesis by (simp add: parse_json_def skip_space_def del: parse_value.simps)
qed

end
