(* ===== verification/Mqtt_Requests.thy ===== *)
theory Mqtt_Requests
  imports Mqtt_Status Go_Json_Encode
begin

text \<open>
  \<open>mqtt_exporter.go\<close>, second part: what the exporter sends. The login request to the EcoFlow
  API, the two requests to a device (\<open>latestQuotas\<close> and the keepalive \<open>setRtcTime\<close>), the ping
  counters and the routine that sends them.

  Parameters are the HTTP client, the constructor of the MQTT client in the Ecoflow library, and
  the publish operation of the paho library: for a topic and a payload it either times out or
  completes with or without an error. An operation returns the message it published, if any.
  Encoding a map of strings and integers cannot fail, and neither can making the request for the
  constant URL, so these two error branches have no counterpart. In the login response, a number
  that no \<open>float64\<close> holds is an error wherever it stands, which the code overlooks in fields it
  does not use.
\<close>

section \<open>base64\<close>

definition base64_char :: "nat \<Rightarrow> char" where
  "base64_char n =
    (if n < 26 then char_of (65 + n) else if n < 52 then char_of (71 + n)
     else if n < 62 then char_of (n - 4) else if n = 62 then CHR ''+'' else CHR ''/'')"

text \<open>Three bytes are four groups of six bits; a rest of one or two bytes is padded.\<close>

fun base64_encode :: "gostring \<Rightarrow> gostring" where
  "base64_encode (a # b # c # rest) =
    (let n = (code a * 256 + code b) * 256 + code c in
     [base64_char (n div 262144), base64_char (n div 4096 mod 64), base64_char (n div 64 mod 64),
      base64_char (n mod 64)] @ base64_encode rest)"
| "base64_encode [a, b] =
    (let n = (code a * 256 + code b) * 4 in
     [base64_char (n div 4096), base64_char (n div 64 mod 64), base64_char (n mod 64), CHR ''=''])"
| "base64_encode [a] =
    (let n = code a * 16 in [base64_char (n div 64), base64_char (n mod 64), CHR ''='', CHR ''=''])"
| "base64_encode [] = []"

section \<open>Login\<close>

text \<open>
  How \<open>encoding/json\<close> matches a key with the name of a field: up to case, where two letters
  outside ASCII fold to ASCII letters.
\<close>

definition fold_rune :: "nat \<Rightarrow> nat" where
  "fold_rune r =
    (if r = 383 then 115 else if r = 8490 then 107 else if 65 \<le> r \<and> r \<le> 90 then r + 32 else r)"

definition field_matches :: "gostring \<Rightarrow> gostring \<Rightarrow> bool" where
  "field_matches name key \<longleftrightarrow>
     map (\<lambda>(i, r). fold_rune r) (range_string key) = map (\<lambda>(i, r). fold_rune r) (range_string name)"

text \<open>
  Decoding into the nested struct: a value of another kind is an error, \<open>null\<close> changes nothing,
  and of several members for one field the last one counts. The state is the user id so far.
\<close>

definition into_string :: "goval \<Rightarrow> gostring option \<Rightarrow> gostring option" where
  "into_string v st =
    (case st of None \<Rightarrow> None
     | Some s \<Rightarrow> (case v of VString t \<Rightarrow> Some t | VNil \<Rightarrow> Some s | _ \<Rightarrow> None))"

definition into_struct ::
  "gostring \<Rightarrow> (goval \<Rightarrow> gostring option \<Rightarrow> gostring option) \<Rightarrow> goval \<Rightarrow> gostring option \<Rightarrow> gostring option" where
  "into_struct name field v st =
    (case v of
       VObject ms \<Rightarrow> fold (\<lambda>(k, x) st. if field_matches name k then field x st else st) ms st
     | VNil \<Rightarrow> st
     | _ \<Rightarrow> None)"

definition login_user_id :: "gostring \<Rightarrow> gostring option" where
  "login_user_id body =
    (case parse_json body of
       None \<Rightarrow> None
     | Some v \<Rightarrow> into_struct ''data'' (into_struct ''user'' (into_struct ''userId'' into_string)) v (Some []))"

text \<open>The response: the status, the bytes read from the body and the error of reading, if any.\<close>

datatype http_response = HttpFailed gostring | HttpResponse int gostring "gostring option"

datatype login_error =
    LoginRequestFailed gostring
  | LoginStatus int gostring
  | LoginBodyUnreadable gostring
  | LoginBadJson
  | LoginEmptyUserId gostring
  | ClientFailed gostring

definition login_body :: "gostring \<Rightarrow> gostring \<Rightarrow> json_out" where
  "login_body email password =
     JObject [(''email'', JString email), (''password'', JString (base64_encode password)),
              (''scene'', JString ''IOT_APP''), (''userType'', JString ''ECOFLOW'')]"

definition getUserId ::
  "(gostring \<Rightarrow> http_response) \<Rightarrow> gostring \<Rightarrow> gostring \<Rightarrow> login_error + gostring" where
  "getUserId http_post email password =
    (case http_post (json_marshal (login_body email password)) of
       HttpFailed err \<Rightarrow> Inl (LoginRequestFailed err)
     | HttpResponse status body read_error \<Rightarrow>
         if status \<noteq> 200 then Inl (LoginStatus status body)
         else (case read_error of
                 Some err \<Rightarrow> Inl (LoginBodyUnreadable err)
               | None \<Rightarrow>
                   (case login_user_id body of
                      None \<Rightarrow> Inl LoginBadJson
                    | Some uid \<Rightarrow> if uid = [] then Inl (LoginEmptyUserId body) else Inr uid)))"

definition mqtt_login ::
  "(gostring \<Rightarrow> http_response) \<Rightarrow> (gostring \<Rightarrow> gostring \<Rightarrow> gostring + mqtt_client) \<Rightarrow> 'h mqtt
     \<Rightarrow> (login_error + mqtt_client) \<times> 'h mqtt"
where
  "mqtt_login http_post NewMqttClient m =
    (case getUserId http_post (mq_email m) (mq_password m) of
       Inl err \<Rightarrow> (Inl err, m)
     | Inr uid \<Rightarrow>
         (case NewMqttClient (mq_email m) (mq_password m) of
            Inl err \<Rightarrow> (Inl (ClientFailed err), m\<lparr>mq_userId := uid\<rparr>)
          | Inr c \<Rightarrow> (Inr c, m\<lparr>mq_userId := uid\<rparr>)))"

section \<open>Requests to a device\<close>

record published =
  pub_client :: mqtt_client
  pub_topic :: gostring
  pub_qos :: nat
  pub_retained :: bool
  pub_payload :: gostring

datatype publish_result = PublishTimeout | PublishDone "gostring option"

datatype request_error = NotLoggedInYet | RequestTimeout | RequestFailed gostring

text \<open>\<open>token.WaitTimeout(5 * time.Second)\<close> and \<open>token.Error()\<close>\<close>

definition publish_error :: "publish_result \<Rightarrow> request_error option" where
  "publish_error r =
    (case r of PublishTimeout \<Rightarrow> Some RequestTimeout
     | PublishDone err \<Rightarrow> map_option RequestFailed err)"

definition unix_milli :: "time \<Rightarrow> int" where
  "unix_milli now = (now - unix_epoch) div millisecond"

definition latest_quotas_message :: "time \<Rightarrow> json_out" where
  "latest_quotas_message now =
     JObject [(''id'', JString (format_int (unix_milli now))), (''version'', JString ''1.1''),
              (''from'', JString ''Android''), (''operateType'', JString ''latestQuotas''),
              (''params'', JObject [])]"

definition device_topic :: "gostring \<Rightarrow> gostring \<Rightarrow> gostring \<Rightarrow> gostring" where
  "device_topic uid sn verb = ''/app/'' @ uid @ ''/'' @ sn @ ''/thing/property/'' @ verb"

definition requestLatestQuotas ::
  "time \<Rightarrow> (published \<Rightarrow> publish_result) \<Rightarrow> gostring \<Rightarrow> 'h mqtt
     \<Rightarrow> request_error option \<times> published option \<times> 'h mqtt"
where
  "requestLatestQuotas now publish sn m =
    (let payload = json_marshal (latest_quotas_message now) in
     case mq_client m of
       None \<Rightarrow> (Some NotLoggedInYet, None, m)
     | Some c \<Rightarrow>
         (let msg = \<lparr>pub_client = c, pub_topic = device_topic (currentUserId m) sn ''get'', pub_qos = 1,
                     pub_retained = False, pub_payload = payload\<rparr>;
              err = publish_error (publish msg)
          in (err, Some msg, m\<lparr>mq_telemetry := MqttPing sn ''state_refresh'' err (mq_telemetry m)\<rparr>)))"

text \<open>The local time as the \<open>time\<close> package gives it.\<close>

record clock =
  clk_minute :: int
  clk_day :: int
  clk_weekday :: int
  clk_second :: int
  clk_month :: int
  clk_hour :: int
  clk_year :: int

definition rtc_time_message :: "time \<Rightarrow> clock \<Rightarrow> json_out" where
  "rtc_time_message now c =
     JObject [(''from'', JString ''Android''), (''id'', JString (format_int (unix_milli now))),
              (''moduleType'', JInt 2), (''operateType'', JString ''setRtcTime''),
              (''params'', JObject [(''min'', JInt (clk_minute c)), (''day'', JInt (clk_day c)),
                 (''week'', JInt (clk_weekday c)), (''sec'', JInt (clk_second c)),
                 (''month'', JInt (clk_month c)), (''hour'', JInt (clk_hour c)), (''year'', JInt (clk_year c))]),
              (''version'', JString ''1.0'')]"

definition ping_count :: "gostring \<Rightarrow> (gostring, int) fmap \<Rightarrow> int" where
  "ping_count sn m = (case fmlookup m sn of None \<Rightarrow> 0 | Some n \<Rightarrow> n)"

text \<open>
  \<open>recordPing\<close> returns whether it warns. The quotient of two integers below \<open>2 ^ 53\<close> is the
  rounded fraction, and so is the constant 0.1.
\<close>

definition recordPing :: "gostring \<Rightarrow> request_error option \<Rightarrow> 'h mqtt \<Rightarrow> bool \<times> 'h mqtt" where
  "recordPing sn err m =
    (let m = m\<lparr>mq_telemetry := MqttPing sn ''keepalive'' err (mq_telemetry m)\<rparr> in
     if err = None
     then (False, m\<lparr>mq_pingOK := fmupd sn (ping_count sn (mq_pingOK m) + 1) (mq_pingOK m)\<rparr>)
     else
       (let m = m\<lparr>mq_pingFailed := fmupd sn (ping_count sn (mq_pingFailed m) + 1) (mq_pingFailed m)\<rparr>;
            failed = ping_count sn (mq_pingFailed m);
            total = ping_count sn (mq_pingOK m) + ping_count sn (mq_pingFailed m)
        in (f64_less (f64_of_frac False 1 10) (f64_of_frac False failed total), m)))"

definition sendRtcTimePing ::
  "time \<Rightarrow> clock \<Rightarrow> (published \<Rightarrow> publish_result) \<Rightarrow> gostring \<Rightarrow> 'h mqtt
     \<Rightarrow> request_error option \<times> published option \<times> 'h mqtt"
where
  "sendRtcTimePing now c publish sn m =
    (let payload = json_marshal (rtc_time_message now c) in
     case mq_client m of
       None \<Rightarrow> (Some NotLoggedInYet, None, snd (recordPing sn (Some NotLoggedInYet) m))
     | Some cl \<Rightarrow>
         (let msg = \<lparr>pub_client = cl, pub_topic = device_topic (currentUserId m) sn ''set'', pub_qos = 1,
                     pub_retained = False, pub_payload = payload\<rparr>;
              err = publish_error (publish msg)
          in (err, Some msg, snd (recordPing sn err m))))"

section \<open>The ping routine\<close>

definition ticksPerRefresh :: "'h mqtt \<Rightarrow> int" where
  "ticksPerRefresh m = max (mq_stateRefreshInterval m div mq_pingInterval m) 1"

text \<open>
  One tick. The devices are pinged in parallel; the operations on the counters and the telemetry
  are atomic, so the order in which they happen is a list \<open>sns\<close> of the devices. The second
  component of the state is \<open>tickCount\<close>.
\<close>

definition ping_device ::
  "bool \<Rightarrow> time \<Rightarrow> clock \<Rightarrow> (published \<Rightarrow> publish_result) \<Rightarrow> gostring \<Rightarrow> 'h mqtt \<Rightarrow> published option \<times> 'h mqtt" where
  "ping_device useStateRefresh now c publish sn m =
    snd (if useStateRefresh then requestLatestQuotas now publish sn m
         else sendRtcTimePing now c publish sn m)"

definition ping_one ::
  "bool \<Rightarrow> time \<Rightarrow> clock \<Rightarrow> (published \<Rightarrow> publish_result) \<Rightarrow> gostring
     \<Rightarrow> published list \<times> 'h mqtt \<Rightarrow> published list \<times> 'h mqtt"
where
  "ping_one useStateRefresh now c publish sn st =
    (case st of (sent, m) \<Rightarrow>
      (case ping_device useStateRefresh now c publish sn m of
         (msg, m) \<Rightarrow> (sent @ (case msg of None \<Rightarrow> [] | Some p \<Rightarrow> [p]), m)))"

definition pingTick ::
  "(mqtt_client \<Rightarrow> bool) \<Rightarrow> time \<Rightarrow> clock \<Rightarrow> (published \<Rightarrow> publish_result) \<Rightarrow> gostring list
     \<Rightarrow> int \<times> 'h mqtt \<Rightarrow> published list \<times> int \<times> 'h mqtt"
where
  "pingTick is_connected now c publish sns st =
    (case st of (tickCount, m) \<Rightarrow>
      if \<not> mqtt_connected is_connected m then ([], tickCount, m)
      else
        (let tickCount = tickCount + 1;
             useStateRefresh = (tickCount mod ticksPerRefresh m = 0);
             (sent, m) = fold (ping_one useStateRefresh now c publish) sns ([], m)
         in (sent, tickCount, m)))"

section \<open>Frames\<close>

text \<open>What a request leaves alone: everything but the telemetry and the ping counters.\<close>

definition same_but_pings :: "'h mqtt \<Rightarrow> 'h mqtt \<Rightarrow> bool" where
  "same_but_pings m m' \<longleftrightarrow>
     m' = m\<lparr>mq_telemetry := mq_telemetry m', mq_pingOK := mq_pingOK m', mq_pingFailed := mq_pingFailed m'\<rparr>"

lemma same_but_pings_refl: "same_but_pings m m"
  by (simp add: same_but_pings_def)

lemma same_but_pings_trans: "same_but_pings m m' \<Longrightarrow> same_but_pings m' m'' \<Longrightarrow> same_but_pings m m''"
  unfolding same_but_pings_def by (cases m, cases m', cases m'') simp

lemma same_but_pings_status: "same_but_pings m m' \<Longrightarrow> status_inv m' \<longleftrightarrow> status_inv m"
  unfolding same_but_pings_def by (cases m, cases m') (simp add: status_inv_def)

lemma same_but_pings_fields:
  assumes "same_but_pings m m'"
  shows "mq_client m' = mq_client m" "mq_userId m' = mq_userId m" "mq_devices m' = mq_devices m"
    "mq_pingInterval m' = mq_pingInterval m" "mq_stateRefreshInterval m' = mq_stateRefreshInterval m"
    "mq_handlers m' = mq_handlers m" "mq_deviceState m' = mq_deviceState m"
    "mq_lastReceived m' = mq_lastReceived m" "mq_offlineSent m' = mq_offlineSent m"
    "mq_email m' = mq_email m" "mq_password m' = mq_password m" "mq_offlineThreshold m' = mq_offlineThreshold m"
    "mq_relogin m' = mq_relogin m"
  using assms unfolding same_but_pings_def by (cases m, cases m', simp)+

lemma requestLatestQuotas_frame: "same_but_pings m (snd (snd (requestLatestQuotas now publish sn m)))"
  by (auto simp: requestLatestQuotas_def Let_def same_but_pings_def split: option.split)

lemma recordPing_frame: "same_but_pings m (snd (recordPing sn err m))"
  by (simp add: recordPing_def Let_def same_but_pings_def)

lemma sendRtcTimePing_frame: "same_but_pings m (snd (snd (sendRtcTimePing now c publish sn m)))"
  by (auto simp: sendRtcTimePing_def Let_def recordPing_frame split: option.split)

lemma ping_device_frame: "same_but_pings m (snd (ping_device refresh now c publish sn m))"
  by (simp add: ping_device_def requestLatestQuotas_frame sendRtcTimePing_frame)

lemma ping_device_msg:
  assumes "mq_client m = Some cl"
  shows "\<exists>p. fst (ping_device refresh now c publish sn m) = Some p
    \<and> pub_client p = cl \<and> pub_topic p = device_topic (mq_userId m) sn (if refresh then ''get'' else ''set'')
    \<and> pub_payload p = json_marshal (if refresh then latest_quotas_message now else rtc_time_message now c)"
  using assms
  by (simp add: ping_device_def requestLatestQuotas_def sendRtcTimePing_def Let_def currentUserId_def)

lemma fold_ping_prefix: "\<exists>ps m'. fold (ping_one refresh now c publish) sns (sent, m) = (sent @ ps, m')"
proof (induction sns arbitrary: sent m)
  case (Cons sn sns)
  obtain msg m1 where "ping_device refresh now c publish sn m = (msg, m1)" by (metis surj_pair)
  with Cons [of "sent @ (case msg of None \<Rightarrow> [] | Some p \<Rightarrow> [p])" m1] show ?case
    by (auto simp: ping_one_def)
qed simp

text \<open>All requests of a tick.\<close>

lemma ping_fold:
  assumes "mq_client m = Some cl"
  shows "\<exists>ps m'. fold (ping_one refresh now c publish) sns (sent, m) = (sent @ ps, m')
    \<and> same_but_pings m m' \<and> length ps = length sns
    \<and> map pub_topic ps = map (\<lambda>sn. device_topic (mq_userId m) sn (if refresh then ''get'' else ''set'')) sns"
  using assms
proof (induction sns arbitrary: m sent)
  case Nil
  then show ?case by (simp add: same_but_pings_refl)
next
  case (Cons sn sns)
  from ping_device_msg [OF Cons.prems] obtain p m1 where p: "ping_device refresh now c publish sn m = (Some p, m1)"
    "pub_topic p = device_topic (mq_userId m) sn (if refresh then ''get'' else ''set'')"
    by (metis prod.collapse)
  then have step: "ping_one refresh now c publish sn (sent, m) = (sent @ [p], m1)"
    by (simp add: ping_one_def)
  have frame: "same_but_pings m m1" using ping_device_frame p(1) by (metis snd_conv)
  then have "mq_client m1 = Some cl" "mq_userId m1 = mq_userId m"
    using same_but_pings_fields [OF frame] Cons.prems by simp_all
  from Cons.IH [OF this(1), of "sent @ [p]"] this(2) obtain ps m' where
    ps: "fold (ping_one refresh now c publish) sns (sent @ [p], m1) = ((sent @ [p]) @ ps, m')"
    "same_but_pings m1 m'" "length ps = length sns"
    "map pub_topic ps = map (\<lambda>sn. device_topic (mq_userId m) sn (if refresh then ''get'' else ''set'')) sns"
    by auto
  show ?case
    using ps p(2) step same_but_pings_trans [OF frame]
    by (intro exI [of _ "p # ps"] exI [of _ m']) simp
qed

section \<open>Payloads\<close>

lemma ascii_text_format_nat: "ascii_text (format_nat n)"
  using format_nat_digits [of n] by (auto simp: ascii_text_def list_all_iff is_digit_def)

lemma ascii_text_format_int: "ascii_text (format_int n)"
  using ascii_text_format_nat by (simp add: format_int_def ascii_text_def code_def)

lemma base64_char_ascii: "n < 64 \<Longrightarrow> code (base64_char n) < 128"
  by (auto simp: base64_char_def code_def)

lemma base64_ascii: "ascii_text (base64_encode s)"
proof (induction s rule: base64_encode.induct)
  case (1 a b c rest)
  have "code a \<le> 255" "code b \<le> 255" "code c \<le> 255"
    using code_less [of a] code_less [of b] code_less [of c] by simp_all
  then have "(code a * 256 + code b) * 256 + code c < 64 * 262144" by simp
  then have "((code a * 256 + code b) * 256 + code c) div 262144 < 64"
    by (rule less_mult_imp_div_less)
  with 1 show ?case by (simp add: ascii_text_def Let_def base64_char_ascii del: div_mult2_eq)
next
  case (2 a b)
  have "code a \<le> 255" "code b \<le> 255" using code_less [of a] code_less [of b] by simp_all
  then have "(code a * 256 + code b) * 4 < 64 * 4096" by simp
  then have "(code a * 256 + code b) * 4 div 4096 < 64" by (rule less_mult_imp_div_less)
  then show ?case by (simp add: ascii_text_def Let_def base64_char_ascii) (simp add: code_def)
next
  case (3 a)
  have "code a \<le> 255" using code_less [of a] by simp
  then have "code a * 16 < 64 * 64" by simp
  then have "code a * 16 div 64 < 64" by (rule less_mult_imp_div_less)
  then show ?case by (simp add: ascii_text_def Let_def base64_char_ascii) (simp add: code_def)
qed (simp add: ascii_text_def)

definition clock_ok :: "clock \<Rightarrow> bool" where
  "clock_ok c \<longleftrightarrow> list_all (\<lambda>n. 0 \<le> n \<and> n < 10000)
     [clk_minute c, clk_day c, clk_weekday c, clk_second c, clk_month c, clk_hour c, clk_year c]"

lemma messages_plain:
  "json_plain (latest_quotas_message now)" "json_depth (latest_quotas_message now) \<le> 10000"
  "clock_ok c \<Longrightarrow> json_plain (rtc_time_message now c)" "json_depth (rtc_time_message now c) \<le> 10000"
  "ascii_text email \<Longrightarrow> json_plain (login_body email pw)" "json_depth (login_body email pw) \<le> 10000"
  by (simp_all add: latest_quotas_message_def rtc_time_message_def login_body_def ascii_text_format_int
      base64_ascii clock_ok_def) (simp_all add: ascii_text_def code_def)

section \<open>Properties\<close>

lemma parse_message:
  assumes "json_plain v" and "json_depth v \<le> 10000"
  shows "parse_json (json_marshal v) = Some (json_value v)"
  using assms by (rule parse_marshal)

text \<open>C37: The body of the login request reads back as what is meant: the email address as it is
  configured, whatever characters of ASCII it has, the password in base64, whatever bytes it has,
  and the two constants.\<close>
theorem login_body_roundtrip:
  assumes "ascii_text email"
  shows "unmarshal_string_map (json_marshal (login_body email pw)) =
    Some (fmupd ''userType'' ''ECOFLOW'' (fmupd ''scene'' ''IOT_APP''
      (fmupd ''password'' (base64_encode pw) (fmupd ''email'' email fmempty))))"
proof -
  have "json_value (login_body email pw) =
      VObject [(''email'', VString email), (''password'', VString (base64_encode pw)),
               (''scene'', VString ''IOT_APP''), (''userType'', VString ''ECOFLOW'')]"
    by (simp add: login_body_def sort_members_def code_def)
  then show ?thesis
    using parse_message [OF messages_plain(5) messages_plain(6)] assms
    by (simp add: unmarshal_string_map_def object_map_def map_filter_simps)
qed

theorem login_body_roundtrip_witness:
  "fmlookup (the (unmarshal_string_map (json_marshal (login_body [CHR ''a'', CHR 0x22, CHR ''@'', CHR ''<''] ''pw'')))) ''email''
     = Some [CHR ''a'', CHR 0x22, CHR ''@'', CHR ''<'']"
  by (subst login_body_roundtrip) (simp_all add: ascii_text_def code_def)

text \<open>Both requests to a device are valid JSON that reads back as the intended message, at any
  time: the payload of the state request is the \<open>latestQuotas\<close> message, and that of the keepalive
  the \<open>setRtcTime\<close> message with the local time.\<close>
theorem request_payload_roundtrip:
  assumes "mq_client m = Some cl" and "clock_ok c"
  shows "\<exists>p. fst (ping_device refresh now c publish sn m) = Some p
    \<and> parse_json (pub_payload p) =
        Some (json_value (if refresh then latest_quotas_message now else rtc_time_message now c))"
  using ping_device_msg [OF assms(1), of refresh now c publish sn] assms(2)
  by (auto simp: parse_message messages_plain)

text \<open>A tick of the ping routine while the client is connected sends exactly one request to
  every device, on the topics of the user that is logged in: a request for the full state in every
  \<open>ticksPerRefresh\<close>-th tick and a keepalive in all others. The rest of the state is unchanged.\<close>
theorem ping_tick_requests:
  assumes "mq_client m = Some cl" and "is_connected cl"
  shows "\<exists>ps m'. pingTick is_connected now c publish sns (k, m) = (ps, k + 1, m')
    \<and> map pub_topic ps = map (\<lambda>sn. device_topic (mq_userId m) sn
         (if (k + 1) mod ticksPerRefresh m = 0 then ''get'' else ''set'')) sns
    \<and> same_but_pings m m'"
proof -
  obtain ps m' where "fold (ping_one ((k + 1) mod ticksPerRefresh m = 0) now c publish) sns ([], m) = (ps, m')"
    "same_but_pings m m'" "map pub_topic ps = map (\<lambda>sn. device_topic (mq_userId m) sn
         (if (k + 1) mod ticksPerRefresh m = 0 then ''get'' else ''set'')) sns"
    using ping_fold [OF assms(1), of "(k + 1) mod ticksPerRefresh m = 0" now c publish sns "[]"] by auto
  with assms show ?thesis by (simp add: pingTick_def mqtt_connected_def Let_def)
qed

text \<open>The ping counters are exact: after recording any sequence of results for a device, its two
  counters have grown by the number of successes and of failures, and those of every other device
  have not changed.\<close>
theorem ping_counters_exact:
  "ping_count x (mq_pingOK (fold (\<lambda>err m. snd (recordPing sn err m)) errs m)) =
     ping_count x (mq_pingOK m) + (if x = sn then int (length (filter (\<lambda>e. e = None) errs)) else 0)
   \<and> ping_count x (mq_pingFailed (fold (\<lambda>err m. snd (recordPing sn err m)) errs m)) =
     ping_count x (mq_pingFailed m) + (if x = sn then int (length (filter (\<lambda>e. e \<noteq> None) errs)) else 0)"
proof (induction errs arbitrary: m)
  case (Cons e errs)
  have "ping_count x (mq_pingOK (snd (recordPing sn e m))) =
      ping_count x (mq_pingOK m) + (if x = sn \<and> e = None then 1 else 0)"
    "ping_count x (mq_pingFailed (snd (recordPing sn e m))) =
      ping_count x (mq_pingFailed m) + (if x = sn \<and> e \<noteq> None then 1 else 0)"
    by (auto simp: recordPing_def Let_def ping_count_def)
  with Cons show ?case by auto
qed simp

text \<open>A login either yields a client and a user id that is not empty, from a response with
  status 200, or an error; an error before the client is made leaves the exporter as it was.\<close>
theorem login_outcomes:
  "case mqtt_login http_post NewMqttClient m of
     (Inr c, m') \<Rightarrow> (\<exists>uid body. m' = m\<lparr>mq_userId := uid\<rparr> \<and> uid \<noteq> [] \<and> login_user_id body = Some uid
        \<and> http_post (json_marshal (login_body (mq_email m) (mq_password m))) = HttpResponse 200 body None
        \<and> NewMqttClient (mq_email m) (mq_password m) = Inr c)
   | (Inl (ClientFailed err), m') \<Rightarrow> m' = m\<lparr>mq_userId := mq_userId m'\<rparr> \<and> NewMqttClient (mq_email m) (mq_password m) = Inl err
   | (Inl err, m') \<Rightarrow> m' = m"
  by (auto simp: mqtt_login_def getUserId_def split: http_response.split sum.split option.split login_error.split)

section \<open>Witnesses\<close>

definition sample_mqtt :: "unit mqtt" where
  "sample_mqtt =
     \<lparr>mq_email = ''a@b.c'', mq_password = ''pw'', mq_client = Some 1,
      mq_devices = fmupd ''R1'' ''garage'' (fmupd ''R2'' ''roof'' fmempty), mq_handlers = [()],
      mq_offlineThreshold = 300 * second, mq_pingInterval = 20 * second,
      mq_stateRefreshInterval = 300 * second, mq_deviceState = fmempty,
      mq_decoder = NewProtobufDecoder False, mq_telemetry = None, mq_userId = ''u7'', mq_relogin = False,
      mq_lastReceived = fmempty, mq_offlineSent = fmempty, mq_reconnectDelay = 0, mq_nextReconnect = 0,
      mq_fruitlessReconnects = 0, mq_pingOK = fmempty, mq_pingFailed = fmempty\<rparr>"

definition sample_clock :: clock where
  "sample_clock = \<lparr>clk_minute = 30, clk_day = 9, clk_weekday = 4, clk_second = 1, clk_month = 7,
     clk_hour = 23, clk_year = 2026\<rparr>"

theorem request_payload_roundtrip_witness:
  "\<exists>p. fst (ping_device False unix_epoch sample_clock (\<lambda>p. PublishDone None) ''R1'' sample_mqtt) = Some p
     \<and> parse_json (pub_payload p) = Some (json_value (rtc_time_message unix_epoch sample_clock))"
  using request_payload_roundtrip [of sample_mqtt 1 sample_clock False unix_epoch "\<lambda>p. PublishDone None" "''R1''"]
  by (simp add: sample_mqtt_def clock_ok_def sample_clock_def)

theorem ping_tick_requests_witness:
  "\<exists>ps m'. pingTick (\<lambda>c. True) unix_epoch sample_clock (\<lambda>p. PublishTimeout) [''R1'', ''R2''] (14, sample_mqtt) = (ps, 15, m')
     \<and> map pub_topic ps = [''/app/u7/R1/thing/property/get'', ''/app/u7/R2/thing/property/get'']"
proof -
  have "mq_client sample_mqtt = Some 1" "mq_userId sample_mqtt = ''u7''" "ticksPerRefresh sample_mqtt = 15"
    by (simp_all add: sample_mqtt_def ticksPerRefresh_def)
  with ping_tick_requests [of sample_mqtt 1 "\<lambda>c. True" unix_epoch sample_clock "\<lambda>p. PublishTimeout" "[''R1'', ''R2'']" 14]
  show ?thesis by (auto simp: device_topic_def)
qed

end
