(* ===== verification/Mqtt_Messages.thy ===== *)
theory Mqtt_Messages
  imports Mqtt_Requests Metric
begin

text \<open>
  \<open>mqtt_exporter.go\<close>, third part: the callbacks of the MQTT client. \<open>MessageHandler\<close> turns a
  message into an update for the handlers; \<open>OnConnect\<close> subscribes to the devices.

  Parameters are the protobuf library, the type \<open>MqttDeviceParams\<close> of the Ecoflow library (as
  the function that decodes a payload into its \<open>Params\<close>), the handler function \<open>H\<close> with the
  environment of each handler, and subscribing. Each reading of the clock has its own argument.
  What a callback does to the outside is a list of effects, in their order.
\<close>

section \<open>Effects\<close>

datatype mqtt_effect =
    EffPublish published
  | EffSubscribe mqtt_client gostring
  | EffConnect mqtt_client
  | EffDisconnect mqtt_client
  | EffUpdate device_update
  | EffRequest gostring
  | EffDecoded gostring params

text \<open>
  \<open>EffRequest\<close> is the start of the goroutine that requests the full state of a device,
  \<open>EffUpdate\<close> the call of all handlers with an update, and \<open>EffDecoded\<close> the debug message that the
  parameters of a device have been received, here with the parameters themselves.
\<close>

section \<open>MessageHandler\<close>

record 'e message_env =
  me_received :: time
  me_seen :: time
  me_update :: time
  me_lib :: proto_lib
  me_device_params :: "byte list \<Rightarrow> params option"
  me_handlers :: "nat \<Rightarrow> 'e"

datatype message_outcome =
    NoSerialNumber
  | NotConfigured
  | Undecodable MessageFormat
  | NoParameters
  | NoState
  | Delivered "gostring list"

text \<open>The switch over the format: the parameters, or nothing when decoding fails.\<close>

definition decode_payload ::
  "'e message_env \<Rightarrow> gostring \<Rightarrow> byte list \<Rightarrow> decoder \<Rightarrow> params option \<times> decoder" where
  "decode_payload env sn payload d =
    (case DetectFormat (me_lib env) payload of
       FormatJSON \<Rightarrow> (me_device_params env payload, d)
     | FormatProtobuf \<Rightarrow>
         (case DecodeProtobufMessage (me_lib env) payload (LogFirstProtobufMessage sn d) of
            (DecodeOk ps, d) \<Rightarrow> (Some ps, d)
          | (_, d) \<Rightarrow> (None, d))
     | FormatUnknown \<Rightarrow> (None, d))"

text \<open>The same with the metrics of the exporter: every message is counted, and every failure.\<close>

definition decode_message ::
  "'e message_env \<Rightarrow> gostring \<Rightarrow> byte list \<Rightarrow> 'h mqtt \<Rightarrow> params option \<times> 'h mqtt" where
  "decode_message env sn payload m =
    (let format = DetectFormat (me_lib env) payload;
         m = m\<lparr>mq_telemetry := MqttMessage sn (MessageFormat_String format) (mq_telemetry m)\<rparr>
     in case decode_payload env sn payload (mq_decoder m) of
          (None, d) \<Rightarrow>
            (None, m\<lparr>mq_decoder := d,
               mq_telemetry := DecodeError sn (MessageFormat_String format) (mq_telemetry m)\<rparr>)
        | (Some ps, d) \<Rightarrow> (Some ps, m\<lparr>mq_decoder := d\<rparr>))"

text \<open>Merging the parameters into the cached state of the device.\<close>

definition merge_state :: "gostring \<Rightarrow> params \<Rightarrow> 'h mqtt \<Rightarrow> params \<times> 'h mqtt" where
  "merge_state sn ps m =
    (let old = (case fmlookup (mq_deviceState m) sn of None \<Rightarrow> fmempty | Some s \<Rightarrow> s);
         full = old ++\<^sub>f ps
     in (full, m\<lparr>mq_deviceState := fmupd sn full (mq_deviceState m)\<rparr>))"

text \<open>Calling the handlers with an update; the \<open>i\<close>-th handler gets the environment \<open>envs i\<close>.\<close>

definition call_handlers ::
  "('e, 'h) handler \<Rightarrow> (nat \<Rightarrow> 'e) \<Rightarrow> device_update \<Rightarrow> 'h mqtt \<Rightarrow> gostring list \<times> 'h mqtt" where
  "call_handlers H envs u m =
    (case dispatch H (zip (map envs [0..<length (mq_handlers m)]) (mq_handlers m)) u of
       (hs, u', errs) \<Rightarrow> (errs, m\<lparr>mq_handlers := hs\<rparr>))"

text \<open>Handing the merged state to the handlers, as an update of the device.\<close>

definition dispatch_state ::
  "('e, 'h) handler \<Rightarrow> 'e message_env \<Rightarrow> gostring \<Rightarrow> params \<Rightarrow> 'h mqtt
     \<Rightarrow> message_outcome \<times> mqtt_effect list \<times> 'h mqtt"
where
  "dispatch_state H env sn full m =
    (if go_len full = 0 then (NoState, [], m)
     else
       (let device = \<lparr>dev_SN = sn, dev_Name = getDeviceName (mq_devices m) sn, dev_Online = 1\<rparr>;
            m = m\<lparr>mq_telemetry := DeviceSeen (me_seen env) device (mq_telemetry m)\<rparr>;
            u = NewDeviceUpdate (me_update env) device full
        in case call_handlers H (me_handlers env) u m of
             (errs, m) \<Rightarrow> (Delivered errs, [EffUpdate u], m)))"

definition deliver ::
  "('e, 'h) handler \<Rightarrow> 'e message_env \<Rightarrow> gostring \<Rightarrow> params \<Rightarrow> 'h mqtt
     \<Rightarrow> message_outcome \<times> mqtt_effect list \<times> 'h mqtt"
where
  "deliver H env sn ps m =
    (if go_len ps = 0 then (NoParameters, [], m)
     else (case merge_state sn ps m of (full, m) \<Rightarrow> dispatch_state H env sn full m))"

definition MessageHandler ::
  "('e, 'h) handler \<Rightarrow> 'e message_env \<Rightarrow> gostring \<Rightarrow> byte list \<Rightarrow> 'h mqtt
     \<Rightarrow> message_outcome \<times> mqtt_effect list \<times> 'h mqtt"
where
  "MessageHandler H env topic payload m =
    (let sn = getSnFromTopic topic in
     if sn = [] then (NoSerialNumber, [], m)
     else if fmlookup (mq_devices m) sn = None then (NotConfigured, [], m)
     else
       (case markReceived (me_received env) sn m of
          (wasOffline, m) \<Rightarrow>
            (let request = (if wasOffline then [EffRequest sn] else [])
             in case decode_message env sn payload m of
                  (None, m) \<Rightarrow> (Undecodable (DetectFormat (me_lib env) payload), request, m)
                | (Some ps, m) \<Rightarrow>
                    (case deliver H env sn ps m of
                       (outcome, effects, m) \<Rightarrow> (outcome, request @ EffDecoded sn ps # effects, m)))))"

section \<open>Connection callbacks\<close>

text \<open>
  \<open>OnConnect\<close> uses the client of the current session; without one the code would dereference nil,
  which is \<open>None\<close>. The clock is read once for the statuses and once for every request.
\<close>

fun subscribe_all ::
  "mqtt_client \<Rightarrow> (gostring \<Rightarrow> gostring option) \<Rightarrow> (gostring \<Rightarrow> time) \<Rightarrow> (published \<Rightarrow> publish_result)
     \<Rightarrow> gostring list \<Rightarrow> 'h mqtt \<Rightarrow> mqtt_effect list \<times> 'h mqtt"
where
  "subscribe_all c subscribe now publish [] m = ([], m)"
| "subscribe_all c subscribe now publish (sn # sns) m =
    (case subscribe sn of
       Some err \<Rightarrow>
         (case subscribe_all c subscribe now publish sns m of
            (effects, m) \<Rightarrow> (EffSubscribe c sn # effects, m))
     | None \<Rightarrow>
         (case requestLatestQuotas (now sn) publish sn m of
            (err, msg, m) \<Rightarrow>
              (case subscribe_all c subscribe now publish sns m of
                 (effects, m) \<Rightarrow>
                   (EffSubscribe c sn # (case msg of None \<Rightarrow> [] | Some p \<Rightarrow> [EffPublish p]) @ effects, m))))"

definition OnConnect ::
  "time \<Rightarrow> (gostring \<Rightarrow> gostring option) \<Rightarrow> (gostring \<Rightarrow> time) \<Rightarrow> (published \<Rightarrow> publish_result)
     \<Rightarrow> gostring list \<Rightarrow> 'h mqtt \<Rightarrow> (mqtt_effect list \<times> 'h mqtt) option"
where
  "OnConnect now subscribe request_time publish sns m =
    (let m = m\<lparr>mq_telemetry := SetMqttConnected True (mq_telemetry m)\<rparr>;
         m = initDeviceStatuses now sns m
     in if sns = [] then Some ([], m)
        else (case mq_client m of
                None \<Rightarrow> None
              | Some c \<Rightarrow> Some (subscribe_all c subscribe request_time publish sns m)))"

definition OnConnectionLost :: "'h mqtt \<Rightarrow> 'h mqtt" where
  "OnConnectionLost m = m\<lparr>mq_telemetry := SetMqttConnected False (mq_telemetry m)\<rparr>"

definition OnReconnect :: "'h mqtt \<Rightarrow> 'h mqtt" where
  "OnReconnect m = m"

lemmas deliver_defs = deliver_def dispatch_state_def
lemmas MessageHandler_defs = MessageHandler_def decode_message_def

section \<open>What the callbacks keep\<close>

text \<open>The configuration of the exporter, which nothing changes after its construction.\<close>

definition same_config :: "'h mqtt \<Rightarrow> 'h mqtt \<Rightarrow> bool" where
  "same_config m m' \<longleftrightarrow>
     mq_email m' = mq_email m \<and> mq_password m' = mq_password m \<and> mq_devices m' = mq_devices m
     \<and> mq_offlineThreshold m' = mq_offlineThreshold m \<and> mq_pingInterval m' = mq_pingInterval m
     \<and> mq_stateRefreshInterval m' = mq_stateRefreshInterval m
     \<and> length (mq_handlers m') = length (mq_handlers m)"

lemma same_config_refl [simp]: "same_config m m"
  by (simp add: same_config_def)

lemma same_config_trans: "same_config m m' \<Longrightarrow> same_config m' m'' \<Longrightarrow> same_config m m''"
  by (simp add: same_config_def)

text \<open>Only configured devices have a cached state.\<close>

definition state_inv :: "'h mqtt \<Rightarrow> bool" where
  "state_inv m \<longleftrightarrow> status_inv m \<and> fmdom (mq_deviceState m) |\<subseteq>| fmdom (mq_devices m)"

text \<open>An update for a configured device, with its name.\<close>

definition update_ok :: "(gostring, gostring) fmap \<Rightarrow> device_update \<Rightarrow> bool" where
  "update_ok devices u \<longleftrightarrow>
     (\<exists>name. fmlookup devices (dev_SN (upd_device u)) = Some name \<and> dev_Name (upd_device u) = name)
     \<and> upd_samples u = fmempty"

fun effect_ok :: "(gostring, gostring) fmap \<Rightarrow> mqtt_effect \<Rightarrow> bool" where
  "effect_ok devices (EffUpdate u) = update_ok devices u"
| "effect_ok devices (EffSubscribe c sn) = (fmlookup devices sn \<noteq> None)"
| "effect_ok devices (EffRequest sn) = (fmlookup devices sn \<noteq> None)"
| "effect_ok devices _ = True"

lemma same_but_pings_keeps:
  assumes "same_but_pings m m'"
  shows "same_config m m'" and "state_inv m' \<longleftrightarrow> state_inv m"
  using same_but_pings_status [OF assms] same_but_pings_fields [OF assms]
  by (simp_all add: same_config_def state_inv_def)

lemma dispatch_length_any: "dispatch H hs u = (hs', u', errs) \<Longrightarrow> length hs' = length hs"
  by (induction hs arbitrary: u hs' u' errs) (auto split: prod.splits)

lemma call_handlers_frame:
  assumes "call_handlers H envs u m = (errs, m')"
  shows "\<exists>hs. m' = m\<lparr>mq_handlers := hs\<rparr> \<and> length hs = length (mq_handlers m)"
  using assms by (auto simp: call_handlers_def split: prod.splits dest!: dispatch_length_any)

lemma deliver_frame:
  assumes "deliver H env sn ps m = (outcome, effects, m')"
  shows "\<exists>hs t st. m' = m\<lparr>mq_handlers := hs, mq_telemetry := t, mq_deviceState := st\<rparr>
    \<and> length hs = length (mq_handlers m)
    \<and> fmdom st |\<subseteq>| finsert sn (fmdom (mq_deviceState m))"
proof -
  consider (none) "m' = m" | (merged) "m' = snd (merge_state sn ps m)"
    | (called) d u errs where "call_handlers H (me_handlers env) u
        ((snd (merge_state sn ps m))\<lparr>mq_telemetry := DeviceSeen (me_seen env) d (mq_telemetry (snd (merge_state sn ps m)))\<rparr>)
        = (errs, m')"
    using assms by (auto simp: deliver_defs Let_def split: if_splits prod.splits)
  then show ?thesis
  proof cases
    case none
    then show ?thesis
      by (intro exI [of _ "mq_handlers m"] exI [of _ "mq_telemetry m"] exI [of _ "mq_deviceState m"]) auto
  next
    case merged
    then show ?thesis
      by (intro exI [of _ "mq_handlers m"] exI [of _ "mq_telemetry m"] exI [of _ "mq_deviceState m'"])
        (auto simp: merge_state_def Let_def)
  next
    case called
    from call_handlers_frame [OF this] obtain hs where
      "m' = ((snd (merge_state sn ps m))\<lparr>mq_telemetry := DeviceSeen (me_seen env) d (mq_telemetry (snd (merge_state sn ps m)))\<rparr>)
        \<lparr>mq_handlers := hs\<rparr>" "length hs = length (mq_handlers m)"
      by (auto simp: merge_state_def Let_def)
    then show ?thesis
      by (intro exI [of _ hs] exI [of _ "mq_telemetry m'"] exI [of _ "mq_deviceState m'"])
        (auto simp: merge_state_def Let_def)
  qed
qed

lemma deliver_effects:
  assumes "deliver H env sn ps m = (outcome, effects, m')" and "fmlookup (mq_devices m) sn \<noteq> None"
  shows "list_all (effect_ok (mq_devices m)) effects"
  using assms
  by (auto simp: deliver_defs Let_def merge_state_def update_ok_def getDeviceName_def NewDeviceUpdate_def
      split: if_splits prod.splits)

lemma deliver_telemetry:
  assumes "deliver H env sn ps m = (outcome, effects, m')"
  shows "(\<exists>dev. mq_telemetry m' = DeviceSeen (me_seen env) dev (mq_telemetry m)) \<or> mq_telemetry m' = mq_telemetry m"
  using assms
  by (auto simp: deliver_defs merge_state_def Let_def split: if_splits prod.splits option.splits
      dest!: call_handlers_frame)

text \<open>The message handler up to the point where the format is known.\<close>

lemma MessageHandler_cases:
  assumes "MessageHandler H env topic payload m = (outcome, effects, m')"
  obtains (dropped) "m' = m" "effects = []" "getSnFromTopic topic = [] \<or> fmlookup (mq_devices m) (getSnFromTopic topic) = None"
  | (received) m1 d request where
      "getSnFromTopic topic \<noteq> []" "fmlookup (mq_devices m) (getSnFromTopic topic) \<noteq> None"
      "m1 = (snd (markReceived (me_received env) (getSnFromTopic topic) m))
        \<lparr>mq_telemetry := MqttMessage (getSnFromTopic topic) (MessageFormat_String (DetectFormat (me_lib env) payload)) (mq_telemetry m),
         mq_decoder := d\<rparr>"
      "request = (if fmlookup (mq_offlineSent m) (getSnFromTopic topic) \<noteq> None then [EffRequest (getSnFromTopic topic)] else [])"
      "outcome = Undecodable (DetectFormat (me_lib env) payload) \<and> effects = request
         \<and> fst (decode_payload env (getSnFromTopic topic) payload (mq_decoder m)) = None
         \<and> m' = m1\<lparr>mq_telemetry := DecodeError (getSnFromTopic topic) (MessageFormat_String (DetectFormat (me_lib env) payload)) (mq_telemetry m1)\<rparr>
       \<or> (\<exists>ps effs. fst (decode_payload env (getSnFromTopic topic) payload (mq_decoder m)) = Some ps
         \<and> deliver H env (getSnFromTopic topic) ps m1 = (outcome, effs, m') \<and> effects = request @ EffDecoded (getSnFromTopic topic) ps # effs)"
proof (cases "getSnFromTopic topic = [] \<or> fmlookup (mq_devices m) (getSnFromTopic topic) = None")
  case True
  with assms show ?thesis by (intro dropped) (auto simp: MessageHandler_defs Let_def split: if_splits)
next
  case False
  obtain r d where d: "decode_payload env (getSnFromTopic topic) payload (mq_decoder m) = (r, d)" by (metis surj_pair)
  have dec: "mq_decoder (snd (markReceived (me_received env) (getSnFromTopic topic) m)) = mq_decoder m"
    "mq_telemetry (snd (markReceived (me_received env) (getSnFromTopic topic) m)) = mq_telemetry m"
    by (simp_all add: markReceived_def)
  show ?thesis
  proof (rule received [OF _ _ refl refl, of d])
    show "outcome = Undecodable (DetectFormat (me_lib env) payload) \<and> effects =
        (if fmlookup (mq_offlineSent m) (getSnFromTopic topic) \<noteq> None then [EffRequest (getSnFromTopic topic)] else [])
      \<and> fst (decode_payload env (getSnFromTopic topic) payload (mq_decoder m)) = None
      \<and> m' = (snd (markReceived (me_received env) (getSnFromTopic topic) m))
        \<lparr>mq_telemetry := MqttMessage (getSnFromTopic topic) (MessageFormat_String (DetectFormat (me_lib env) payload)) (mq_telemetry m),
         mq_decoder := d\<rparr>\<lparr>mq_telemetry := DecodeError (getSnFromTopic topic) (MessageFormat_String (DetectFormat (me_lib env) payload))
           (mq_telemetry ((snd (markReceived (me_received env) (getSnFromTopic topic) m))
        \<lparr>mq_telemetry := MqttMessage (getSnFromTopic topic) (MessageFormat_String (DetectFormat (me_lib env) payload)) (mq_telemetry m),
         mq_decoder := d\<rparr>))\<rparr>
      \<or> (\<exists>ps effs. fst (decode_payload env (getSnFromTopic topic) payload (mq_decoder m)) = Some ps
        \<and> deliver H env (getSnFromTopic topic) ps ((snd (markReceived (me_received env) (getSnFromTopic topic) m))
        \<lparr>mq_telemetry := MqttMessage (getSnFromTopic topic) (MessageFormat_String (DetectFormat (me_lib env) payload)) (mq_telemetry m),
         mq_decoder := d\<rparr>) = (outcome, effs, m')
        \<and> effects = (if fmlookup (mq_offlineSent m) (getSnFromTopic topic) \<noteq> None then [EffRequest (getSnFromTopic topic)] else []) @ EffDecoded (getSnFromTopic topic) ps # effs)"
      using assms False d
      by (auto simp: MessageHandler_defs Let_def markReceived_def split: option.splits prod.splits if_splits)
  qed (use False in auto)
qed

lemma MessageHandler_keeps:
  assumes "MessageHandler H env topic payload m = (outcome, effects, m')"
  shows "same_config m m'" "state_inv m \<Longrightarrow> state_inv m'" "list_all (effect_ok (mq_devices m)) effects"
    "mq_client m' = mq_client m" "mq_userId m' = mq_userId m" "mq_relogin m' = mq_relogin m"
proof -
  let ?sn = "getSnFromTopic topic"
  have "same_config m m' \<and> (state_inv m \<longrightarrow> state_inv m') \<and> list_all (effect_ok (mq_devices m)) effects
    \<and> mq_client m' = mq_client m \<and> mq_userId m' = mq_userId m \<and> mq_relogin m' = mq_relogin m"
    using assms
  proof (cases rule: MessageHandler_cases)
    case dropped
    then show ?thesis by simp
  next
    case (received m1 d request)
    have sn: "?sn |\<in>| fmdom (mq_devices m)" using received(2) by (simp add: fmlookup_dom_iff)
    have m1: "same_config m m1" "mq_client m1 = mq_client m" "mq_userId m1 = mq_userId m" "mq_relogin m1 = mq_relogin m"
      "mq_devices m1 = mq_devices m" "mq_deviceState m1 = mq_deviceState m"
      by (simp_all add: received(3) same_config_def markReceived_def)
    have inv1: "status_inv m \<Longrightarrow> status_inv m1"
      using markReceived_inv [OF _ sn, of "me_received env"] by (simp add: received(3) status_inv_def markReceived_def)
    have req: "list_all (effect_ok (mq_devices m)) request" using received(2,4) by simp
    from received(5) show ?thesis
    proof
      assume "outcome = Undecodable (DetectFormat (me_lib env) payload) \<and> effects = request
         \<and> fst (decode_payload env ?sn payload (mq_decoder m)) = None
         \<and> m' = m1\<lparr>mq_telemetry := DecodeError ?sn (MessageFormat_String (DetectFormat (me_lib env) payload)) (mq_telemetry m1)\<rparr>"
      then show ?thesis using m1 inv1 req by (auto simp: same_config_def state_inv_def status_inv_def)
    next
      assume "\<exists>ps effs. fst (decode_payload env ?sn payload (mq_decoder m)) = Some ps
         \<and> deliver H env ?sn ps m1 = (outcome, effs, m') \<and> effects = request @ EffDecoded ?sn ps # effs"
      then obtain ps effs where d: "deliver H env ?sn ps m1 = (outcome, effs, m')" "effects = request @ EffDecoded ?sn ps # effs" by blast
      from deliver_frame [OF d(1)] obtain hs t st where
        m': "m' = m1\<lparr>mq_handlers := hs, mq_telemetry := t, mq_deviceState := st\<rparr>" "length hs = length (mq_handlers m1)"
        "fmdom st |\<subseteq>| finsert ?sn (fmdom (mq_deviceState m1))" by blast
      have "list_all (effect_ok (mq_devices m)) effs"
        using deliver_effects [OF d(1)] m1 received(2) by simp
      then show ?thesis
        using m' m1 inv1 req d(2) sn by (auto simp: same_config_def state_inv_def status_inv_def)
    qed
  qed
  then show "same_config m m'" "state_inv m \<Longrightarrow> state_inv m'" "list_all (effect_ok (mq_devices m)) effects"
    "mq_client m' = mq_client m" "mq_userId m' = mq_userId m" "mq_relogin m' = mq_relogin m" by blast+
qed

lemma subscribe_all_keeps:
  "subscribe_all c subscribe now publish sns m = (effects, m') \<Longrightarrow>
   same_but_pings m m' \<and> (set sns \<subseteq> fset (fmdom devices) \<longrightarrow> list_all (effect_ok devices) effects)"
proof (induction sns arbitrary: m effects m')
  case Nil
  then show ?case by (simp add: same_but_pings_refl)
next
  case (Cons sn sns)
  obtain err msg m1 where q: "requestLatestQuotas (now sn) publish sn m = (err, msg, m1)" by (metis surj_pair)
  have f: "same_but_pings m m1" using requestLatestQuotas_frame q by (metis snd_conv)
  show ?case
  proof (cases "subscribe sn")
    case None
    obtain effs where r: "subscribe_all c subscribe now publish sns m1 = (effs, m')"
      "effects = EffSubscribe c sn # (case msg of None \<Rightarrow> [] | Some p \<Rightarrow> [EffPublish p]) @ effs"
      using Cons.prems None q by (auto split: prod.splits)
    from Cons.IH [OF r(1)] r(2) f show ?thesis
      by (auto simp: fmlookup_dom_iff split: option.splits intro: same_but_pings_trans)
  next
    case (Some e)
    obtain effs where r: "subscribe_all c subscribe now publish sns m = (effs, m')" "effects = EffSubscribe c sn # effs"
      using Cons.prems Some by (auto split: prod.splits)
    from Cons.IH [OF r(1)] r(2) show ?thesis by (auto simp: fmlookup_dom_iff)
  qed
qed

lemma initDeviceStatuses_keeps:
  "same_config m (initDeviceStatuses now ks m)" "mq_client (initDeviceStatuses now ks m) = mq_client m"
  "mq_deviceState (initDeviceStatuses now ks m) = mq_deviceState m"
  "mq_handlers (initDeviceStatuses now ks m) = mq_handlers m"
  "mq_devices (initDeviceStatuses now ks m) = mq_devices m"
  by (simp_all add: initDeviceStatuses_def same_config_def)

lemma status_inv_telemetry [simp]: "status_inv (m\<lparr>mq_telemetry := t\<rparr>) = status_inv m"
  by (simp add: status_inv_def)

lemma OnConnect_keeps:
  assumes "OnConnect now subscribe rt publish sns m = Some (effects, m')" and "range_order (mq_devices m) sns"
  shows "same_config m m'" "state_inv m \<Longrightarrow> state_inv m'" "list_all (effect_ok (mq_devices m)) effects"
    "mq_client m' = mq_client m" "mq_handlers m' = mq_handlers m"
proof -
  let ?m0 = "m\<lparr>mq_telemetry := SetMqttConnected True (mq_telemetry m)\<rparr>"
  let ?m1 = "initDeviceStatuses now sns ?m0"
  have c1: "same_config m ?m1" using initDeviceStatuses_keeps [where m = ?m0 and now = now and ks = sns] by (simp add: same_config_def)
  have i1: "state_inv m \<Longrightarrow> state_inv ?m1"
    using initDeviceStatuses_inv [of ?m0 sns now] assms(2) initDeviceStatuses_keeps [where m = ?m0 and now = now and ks = sns]
    by (simp add: state_inv_def)
  have cases: "sns = [] \<and> effects = [] \<and> m' = ?m1 \<or>
      (\<exists>c. subscribe_all c subscribe rt publish sns ?m1 = (effects, m'))"
    using assms(1) by (auto simp: OnConnect_def Let_def initDeviceStatuses_keeps split: if_splits option.splits)
  have "same_but_pings ?m1 m' \<and> list_all (effect_ok (mq_devices m)) effects"
    using cases subscribe_all_keeps [of _ subscribe rt publish sns ?m1 effects m' "mq_devices m"] assms(2)
    by (auto simp: same_but_pings_refl range_order_set)
  then have f: "same_but_pings ?m1 m'" and "list_all (effect_ok (mq_devices m)) effects" by blast+
  then show "list_all (effect_ok (mq_devices m)) effects" by blast
  show "same_config m m'" using c1 same_but_pings_keeps(1) [OF f] same_config_trans by blast
  show "state_inv m \<Longrightarrow> state_inv m'" using i1 same_but_pings_keeps(2) [OF f] by blast
  show "mq_client m' = mq_client m" "mq_handlers m' = mq_handlers m"
    using same_but_pings_fields [OF f] initDeviceStatuses_keeps [where m = ?m0 and now = now and ks = sns] by simp_all
qed

section \<open>Handlers keep their invariant\<close>

text \<open>The handlers are only ever called with new updates, so what a dispatch keeps stays.\<close>

context handler_list
begin

lemma call_handlers_good:
  assumes "good (mq_handlers m)" and "call_handlers handle envs (NewDeviceUpdate now device params) m = (errs, m')"
  shows "good (mq_handlers m')"
proof -
  let ?hs = "zip (map envs [0..<length (mq_handlers m)]) (mq_handlers m)"
  obtain hs u' es where d: "dispatch handle ?hs (NewDeviceUpdate now device params) = (hs, u', es)" by (metis surj_pair)
  from dispatch_good [OF assms(1) d] assms(2) d show ?thesis by (auto simp: call_handlers_def)
qed

lemma deliver_good:
  assumes "good (mq_handlers m)" and "deliver handle env sn ps m = (outcome, effects, m')"
  shows "good (mq_handlers m')"
  using assms
  by (auto simp: deliver_defs Let_def merge_state_def split: if_splits prod.splits dest: call_handlers_good [rotated])

lemma MessageHandler_good:
  assumes "good (mq_handlers m)" and "MessageHandler handle env topic payload m = (outcome, effects, m')"
  shows "good (mq_handlers m')"
  using assms(2)
proof (cases rule: MessageHandler_cases)
  case dropped
  with assms(1) show ?thesis by simp
next
  case (received m1 d request)
  have "mq_handlers m1 = mq_handlers m" by (simp add: received(3) markReceived_def)
  with received(5) assms(1) show ?thesis
    using deliver_good [of m1 env "getSnFromTopic topic" _ outcome _ m'] by auto
qed

end

section \<open>Properties\<close>

lemma go_len_merge: "go_len (m ++\<^sub>f n) = 0 \<Longrightarrow> n = fmempty"
  by (metis fmadd_empty(1) fmadd_idempotent fmap_ext fmlookup_add fmdom_notI fmempty_lookup go_len_zero_iff)

lemma MessageHandler_delivers:
  assumes "getSnFromTopic topic = sn" and "sn \<noteq> []" and "fmlookup (mq_devices m) sn = Some name"
    and "fst (decode_payload env sn payload (mq_decoder m)) = Some ps" and "ps \<noteq> fmempty"
  shows "\<exists>errs effects m' u old. MessageHandler H env topic payload m = (Delivered errs, effects, m')
    \<and> old = case_option fmempty id (fmlookup (mq_deviceState m) sn)
    \<and> effects \<noteq> [] \<and> last effects = EffUpdate u
    \<and> upd_device u = \<lparr>dev_SN = sn, dev_Name = name, dev_Online = 1\<rparr> \<and> upd_params u = old ++\<^sub>f ps
    \<and> mq_deviceState m' = fmupd sn (old ++\<^sub>f ps) (mq_deviceState m)
    \<and> fmlookup (mq_lastReceived m') sn = Some (me_received env) \<and> fmlookup (mq_offlineSent m') sn = None"
proof -
  obtain d where d: "decode_payload env sn payload (mq_decoder m) = (Some ps, d)"
    using assms(4) by (metis prod.collapse)
  have old: "(case fmlookup (mq_deviceState m) sn of None \<Rightarrow> fmempty | Some s \<Rightarrow> s) =
      case_option fmempty id (fmlookup (mq_deviceState m) sn)"
    by (simp split: option.split)
  have ne: "go_len ps \<noteq> 0" "go_len (case_option fmempty id (fmlookup (mq_deviceState m) sn) ++\<^sub>f ps) \<noteq> 0"
    using assms(5) go_len_merge by (auto simp: go_len_zero_iff)
  let ?u = "NewDeviceUpdate (me_update env) \<lparr>dev_SN = sn, dev_Name = name, dev_Online = 1\<rparr>
      (case_option fmempty id (fmlookup (mq_deviceState m) sn) ++\<^sub>f ps)"
  have name: "getDeviceName (mq_devices m) sn = name" using assms(3) by (simp add: getDeviceName_def)
  obtain hs u' errs where disp:
    "dispatch H (zip (map (me_handlers env) [0..<length (mq_handlers m)]) (mq_handlers m)) ?u = (hs, u', errs)"
    by (metis surj_pair)
  show ?thesis
    using assms(1-3) d ne disp
    by (intro exI [of _ errs] exI [of _ "(if fmlookup (mq_offlineSent m) sn \<noteq> None then [EffRequest sn] else []) @ [EffDecoded sn ps, EffUpdate ?u]"])
      (auto simp: MessageHandler_defs Let_def markReceived_def deliver_defs merge_state_def old name call_handlers_def
        NewDeviceUpdate_def)
qed

text \<open>The handlers get the whole state of the device, dispatched once.\<close>

lemma MessageHandler_dispatches:
  assumes "getSnFromTopic topic = sn" and "sn \<noteq> []" and "fmlookup (mq_devices m) sn = Some name"
    and "fst (decode_payload env sn payload (mq_decoder m)) = Some ps" and "ps \<noteq> fmempty"
  shows "mq_handlers (snd (snd (MessageHandler H env topic payload m))) =
    fst (dispatch H (zip (map (me_handlers env) [0..<length (mq_handlers m)]) (mq_handlers m))
      (NewDeviceUpdate (me_update env) \<lparr>dev_SN = sn, dev_Name = name, dev_Online = 1\<rparr>
        (case_option fmempty id (fmlookup (mq_deviceState m) sn) ++\<^sub>f ps)))"
proof -
  obtain d where d: "decode_payload env sn payload (mq_decoder m) = (Some ps, d)"
    using assms(4) by (metis prod.collapse)
  have old: "(case fmlookup (mq_deviceState m) sn of None \<Rightarrow> fmempty | Some s \<Rightarrow> s) =
      case_option fmempty id (fmlookup (mq_deviceState m) sn)"
    by (simp split: option.split)
  have ne: "go_len ps \<noteq> 0" "go_len (case_option fmempty id (fmlookup (mq_deviceState m) sn) ++\<^sub>f ps) \<noteq> 0"
    using assms(5) go_len_merge by (auto simp: go_len_zero_iff)
  have name: "getDeviceName (mq_devices m) sn = name" using assms(3) by (simp add: getDeviceName_def)
  show ?thesis
    using assms(1-3) d ne
    by (simp add: MessageHandler_defs Let_def markReceived_def deliver_defs merge_state_def old name call_handlers_def
        split: prod.split)
qed

text \<open>C10: A message with parameters from a configured device updates the cached state of that device
  with them, keeps every parameter received before, and hands the whole state to the handlers as an
  update of the device, online and under its configured name. The device counts as heard of at
  that time and no longer as offline; no other device's state changes.\<close>
theorem message_delivers_full_state:
  assumes "getSnFromTopic topic = sn" and "sn \<noteq> []" and "fmlookup (mq_devices m) sn = Some name"
    and "fst (decode_payload env sn payload (mq_decoder m)) = Some ps" and "ps \<noteq> fmempty"
  shows "\<exists>errs effects m' u old. MessageHandler H env topic payload m = (Delivered errs, effects, m')
    \<and> old = case_option fmempty id (fmlookup (mq_deviceState m) sn)
    \<and> effects \<noteq> [] \<and> last effects = EffUpdate u
    \<and> upd_device u = \<lparr>dev_SN = sn, dev_Name = name, dev_Online = 1\<rparr> \<and> upd_params u = old ++\<^sub>f ps
    \<and> mq_deviceState m' = fmupd sn (old ++\<^sub>f ps) (mq_deviceState m)
    \<and> fmlookup (mq_lastReceived m') sn = Some (me_received env) \<and> fmlookup (mq_offlineSent m') sn = None"
  using assms by (rule MessageHandler_delivers)

text \<open>A message that is not delivered leaves the handlers and the cached states alone, and the
  exporter's defensive check for an empty state never fires. A message for a device that is not
  configured, or on a malformed topic, changes nothing at all.\<close>
theorem undelivered_message_harmless:
  assumes "MessageHandler H env topic payload m = (outcome, effects, m')" and "\<And>errs. outcome \<noteq> Delivered errs"
  shows "mq_handlers m' = mq_handlers m \<and> mq_deviceState m' = mq_deviceState m \<and> outcome \<noteq> NoState
    \<and> (\<forall>u. EffUpdate u \<notin> set effects)
    \<and> (getSnFromTopic topic = [] \<or> fmlookup (mq_devices m) (getSnFromTopic topic) = None \<longrightarrow> m' = m \<and> effects = [])"
  using assms(1)
proof (cases rule: MessageHandler_cases)
  case dropped
  with assms(1) show ?thesis by (auto simp: MessageHandler_defs Let_def split: if_splits prod.splits option.splits)
next
  case (received m1 d request)
  have m1: "mq_handlers m1 = mq_handlers m" "mq_deviceState m1 = mq_deviceState m"
    by (simp_all add: received(3) markReceived_def)
  have req: "EffUpdate u \<notin> set request" for u using received(4) by auto
  from received(5) show ?thesis
  proof
    assume "outcome = Undecodable (DetectFormat (me_lib env) payload) \<and> effects = request
         \<and> fst (decode_payload env (getSnFromTopic topic) payload (mq_decoder m)) = None
         \<and> m' = m1\<lparr>mq_telemetry := DecodeError (getSnFromTopic topic) (MessageFormat_String (DetectFormat (me_lib env) payload)) (mq_telemetry m1)\<rparr>"
    then show ?thesis using m1 req received(1,2) by auto
  next
    assume "\<exists>ps effs. fst (decode_payload env (getSnFromTopic topic) payload (mq_decoder m)) = Some ps
         \<and> deliver H env (getSnFromTopic topic) ps m1 = (outcome, effs, m') \<and> effects = request @ EffDecoded (getSnFromTopic topic) ps # effs"
    then obtain ps effs where d: "deliver H env (getSnFromTopic topic) ps m1 = (outcome, effs, m')"
      "effects = request @ EffDecoded (getSnFromTopic topic) ps # effs" by blast
    have "outcome = NoParameters \<and> effs = [] \<and> m' = m1"
      using d(1) assms(2) go_len_merge
      by (auto simp: deliver_defs merge_state_def Let_def go_len_zero_iff split: if_splits prod.splits option.splits)
    then show ?thesis using d(2) m1 req received(1,2) by auto
  qed
qed

lemma format_utf8 [simp, intro]: "valid_utf8 (MessageFormat_String f)"
  by (cases f) (simp_all add: code_def)

lemma inc_total_seen [simp]: "inc_total m (DeviceSeen now d t) = inc_total m t"
  by (cases t) (simp_all add: inc_total_def DeviceSeen_def calls_def record_call_def)

text \<open>The exporter's own metrics count every message of a configured device exactly once, with its
  format, and every message that cannot be decoded exactly once as an error, when its serial number
  is valid UTF-8.\<close>
theorem messages_counted:
  assumes "MessageHandler H env topic payload m = (outcome, effects, m')" and "mq_telemetry m \<noteq> None"
    and "getSnFromTopic topic \<noteq> []" and "fmlookup (mq_devices m) (getSnFromTopic topic) \<noteq> None"
    and "valid_utf8 (getSnFromTopic topic)"
  shows "inc_total MqttMessages (mq_telemetry m') = inc_total MqttMessages (mq_telemetry m) + 1
    \<and> inc_total DecodeErrors (mq_telemetry m') = inc_total DecodeErrors (mq_telemetry m)
        + (if outcome = Undecodable (DetectFormat (me_lib env) payload) then 1 else 0)"
  using assms(1)
proof (cases rule: MessageHandler_cases)
  case dropped
  with assms(3,4) show ?thesis by simp
next
  case (received m1 d request)
  let ?f = "MessageFormat_String (DetectFormat (me_lib env) payload)"
  have t1: "mq_telemetry m1 = MqttMessage (getSnFromTopic topic) ?f (mq_telemetry m)" by (simp add: received(3))
  then have ne: "mq_telemetry m1 \<noteq> None" using assms(2) by (simp add: telemetry_defs)
  have c1: "inc_total MqttMessages (mq_telemetry m1) = inc_total MqttMessages (mq_telemetry m) + 1"
    "inc_total DecodeErrors (mq_telemetry m1) = inc_total DecodeErrors (mq_telemetry m)"
    using assms(2,5) by (simp_all add: t1 telemetry_defs inc_total_def metric_labels_def)
  from received(5) show ?thesis
  proof
    assume "outcome = Undecodable (DetectFormat (me_lib env) payload) \<and> effects = request
         \<and> fst (decode_payload env (getSnFromTopic topic) payload (mq_decoder m)) = None
         \<and> m' = m1\<lparr>mq_telemetry := DecodeError (getSnFromTopic topic) ?f (mq_telemetry m1)\<rparr>"
    then show ?thesis using c1 ne assms(5) by (simp add: telemetry_defs inc_total_def metric_labels_def)
  next
    assume "\<exists>ps effs. fst (decode_payload env (getSnFromTopic topic) payload (mq_decoder m)) = Some ps
         \<and> deliver H env (getSnFromTopic topic) ps m1 = (outcome, effs, m') \<and> effects = request @ EffDecoded (getSnFromTopic topic) ps # effs"
    then obtain ps effs where d: "deliver H env (getSnFromTopic topic) ps m1 = (outcome, effs, m')" by blast
    note deliver_telemetry [OF d]
    moreover have "outcome \<noteq> Undecodable (DetectFormat (me_lib env) payload)"
      using d by (auto simp: deliver_defs Let_def split: if_splits prod.splits)
    ultimately show ?thesis using c1 by auto
  qed
qed

section \<open>Witnesses\<close>

definition idle_handler :: "(unit, unit) handler" where
  "idle_handler e h u = (HandleOk, h, u)"

definition sample_message_env :: "unit message_env" where
  "sample_message_env =
     \<lparr>me_received = unix_epoch, me_seen = unix_epoch + 1, me_update = unix_epoch + 2, me_lib = one_header_lib,
      me_device_params = (\<lambda>b. None), me_handlers = (\<lambda>i. ())\<rparr>"

definition sample_topic :: gostring where
  "sample_topic = ''/app/device/property/R1''"

lemma sample_topic_sn: "getSnFromTopic sample_topic = ''R1''"
  by (simp add: sample_topic_def getSnFromTopic_def)

lemma sample_decoded:
  "fst (decode_payload sample_message_env sn [3] d) = Some (fmupd ''bms.3.num'' (VFloat64 (Fin 3)) fmempty)"
proof -
  obtain d' where "DecodeProtobufMessage one_header_lib [3] (LogFirstProtobufMessage sn d) =
      (DecodeOk (fmupd ''bms.3.num'' (VFloat64 (Fin 3)) fmempty), d')"
    using one_header_result by (metis prod.collapse)
  then show ?thesis by (simp add: decode_payload_def sample_message_env_def one_header_detected)
qed

theorem message_delivers_full_state_witness:
  "\<exists>errs effects m'. MessageHandler idle_handler sample_message_env sample_topic [3]
       (sample_mqtt\<lparr>mq_deviceState := fmupd ''R1'' (fmupd ''soc'' (VFloat64 (Fin 80)) fmempty) fmempty\<rparr>)
     = (Delivered errs, effects, m')
   \<and> mq_deviceState m' = fmupd ''R1'' (fmupd ''bms.3.num'' (VFloat64 (Fin 3)) (fmupd ''soc'' (VFloat64 (Fin 80)) fmempty)) fmempty"
proof -
  let ?ps = "fmupd ''bms.3.num'' (VFloat64 (Fin 3)) fmempty"
  let ?m = "sample_mqtt\<lparr>mq_deviceState := fmupd ''R1'' (fmupd ''soc'' (VFloat64 (Fin 80)) fmempty) fmempty\<rparr>"
  have "?ps \<noteq> fmempty" by (metis fmupd_lookup fmempty_lookup option.distinct(1))
  from message_delivers_full_state [OF sample_topic_sn _ _ sample_decoded this, of ?m "''garage''" idle_handler]
  obtain errs effects m' where r: "MessageHandler idle_handler sample_message_env sample_topic [3] ?m = (Delivered errs, effects, m')"
    "mq_deviceState m' = fmupd ''R1'' (case_option fmempty id (fmlookup (mq_deviceState ?m) ''R1'') ++\<^sub>f ?ps) (mq_deviceState ?m)"
    by (auto simp: sample_mqtt_def)
  have "mq_deviceState m' = fmupd ''R1'' (fmupd ''bms.3.num'' (VFloat64 (Fin 3)) (fmupd ''soc'' (VFloat64 (Fin 80)) fmempty)) fmempty"
    unfolding r(2) by (rule fmap_ext) simp
  with r(1) show ?thesis by blast
qed

lemma sample_unconfigured:
  "MessageHandler idle_handler sample_message_env ''/app/device/property/R9'' [3] sample_mqtt = (NotConfigured, [], sample_mqtt)"
  by (simp add: MessageHandler_defs Let_def getSnFromTopic_def sample_mqtt_def)

theorem undelivered_message_harmless_witness:
  "mq_deviceState (snd (snd (MessageHandler idle_handler sample_message_env ''/app/device/property/R9'' [3] sample_mqtt)))
     = mq_deviceState sample_mqtt
   \<and> (\<forall>u. EffUpdate u \<notin> set (fst (snd (MessageHandler idle_handler sample_message_env ''/app/device/property/R9'' [3] sample_mqtt))))"
  using undelivered_message_harmless [OF sample_unconfigured] by (simp add: sample_unconfigured)

theorem messages_counted_witness:
  "\<exists>outcome effects m'. MessageHandler idle_handler sample_message_env sample_topic [3]
       (sample_mqtt\<lparr>mq_telemetry := NewTelemetry ''ecoflow'' ''dev''\<rparr>) = (outcome, effects, m')
     \<and> inc_total MqttMessages (mq_telemetry m') = 1"
proof -
  let ?m = "sample_mqtt\<lparr>mq_telemetry := NewTelemetry ''ecoflow'' ''dev''\<rparr>"
  obtain outcome effects m' where r: "MessageHandler idle_handler sample_message_env sample_topic [3] ?m = (outcome, effects, m')"
    by (metis surj_pair)
  have "mq_telemetry ?m \<noteq> None" "fmlookup (mq_devices ?m) (getSnFromTopic sample_topic) \<noteq> None"
    "inc_total MqttMessages (mq_telemetry ?m) = 0"
    by (simp_all add: NewTelemetry_def sample_topic_sn sample_mqtt_def inc_total_def calls_def record_call_def)
  moreover have "valid_utf8 ''R1''" by (simp add: code_def)
  ultimately show ?thesis using messages_counted [OF r] sample_topic_sn r by auto
qed

end
