(* ===== verification/Mqtt_Callbacks.thy ===== *)
theory Mqtt_Callbacks
  imports Mqtt_Messages
begin

text \<open>
  \<open>mqtt_exporter.go\<close>, fourth part: the callbacks of the client and the goroutines they start, cut
  into the steps between which other goroutines can run. A callback that is at work is a value of
  \<open>callback\<close>, which says how far it has come and what it has found out; \<open>callback_step\<close> is what it
  does next. \<open>MessageHandler\<close> is interrupted before it decodes the payload, before it merges the
  parameters (under \<open>stateMu\<close>) and before it dispatches the update, \<open>OnConnect\<close> before every subscription
  and every request. A request is one step.

  A message that is handled without interruption is handled as the sequential \<open>MessageHandler\<close> does
  it (\<open>message_handler_steps\<close>).
\<close>

section \<open>Steps of the callbacks\<close>

datatype callback =
    MsgArrived gostring "byte list"
  | MsgDecode gostring "byte list"
  | MsgMerge gostring params
  | MsgDispatch gostring params
  | ConnStart
  | ConnSubscribe "gostring list"
  | ConnRequest gostring "gostring list"
  | ConnLost
  | ConnRetry
  | Request gostring

text \<open>What the client library calls; the rest comes from the callbacks themselves.\<close>

fun from_client :: "callback \<Rightarrow> bool" where
  "from_client (MsgArrived topic payload) = True"
| "from_client ConnStart = True"
| "from_client ConnLost = True"
| "from_client ConnRetry = True"
| "from_client _ = False"

definition sent :: "published option \<Rightarrow> mqtt_effect list" where
  "sent msg = (case msg of None \<Rightarrow> [] | Some p \<Rightarrow> [EffPublish p])"

text \<open>
  The step of a callback at the time \<open>now\<close> yields its effects, the callback that is left of it,
  if any, followed by the goroutine it has started, and the exporter afterwards.
\<close>

inductive callback_step ::
  "('e, 'h) handler \<Rightarrow> time \<Rightarrow> callback \<Rightarrow> 'h mqtt \<Rightarrow> mqtt_effect list \<Rightarrow> callback list \<Rightarrow> 'h mqtt \<Rightarrow> bool"
  for H now where
  msg_ignored:
    "getSnFromTopic topic = [] \<or> fmlookup (mq_devices m) (getSnFromTopic topic) = None \<Longrightarrow>
     callback_step H now (MsgArrived topic payload) m [] [] m"
| msg_received:
    "getSnFromTopic topic = sn \<Longrightarrow> sn \<noteq> [] \<Longrightarrow> fmlookup (mq_devices m) sn \<noteq> None \<Longrightarrow>
     markReceived now sn m = (wasOffline, m') \<Longrightarrow>
     callback_step H now (MsgArrived topic payload) m (if wasOffline then [EffRequest sn] else [])
       (MsgDecode sn payload # (if wasOffline then [Request sn] else [])) m'"
| msg_undecodable:
    "decode_message (env :: 'e message_env) sn payload m = (None, m') \<Longrightarrow> callback_step H now (MsgDecode sn payload) m [] [] m'"
| msg_decoded:
    "decode_message (env :: 'e message_env) sn payload m = (Some ps, m') \<Longrightarrow>
     callback_step H now (MsgDecode sn payload) m [EffDecoded sn ps] [MsgMerge sn ps] m'"
| msg_empty:
    "go_len ps = 0 \<Longrightarrow> callback_step H now (MsgMerge sn ps) m [] [] m"
| msg_merged:
    "go_len ps \<noteq> 0 \<Longrightarrow> merge_state sn ps m = (full, m') \<Longrightarrow>
     callback_step H now (MsgMerge sn ps) m [] [MsgDispatch sn full] m'"
| msg_dispatched:
    "dispatch_state H env sn full m = (outcome, effects, m') \<Longrightarrow>
     callback_step H now (MsgDispatch sn full) m effects [] m'"
| conn_start:
    "range_order (mq_devices m) sns \<Longrightarrow>
     callback_step H now ConnStart m [] [ConnSubscribe sns]
       (initDeviceStatuses now sns (m\<lparr>mq_telemetry := SetMqttConnected True (mq_telemetry m)\<rparr>))"
| conn_refused:
    "mq_client m = Some c \<Longrightarrow>
     callback_step H now (ConnSubscribe (sn # sns)) m [EffSubscribe c sn] [ConnSubscribe sns] m"
| conn_subscribed:
    "mq_client m = Some c \<Longrightarrow>
     callback_step H now (ConnSubscribe (sn # sns)) m [EffSubscribe c sn] [ConnRequest sn sns] m"
| conn_requested:
    "requestLatestQuotas now publish sn m = (err, msg, m') \<Longrightarrow>
     callback_step H now (ConnRequest sn sns) m (sent msg) [ConnSubscribe sns] m'"
| conn_done:
    "callback_step H now (ConnSubscribe []) m [] [] m"
| conn_lost:
    "callback_step H now ConnLost m [] [] (OnConnectionLost m)"
| conn_retry:
    "callback_step H now ConnRetry m [] [] (OnReconnect m)"
| requested:
    "requestLatestQuotas now publish sn m = (err, msg, m') \<Longrightarrow>
     callback_step H now (Request sn) m (sent msg) [] m'"

text \<open>\<open>OnConnect\<close> dereferences the client of the current session at every subscription.\<close>

fun dereferences_nil :: "callback \<Rightarrow> 'h mqtt \<Rightarrow> bool" where
  "dereferences_nil (ConnSubscribe (sn # sns)) m = (mq_client m = None)"
| "dereferences_nil _ m = False"

text \<open>Callbacks at work one after the other; what they start is left.\<close>

inductive callback_runs ::
  "('e, 'h) handler \<Rightarrow> time \<Rightarrow> callback list \<Rightarrow> 'h mqtt \<Rightarrow> mqtt_effect list \<Rightarrow> callback list \<Rightarrow> 'h mqtt \<Rightarrow> bool"
  for H now where
  runs_none: "callback_runs H now cbs m [] cbs m"
| runs_more:
    "callback_step H now cb m effects new m1 \<Longrightarrow> callback_runs H now (new @ cbs) m1 effects' cbs' m2 \<Longrightarrow>
     callback_runs H now (cb # cbs) m (effects @ effects') cbs' m2"

inductive_cases ArrivedE: "callback_step H now (MsgArrived topic payload) m effects new m'"
inductive_cases DecodeE: "callback_step H now (MsgDecode sn payload) m effects new m'"
inductive_cases MergeE: "callback_step H now (MsgMerge sn ps) m effects new m'"
inductive_cases DispatchE: "callback_step H now (MsgDispatch sn full) m effects new m'"
inductive_cases RequestE: "callback_step H now (Request sn) m effects new m'"
inductive_cases RunsNilE: "callback_runs H now [] m effects cbs' m'"

lemma runs_ConsE:
  assumes "callback_runs H now (cb # cbs) m effects cbs' m'" and "cbs' \<noteq> cb # cbs"
  obtains es new m1 es' where "callback_step H now cb m es new m1" "callback_runs H now (new @ cbs) m1 es' cbs' m'"
    "effects = es @ es'"
  using assms by (auto elim: callback_runs.cases)

section \<open>What every operation keeps\<close>

text \<open>
  The configuration and the client stay, the invariant of the state is kept and no device loses
  its status. Only the session changes the client.
\<close>

definition mqtt_keeps :: "'h mqtt \<Rightarrow> 'h mqtt \<Rightarrow> bool" where
  "mqtt_keeps m m' \<longleftrightarrow> same_config m m' \<and> mq_client m' = mq_client m \<and> (state_inv m \<longrightarrow> state_inv m')
     \<and> fmdom (mq_lastReceived m) |\<subseteq>| fmdom (mq_lastReceived m')"

named_theorems keeps_intros \<open>the operations keep the state of the exporter\<close>

lemma mqtt_keeps_refl [keeps_intros]: "mqtt_keeps m m"
  by (simp add: mqtt_keeps_def)

lemma mqtt_keeps_pings [keeps_intros]: "same_but_pings m m' \<Longrightarrow> mqtt_keeps m m'"
  using same_but_pings_keeps [of m m'] same_but_pings_fields [of m m'] by (simp add: mqtt_keeps_def)

lemma mqtt_keeps_telemetry [keeps_intros]: "mqtt_keeps m (m\<lparr>mq_telemetry := t\<rparr>)"
  by (simp add: mqtt_keeps_def same_config_def state_inv_def)

lemma mqtt_keeps_relogin [keeps_intros]: "mqtt_keeps m (m\<lparr>mq_relogin := b\<rparr>)" "mqtt_keeps m (requestRelogin m)"
  by (simp_all add: mqtt_keeps_def same_config_def state_inv_def status_inv_def requestRelogin_def)

lemma mqtt_keeps_callbacks [keeps_intros]: "mqtt_keeps m (OnConnectionLost m)" "mqtt_keeps m (OnReconnect m)"
  by (simp_all add: OnConnectionLost_def OnReconnect_def keeps_intros)

lemma mqtt_keeps_login [keeps_intros]: "mqtt_login post new_client m = (r, m') \<Longrightarrow> mqtt_keeps m m'"
  by (auto simp: mqtt_login_def mqtt_keeps_def same_config_def state_inv_def status_inv_def split: sum.splits)

lemma mqtt_keeps_reconnectDue [keeps_intros]: "reconnectDue now m = (due, m') \<Longrightarrow> mqtt_keeps m m'"
  using reconnectDue_inv [of m now]
  by (auto simp: mqtt_keeps_def same_config_def state_inv_def reconnectDue_def Let_def split: if_splits)

lemma mqtt_keeps_reloginDue [keeps_intros]: "reloginDue m = (due, m') \<Longrightarrow> mqtt_keeps m m'"
  using reloginDue_inv [of m]
  by (auto simp: mqtt_keeps_def same_config_def state_inv_def reloginDue_def Let_def split: if_splits)

lemma mqtt_keeps_offline [keeps_intros]:
  assumes "set offline \<subseteq> fset (fmdom (mq_lastReceived m))" and "offlineUpdatesDue now offline m = (due, m')"
  shows "mqtt_keeps m m'"
proof -
  have "m' = m\<lparr>mq_offlineSent := mq_offlineSent m'\<rparr>"
    using assms(2) by (auto simp: offlineUpdatesDue_def split: prod.splits)
  then have f: "same_config m m'" "mq_client m' = mq_client m" "mq_lastReceived m' = mq_lastReceived m"
    "mq_deviceState m' = mq_deviceState m" "mq_devices m' = mq_devices m"
    by (cases m, cases m', simp add: same_config_def)+
  have "status_inv m \<Longrightarrow> status_inv m'" using offlineUpdatesDue_inv [OF _ assms(1), of now] assms(2) by simp
  with f show ?thesis by (simp add: mqtt_keeps_def state_inv_def)
qed

lemma mqtt_keeps_handlers [keeps_intros]: "call_handlers H envs u m = (errs, m') \<Longrightarrow> mqtt_keeps m m'"
  using call_handlers_frame [of H envs u m errs m']
  by (auto simp: mqtt_keeps_def same_config_def state_inv_def status_inv_def)

text \<open>A request and a ping touch only the telemetry and the ping counters.\<close>

lemma request_same: "requestLatestQuotas now publish sn m = (err, msg, m') \<Longrightarrow> same_but_pings m m'"
  using requestLatestQuotas_frame by (metis snd_conv)

lemma ping_device_same: "ping_device refresh now clk publish sn m = (msg, m') \<Longrightarrow> same_but_pings m m'"
  using ping_device_frame by (metis snd_conv)

lemma mqtt_keeps_request [keeps_intros]: "requestLatestQuotas now publish sn m = (err, msg, m') \<Longrightarrow> mqtt_keeps m m'"
  by (intro mqtt_keeps_pings request_same)

lemma mqtt_keeps_trans: "mqtt_keeps m m' \<Longrightarrow> mqtt_keeps m' m'' \<Longrightarrow> mqtt_keeps m m''"
  by (auto simp: mqtt_keeps_def intro: same_config_trans)

lemma mqtt_keeps_received [keeps_intros]:
  assumes "markReceived now sn m = (b, m')" and "fmlookup (mq_devices m) sn \<noteq> None"
  shows "mqtt_keeps m m'"
proof -
  have m': "m' = snd (markReceived now sn m)" using assms(1) by simp
  have "sn |\<in>| fmdom (mq_devices m)" using assms(2) by (simp add: fmlookup_dom_iff)
  then show ?thesis
    using markReceived_inv [of m sn now]
    by (auto simp: m' mqtt_keeps_def state_inv_def same_config_def markReceived_def)
qed

lemma mqtt_keeps_decode [keeps_intros]: "decode_message env sn payload m = (r, m') \<Longrightarrow> mqtt_keeps m m'"
  by (auto simp: decode_message_def Let_def mqtt_keeps_def same_config_def state_inv_def status_inv_def
      split: prod.splits option.splits)

lemma mqtt_keeps_merge [keeps_intros]:
  assumes "merge_state sn ps m = (full, m')" and "fmlookup (mq_devices m) sn \<noteq> None"
  shows "mqtt_keeps m m'"
proof -
  have "m' = m\<lparr>mq_deviceState := fmupd sn full (mq_deviceState m)\<rparr>"
    using assms(1) by (auto simp: merge_state_def Let_def)
  moreover have "sn |\<in>| fmdom (mq_devices m)" using assms(2) by (simp add: fmlookup_dom_iff)
  ultimately show ?thesis by (simp add: mqtt_keeps_def same_config_def state_inv_def status_inv_def)
qed

lemma mqtt_keeps_dispatch [keeps_intros]:
  assumes "dispatch_state H env sn full m = (outcome, effects, m')"
  shows "mqtt_keeps m m'"
proof -
  have "m' = m \<or> (\<exists>errs d u. call_handlers H (me_handlers env) u
      (m\<lparr>mq_telemetry := DeviceSeen (me_seen env) d (mq_telemetry m)\<rparr>) = (errs, m'))"
    using assms by (auto simp: dispatch_state_def Let_def split: if_splits prod.splits)
  then show ?thesis
    by (auto intro: keeps_intros mqtt_keeps_trans [OF mqtt_keeps_telemetry mqtt_keeps_handlers])
qed

lemma mqtt_keeps_init [keeps_intros]:
  assumes "range_order (mq_devices m) sns"
  shows "mqtt_keeps m (initDeviceStatuses now sns (m\<lparr>mq_telemetry := t\<rparr>))"
proof -
  let ?m0 = "m\<lparr>mq_telemetry := t\<rparr>"
  have "same_config m (initDeviceStatuses now sns ?m0)"
    using initDeviceStatuses_keeps(1) [where m = ?m0 and now = now and ks = sns] by (simp add: same_config_def)
  moreover have "fmdom (mq_lastReceived m) |\<subseteq>| fmdom (mq_lastReceived (initDeviceStatuses now sns ?m0))"
    by (auto simp: initDeviceStatuses_def fmlookup_dom_iff init_lookup split: option.split)
  moreover have "state_inv m \<Longrightarrow> state_inv (initDeviceStatuses now sns ?m0)"
    using initDeviceStatuses_inv [of ?m0 sns now] assms
      initDeviceStatuses_keeps [where m = ?m0 and now = now and ks = sns] by (simp add: state_inv_def)
  ultimately show ?thesis
    using initDeviceStatuses_keeps(2) [where m = ?m0 and now = now and ks = sns] by (simp add: mqtt_keeps_def)
qed

text \<open>A callback that is at work knows only configured devices.\<close>

fun callback_ok :: "(gostring, gostring) fmap \<Rightarrow> callback \<Rightarrow> bool" where
  "callback_ok devices (MsgDecode sn payload) = (fmlookup devices sn \<noteq> None)"
| "callback_ok devices (MsgMerge sn ps) = (fmlookup devices sn \<noteq> None)"
| "callback_ok devices (MsgDispatch sn full) = (fmlookup devices sn \<noteq> None)"
| "callback_ok devices (ConnSubscribe sns) = (set sns \<subseteq> fset (fmdom devices))"
| "callback_ok devices (ConnRequest sn sns) = (fmlookup devices sn \<noteq> None \<and> set sns \<subseteq> fset (fmdom devices))"
| "callback_ok devices (Request sn) = (fmlookup devices sn \<noteq> None)"
| "callback_ok devices _ = True"

lemma from_client_ok: "from_client cb \<Longrightarrow> callback_ok devices cb"
  by (cases cb) auto

lemma sent_ok [simp]: "list_all (effect_ok devices) (sent msg)" "EffConnect c \<notin> set (sent msg)"
    "EffUpdate u \<notin> set (sent msg)" "EffDecoded sn ps \<notin> set (sent msg)"
  by (auto simp: sent_def split: option.split)

lemma dispatch_state_effects:
  assumes "dispatch_state H env sn full m = (outcome, effects, m')"
  shows "effects = [] \<or> (\<exists>now. effects = [EffUpdate (NewDeviceUpdate now
    \<lparr>dev_SN = sn, dev_Name = getDeviceName (mq_devices m) sn, dev_Online = 1\<rparr> full)])"
  using assms by (auto simp: dispatch_state_def Let_def split: if_splits prod.splits)

lemma dispatch_state_ok:
  assumes "dispatch_state H env sn full m = (outcome, effects, m')" and "fmlookup (mq_devices m) sn \<noteq> None"
  shows "list_all (effect_ok (mq_devices m)) effects" and "EffConnect c \<notin> set effects"
  using dispatch_state_effects [OF assms(1)] assms(2)
  by (auto simp: update_ok_def getDeviceName_def NewDeviceUpdate_def)

lemma callback_step_keeps:
  assumes "callback_step H now cb m effects new m'" and "callback_ok (mq_devices m) cb"
  shows "mqtt_keeps m m' \<and> list_all (effect_ok (mq_devices m)) effects \<and> list_all (callback_ok (mq_devices m)) new
    \<and> (\<forall>c. EffConnect c \<notin> set effects)"
  using assms
proof (induction rule: callback_step.induct)
  case (msg_dispatched env sn full m outcome effects m')
  then have "fmlookup (mq_devices m) sn \<noteq> None" by simp
  with dispatch_state_ok [OF msg_dispatched(1)] mqtt_keeps_dispatch [OF msg_dispatched(1)] show ?case by simp
qed (auto intro: keeps_intros simp: range_order_set fmlookup_dom_iff)

section \<open>Callbacks without interruption\<close>

lemma decode_message_env:
  "me_lib env = me_lib env' \<Longrightarrow> me_device_params env = me_device_params env' \<Longrightarrow>
   decode_message env sn payload m = decode_message env' sn payload m"
  by (simp add: decode_message_def decode_payload_def Let_def cong: MessageFormat.case_cong)

lemma dispatch_state_env:
  "me_seen env = me_seen env' \<Longrightarrow> me_update env = me_update env' \<Longrightarrow> me_handlers env = me_handlers env' \<Longrightarrow>
   dispatch_state H env sn full m = dispatch_state H env' sn full m"
  by (simp add: dispatch_state_def Let_def)

definition starts :: "mqtt_effect list \<Rightarrow> callback list" where
  "starts effects = List.map_filter (\<lambda>e. case e of EffRequest sn \<Rightarrow> Some (Request sn) | _ \<Rightarrow> None) effects"

lemma starts_simps [simp]:
  "starts [] = []" "starts (EffRequest sn # es) = Request sn # starts es"
  "starts (EffDecoded sn ps # es) = starts es" "starts (EffUpdate u # es) = starts es"
  by (simp_all add: starts_def List.map_filter_simps)

lemma starts_dispatch: "dispatch_state H env sn full m = (outcome, effects, m') \<Longrightarrow> starts effects = []"
  by (auto dest!: dispatch_state_effects)

text \<open>A message runs through its steps exactly as the handler does it in one go.\<close>

lemma handler_runs_arrived:
  assumes "MessageHandler H env topic payload m = (outcome, effects, m')" and "me_received env = now"
  shows "callback_runs H now [MsgArrived topic payload] m effects (starts effects) m'"
proof (cases "getSnFromTopic topic = [] \<or> fmlookup (mq_devices m) (getSnFromTopic topic) = None")
  case True
  then have r: "effects = []" "m' = m" using assms(1) by (auto simp: MessageHandler_def Let_def split: if_splits)
  from runs_more [OF msg_ignored [OF True] runs_none] r show ?thesis by simp
next
  case False
  let ?sn = "getSnFromTopic topic"
  from False obtain name where sn: "?sn \<noteq> []" "fmlookup (mq_devices m) ?sn = Some name" by auto
  obtain off m1 where rec: "markReceived now ?sn m = (off, m1)" by (metis surj_pair)
  let ?req = "if off then [EffRequest ?sn] else []"
  let ?go = "if off then [Request ?sn] else []"
  have arrived: "callback_runs H now [MsgArrived topic payload] m (?req @ es) cbs m2"
    if "callback_runs H now (MsgDecode ?sn payload # ?go) m1 es cbs m2" for es cbs m2
  proof -
    have "callback_step H now (MsgArrived topic payload) m ?req (MsgDecode ?sn payload # ?go) m1"
      using False rec by (intro msg_received) auto
    then show ?thesis by (rule runs_more) (use that in simp)
  qed
  have req: "starts (?req @ es) = ?go @ starts es" for es by simp
  obtain r m2 where dec: "decode_message env ?sn payload m1 = (r, m2)" by (metis surj_pair)
  show ?thesis
  proof (cases r)
    case None
    then have res: "effects = ?req @ []" "m' = m2"
      using assms sn rec dec by (simp_all add: MessageHandler_def Let_def None split: if_splits)
    have "callback_runs H now (MsgDecode ?sn payload # ?go) m1 ([] @ []) ?go m2"
      by (rule runs_more [OF msg_undecodable]) (use dec None in \<open>auto intro: runs_none\<close>)
    from arrived [OF this] show ?thesis unfolding res req by simp
  next
    case (Some ps)
    obtain es where del: "deliver H env ?sn ps m2 = (outcome, es, m')" "effects = ?req @ EffDecoded ?sn ps # es"
      using assms sn rec dec Some by (auto simp: MessageHandler_def Let_def split: prod.splits)
    have decoded: "callback_runs H now (MsgDecode ?sn payload # ?go) m1 ([EffDecoded ?sn ps] @ es) ?go m'"
      if "callback_runs H now (MsgMerge ?sn ps # ?go) m2 es ?go m'"
      by (rule runs_more [OF msg_decoded]) (use dec Some that in simp_all)
    show ?thesis
    proof (cases "go_len ps = 0")
      case True
      then have "es = []" "m' = m2" using del(1) by (simp_all add: deliver_def)
      then have "callback_runs H now (MsgMerge ?sn ps # ?go) m2 es ?go m'"
        using runs_more [OF msg_empty [OF True], of H now "?go" m2 "[]" "?go" m2 ?sn] by (simp add: runs_none)
      from arrived [OF decoded [OF this]] \<open>es = []\<close> show ?thesis unfolding del(2) req by simp
    next
      case False
      obtain full m3 where mer: "merge_state ?sn ps m2 = (full, m3)" by (metis surj_pair)
      then have dis: "dispatch_state H env ?sn full m3 = (outcome, es, m')" using del(1) False by (simp add: deliver_def)
      have d: "callback_runs H now (MsgDispatch ?sn full # ?go) m3 (es @ []) ?go m'"
        by (rule runs_more [OF msg_dispatched [OF dis]]) (simp add: runs_none)
      have "callback_runs H now (MsgMerge ?sn ps # ?go) m2 ([] @ (es @ [])) ?go m'"
        by (rule runs_more [OF msg_merged [OF False mer]]) (use d in simp)
      then have "callback_runs H now (MsgMerge ?sn ps # ?go) m2 es ?go m'" by simp
      from arrived [OF decoded [OF this]] starts_dispatch [OF dis] show ?thesis unfolding del(2) req by simp
    qed
  qed
qed

text \<open>So do the subscriptions of \<open>OnConnect\<close>, when the clock stands still.\<close>

lemma runs_single:
  "callback_step H now cb m es [cb'] m1 \<Longrightarrow> callback_runs H now [cb'] m1 es' cbs m2 \<Longrightarrow>
   callback_runs H now [cb] m (es @ es') cbs m2"
  by (rule runs_more) simp_all

lemma subscribe_runs:
  assumes "subscribe_all c subscribe (\<lambda>sn. now) publish sns m = (effects, m')" and "mq_client m = Some c"
  shows "callback_runs H now [ConnSubscribe sns] m effects [] m'"
  using assms
proof (induction sns arbitrary: m effects)
  case Nil
  then show ?case using runs_more [OF conn_done, of H now "[]" m "[]" "[]" m] by (simp add: runs_none)
next
  case (Cons sn sns)
  show ?case
  proof (cases "subscribe sn")
    case None
    obtain err msg m1 where q: "requestLatestQuotas now publish sn m = (err, msg, m1)" by (metis surj_pair)
    then obtain effs where r: "subscribe_all c subscribe (\<lambda>sn. now) publish sns m1 = (effs, m')"
      "effects = [EffSubscribe c sn] @ (sent msg @ effs)"
      using Cons.prems None by (auto simp: sent_def split: prod.splits)
    have "mq_client m1 = Some c" using same_but_pings_fields(1) [OF request_same [OF q]] Cons.prems by simp
    from runs_single [OF conn_subscribed [OF Cons.prems(2)] runs_single [OF conn_requested [OF q] Cons.IH [OF r(1) this]]]
    show ?thesis unfolding r(2) .
  next
    case (Some e)
    obtain effs where r: "subscribe_all c subscribe (\<lambda>sn. now) publish sns m = (effs, m')" "effects = [EffSubscribe c sn] @ effs"
      using Cons.prems Some by (auto split: prod.splits)
    from runs_single [OF conn_refused [OF Cons.prems(2)] Cons.IH [OF r(1) Cons.prems(2)]] show ?thesis
      unfolding r(2) .
  qed
qed

lemma connect_runs:
  assumes "OnConnect now subscribe (\<lambda>sn. now) publish sns m = Some (effects, m')" and "range_order (mq_devices m) sns"
  shows "callback_runs H now [ConnStart] m effects [] m'"
proof -
  let ?m1 = "initDeviceStatuses now sns (m\<lparr>mq_telemetry := SetMqttConnected True (mq_telemetry m)\<rparr>)"
  have "callback_runs H now [ConnSubscribe sns] ?m1 effects [] m'"
  proof (cases "sns = []")
    case True
    then have "effects = []" "m' = ?m1" using assms(1) by (simp_all add: OnConnect_def Let_def)
    with True runs_more [OF conn_done, of H now "[]" ?m1 "[]" "[]" ?m1] show ?thesis by (simp add: runs_none)
  next
    case False
    with assms(1) obtain c where "mq_client ?m1 = Some c" "subscribe_all c subscribe (\<lambda>sn. now) publish sns ?m1 = (effects, m')"
      by (auto simp: OnConnect_def Let_def split: option.splits)
    then show ?thesis by (intro subscribe_runs)
  qed
  from runs_single [OF conn_start [OF assms(2)] this] show ?thesis by simp
qed

text \<open>The other direction: what was read of the outside in the single steps is one environment.\<close>

fun in_message :: "callback \<Rightarrow> bool" where
  "in_message (MsgDecode sn payload) = True"
| "in_message (MsgMerge sn ps) = True"
| "in_message (MsgDispatch sn full) = True"
| "in_message (Request sn) = True"
| "in_message _ = False"

lemma starts_append: "starts (es @ es') = starts es @ starts es'"
  by (simp add: starts_def List.map_filter_def)

lemma starts_sent [simp]: "starts (sent msg) = []"
  by (simp add: starts_def sent_def List.map_filter_simps split: option.split)

lemma in_message_starts:
  "callback_runs H now cbs m effects cbs' m' \<Longrightarrow> list_all in_message cbs \<Longrightarrow> starts effects = []"
proof (induction rule: callback_runs.induct)
  case (runs_more cb m effects new m1 cbs effects' cbs' m2)
  have "starts effects = [] \<and> list_all in_message new"
    using runs_more.hyps(1) runs_more.prems by cases (auto dest: starts_dispatch)
  with runs_more show ?case by (simp add: starts_append)
qed simp

text \<open>The goroutine that a message may have started is not run by these.\<close>

definition left_over :: "callback list \<Rightarrow> bool" where
  "left_over go \<longleftrightarrow> go = [] \<or> (\<exists>sn. go = [Request sn])"

lemma run_left_over:
  "callback_runs H now go m es go m' \<Longrightarrow> left_over go \<Longrightarrow> es = [] \<and> m' = m"
  by (auto simp: left_over_def elim!: RequestE RunsNilE elim: callback_runs.cases)

lemma run_dispatch:
  assumes "callback_runs H now (MsgDispatch sn full # go) m es go m'" and "left_over go"
  shows "\<exists>env outcome. dispatch_state H env sn full m = (outcome, es, m')"
proof -
  obtain es1 new m1 es2 where r: "callback_step H now (MsgDispatch sn full) m es1 new m1"
    "callback_runs H now (new @ go) m1 es2 go m'" "es = es1 @ es2"
    by (rule runs_ConsE [OF assms(1)]) auto
  from r(1) obtain env outcome where d: "new = []" "dispatch_state H env sn full m = (outcome, es1, m1)"
    by (rule DispatchE) blast
  then have "es2 = [] \<and> m' = m1" using r(2) run_left_over [OF _ assms(2)] by simp
  with d(2) r(3) show ?thesis by (intro exI [of _ env] exI [of _ outcome]) simp
qed

lemma run_merge:
  assumes "callback_runs H now (MsgMerge sn ps # go) m es go m'" and "left_over go"
  shows "\<exists>env outcome. deliver H env sn ps m = (outcome, es, m')"
proof -
  obtain es1 new m1 es2 where r: "callback_step H now (MsgMerge sn ps) m es1 new m1"
    "callback_runs H now (new @ go) m1 es2 go m'" "es = es1 @ es2"
    by (rule runs_ConsE [OF assms(1)]) auto
  from r(1) show ?thesis
  proof (rule MergeE)
    assume "es1 = []" "new = []" "m1 = m" "go_len ps = 0"
    then show ?thesis using r(2,3) run_left_over [OF _ assms(2)] by (fastforce simp: deliver_def)
  next
    fix full
    assume "es1 = []" "new = [MsgDispatch sn full]" "0 < go_len ps" "merge_state sn ps m = (full, m1)"
    then show ?thesis using r(2,3) run_dispatch [OF _ assms(2)] by (fastforce simp: deliver_def)
  qed
qed

lemma run_decode:
  fixes H :: "('e, 'h) handler"
  assumes "callback_runs H now (MsgDecode sn payload # go) m es go m'" and "left_over go"
  obtains (undecodable) env :: "'e message_env" where "decode_message env sn payload m = (None, m')" "es = []"
  | (decoded) env1 :: "'e message_env" and env2 ps m1 es' outcome where "decode_message env1 sn payload m = (Some ps, m1)"
      "deliver H env2 sn ps m1 = (outcome, es', m')" "es = EffDecoded sn ps # es'"
proof -
  obtain es1 new m1 es2 where r: "callback_step H now (MsgDecode sn payload) m es1 new m1"
    "callback_runs H now (new @ go) m1 es2 go m'" "es = es1 @ es2"
    by (rule runs_ConsE [OF assms(1)]) auto
  from r(1) show ?thesis
  proof (rule DecodeE)
    fix env :: "'e message_env"
    assume "es1 = []" "new = []" "decode_message env sn payload m = (None, m1)"
    moreover from this(2) have "es2 = [] \<and> m' = m1" using r(2) run_left_over [OF _ assms(2)] by simp
    ultimately show ?thesis using r(3) by (intro undecodable [of env]) auto
  next
    fix env :: "'e message_env" and ps
    assume *: "es1 = [EffDecoded sn ps]" "new = [MsgMerge sn ps]" "decode_message env sn payload m = (Some ps, m1)"
    with r(2) run_merge [OF _ assms(2)] obtain env2 outcome where
      "deliver H env2 sn ps m1 = (outcome, es2, m')" by fastforce
    with * r(3) show ?thesis by (intro decoded [of env ps m1 env2 outcome es2]) auto
  qed
qed

lemma runs_arrived_handler:
  assumes "callback_runs H now [MsgArrived topic payload] m effects (starts effects) m'"
  shows "\<exists>env outcome. me_received env = now \<and> MessageHandler H env topic payload m = (outcome, effects, m')"
proof -
  let ?sn = "getSnFromTopic topic"
  have "starts effects \<noteq> [MsgArrived topic payload]"
    by (auto simp: starts_def List.map_filter_def filter_eq_Cons_iff split: mqtt_effect.splits)
  then obtain es1 new m1 es2 where r: "callback_step H now (MsgArrived topic payload) m es1 new m1"
    "callback_runs H now (new @ []) m1 es2 (starts effects) m'" "effects = es1 @ es2"
    by (rule runs_ConsE [OF assms])
  from r(1) show ?thesis
  proof (rule ArrivedE)
    assume 1: "es1 = []" "new = []" "m1 = m" "?sn = [] \<or> fmlookup (mq_devices m) ?sn = None"
    then have "effects = []" "m' = m" using r(2,3) by (auto elim: RunsNilE)
    then show ?thesis using 1 by (intro exI [of _ "message_env.make now undefined undefined undefined undefined undefined"])
        (auto simp: MessageHandler_def Let_def message_env.defs)
  next
    fix off name
    assume 2: "es1 = (if off then [EffRequest ?sn] else [])"
      "new = MsgDecode ?sn payload # (if off then [Request ?sn] else [])" "?sn \<noteq> []"
      "markReceived now ?sn m = (off, m1)" "fmlookup (mq_devices m) ?sn = Some name"
    let ?go = "if off then [Request ?sn] else []"
    have run: "callback_runs H now (MsgDecode ?sn payload # ?go) m1 es2 (starts effects) m'"
      using r(2) 2(2) by (simp split: if_splits)
    have "starts es2 = []" by (rule in_message_starts [OF run]) simp
    then have go: "starts effects = ?go" using r(3) 2(1) by simp
    have lo: "left_over ?go" by (simp add: left_over_def)
    from run [unfolded go] lo show ?thesis
    proof (cases rule: run_decode)
      case (undecodable env)
      let ?env = "env\<lparr>me_received := now\<rparr>"
      have "decode_message ?env ?sn payload m1 = (None, m')"
        using undecodable(1) by (subst decode_message_env [of _ env]) simp_all
      then show ?thesis using 2 undecodable(2) r(3)
        by (intro exI [of _ ?env] exI [of _ "Undecodable (DetectFormat (me_lib ?env) payload)"])
          (simp add: MessageHandler_def Let_def)
    next
      case (decoded env1 env2 ps m2 es' outcome)
      let ?env = "env2\<lparr>me_received := now, me_lib := me_lib env1, me_device_params := me_device_params env1\<rparr>"
      have "decode_message ?env ?sn payload m1 = (Some ps, m2)"
        using decoded(1) by (subst decode_message_env [of _ env1]) simp_all
      moreover have "deliver H ?env ?sn ps m2 = (outcome, es', m')"
        using decoded(2) by (simp add: deliver_def dispatch_state_env [of ?env env2] split: if_splits)
      ultimately show ?thesis using 2 decoded(3) r(3)
        by (intro exI [of _ ?env] exI [of _ outcome]) (simp add: MessageHandler_def Let_def)
    qed
  qed
qed

text \<open>The sequential handler is what the steps do: without interruption a message runs through
  its steps, up to the goroutine it starts, exactly with an outcome of \<open>MessageHandler\<close>.\<close>
theorem message_handler_steps:
  "callback_runs H now [MsgArrived topic payload] m effects (starts effects) m' \<longleftrightarrow>
    (\<exists>env outcome. me_received env = now \<and> MessageHandler H env topic payload m = (outcome, effects, m'))"
  using handler_runs_arrived runs_arrived_handler by blast

end
