(* ===== verification/Retry.thy ===== *)
theory Retry
  imports Prelude
begin

text \<open>
  \<open>retry.go\<close>: calling a function until it succeeds, with a delay that doubles up to a limit.

  The environment decides what the calls return and whether the context is cancelled while the
  loop waits: \<open>fn n\<close> is the result of the \<open>n\<close>-th call (\<open>None\<close> is success) and \<open>cancelled n\<close> the
  error of the context when it ends the wait after that call (\<open>None\<close> when the delay passes).
  With \<open>attempts = 0\<close> the loop may run forever, so it is a partial function: \<open>None\<close> is not
  returning. Besides its result the loop returns the list of the delays it waited for, which
  is what the code hands to \<open>time.After\<close>.
\<close>

datatype 'e retry_result = RetryOk | RetryCancelled 'e | RetryFailed int "'e option"

partial_function (option) retry_loop ::
  "(nat \<Rightarrow> 'e option) \<Rightarrow> (nat \<Rightarrow> 'e option) \<Rightarrow> int \<Rightarrow> duration \<Rightarrow> nat \<Rightarrow> duration \<Rightarrow> 'e option
     \<Rightarrow> duration list \<Rightarrow> ('e retry_result \<times> duration list) option"
where
  "retry_loop fn cancelled attempts maxDelay attempt delay err waited =
    (if attempts = 0 \<or> int attempt \<le> attempts then
       (case fn attempt of
          None \<Rightarrow> Some (RetryOk, waited)
        | Some e \<Rightarrow>
            if attempts \<noteq> 0 \<and> int attempt = attempts
            then Some (RetryFailed attempts (Some e), waited)
            else (case cancelled attempt of
                    Some c \<Rightarrow> Some (RetryCancelled c, waited @ [delay])
                  | None \<Rightarrow>
                      retry_loop fn cancelled attempts maxDelay (Suc attempt)
                        (min (wrap64 (2 * delay)) maxDelay) (Some e) (waited @ [delay])))
     else Some (RetryFailed attempts err, waited))"

definition retryWithBackoff ::
  "int \<Rightarrow> duration \<Rightarrow> duration \<Rightarrow> (nat \<Rightarrow> 'e option) \<Rightarrow> (nat \<Rightarrow> 'e option)
     \<Rightarrow> ('e retry_result \<times> duration list) option"
where
  "retryWithBackoff attempts initial maxDelay fn cancelled =
     retry_loop fn cancelled attempts maxDelay 1 initial None []"

section \<open>The delays\<close>

text \<open>The delay before attempt \<open>k + 2\<close>: the initial delay doubled \<open>k\<close> times, at most the limit.\<close>

definition backoff :: "duration \<Rightarrow> duration \<Rightarrow> nat \<Rightarrow> duration" where
  "backoff initial maxDelay k = (if k = 0 then initial else min (initial * 2 ^ k) maxDelay)"

definition backoff_ok :: "duration \<Rightarrow> duration \<Rightarrow> bool" where
  "backoff_ok initial maxDelay \<longleftrightarrow> 0 < initial \<and> initial \<le> maxDelay \<and> maxDelay < 2 ^ 62"

lemma backoff_0 [simp]: "backoff initial maxDelay 0 = initial"
  by (simp add: backoff_def)

lemma backoff_bounds:
  assumes "backoff_ok initial maxDelay"
  shows "initial \<le> backoff initial maxDelay k" and "backoff initial maxDelay k \<le> maxDelay"
proof -
  have "initial * 1 \<le> initial * 2 ^ k"
    using assms by (intro mult_left_mono) (simp_all add: backoff_ok_def)
  then show "initial \<le> backoff initial maxDelay k" and "backoff initial maxDelay k \<le> maxDelay"
    using assms by (auto simp: backoff_def backoff_ok_def)
qed

lemma backoff_Suc:
  assumes "backoff_ok initial maxDelay"
  shows "min (wrap64 (2 * backoff initial maxDelay k)) maxDelay = backoff initial maxDelay (Suc k)"
proof -
  let ?b = "backoff initial maxDelay k"
  have b: "0 < ?b" "?b \<le> maxDelay"
    using backoff_bounds [OF assms, of k] assms by (auto simp: backoff_ok_def)
  then have "wrap64 (2 * ?b) = 2 * ?b"
    using assms by (intro wrap64_small) (auto simp: backoff_ok_def)
  moreover have "min (2 * ?b) maxDelay = min (initial * 2 ^ Suc k) maxDelay"
    using b by (auto simp: backoff_def min_def)
  ultimately show ?thesis by (simp add: backoff_def)
qed

text \<open>
  The state of the loop when it starts attempt \<open>n + 1\<close>: \<open>n\<close> calls failed, the delay is the
  next one of the schedule and exactly the first \<open>n\<close> delays have been waited for.
\<close>

lemma retry_loop_steps:
  assumes "backoff_ok initial maxDelay" and "attempts = 0 \<or> int n < attempts"
    and "\<And>i. 1 \<le> i \<Longrightarrow> i \<le> n \<Longrightarrow> fn i \<noteq> None \<and> cancelled i = None"
  shows "retryWithBackoff attempts initial maxDelay fn cancelled =
    retry_loop fn cancelled attempts maxDelay (Suc n) (backoff initial maxDelay n)
      (if n = 0 then None else fn n) (map (backoff initial maxDelay) [0..<n])"
  using assms(2,3)
proof (induction n)
  case 0
  then show ?case by (simp add: retryWithBackoff_def)
next
  case (Suc n)
  then have IH: "retryWithBackoff attempts initial maxDelay fn cancelled =
    retry_loop fn cancelled attempts maxDelay (Suc n) (backoff initial maxDelay n)
      (if n = 0 then None else fn n) (map (backoff initial maxDelay) [0..<n])"
    by auto
  from Suc.prems obtain e where "fn (Suc n) = Some e" and "cancelled (Suc n) = None"
    by (metis le_refl le_add1 plus_1_eq_Suc option.exhaust)
  then show ?case
    using Suc.prems(1) IH backoff_Suc [OF assms(1), of n]
    by (auto simp: retry_loop.simps [of _ _ _ _ "Suc n"])
qed

text \<open>A loop with a limit ends after that many attempts at most.\<close>

lemma retry_loop_returns:
  assumes "0 < attempts" and "1 \<le> n" and "int n \<le> attempts + 1"
  shows "\<exists>r. retry_loop fn cancelled attempts maxDelay n delay err waited = Some r"
  using assms(2,3)
proof (induction "nat (attempts + 1 - int n)" arbitrary: n delay err waited)
  case 0
  then show ?case using assms(1) by (simp add: retry_loop.simps [of _ _ _ _ n])
next
  case (Suc k)
  show ?case
  proof (cases "int n \<le> attempts")
    case True
    have IH: "\<exists>r. retry_loop fn cancelled attempts maxDelay (Suc n) delay' err' waited' = Some r"
      for delay' err' waited'
      using Suc True by (intro Suc.hyps(1)) auto
    show ?thesis
      using IH by (subst retry_loop.simps) (auto split: option.split)
  next
    case False
    then show ?thesis using assms(1) by (simp add: retry_loop.simps [of _ _ _ _ n])
  qed
qed

section \<open>Properties\<close>

text \<open>C34: When the first \<open>n\<close> calls fail and the next one succeeds within the limit of
  attempts, or there is no limit, the operation succeeds, and it has waited exactly for the
  first \<open>n\<close> delays of the schedule: the initial delay, doubled each time, never more than the
  maximum.\<close>
theorem retry_succeeds:
  assumes "backoff_ok initial maxDelay" and "attempts = 0 \<or> int n < attempts"
    and "\<And>i. 1 \<le> i \<Longrightarrow> i \<le> n \<Longrightarrow> fn i \<noteq> None \<and> cancelled i = None"
    and "fn (Suc n) = None"
  shows "retryWithBackoff attempts initial maxDelay fn cancelled =
    Some (RetryOk, map (backoff initial maxDelay) [0..<n])"
  using assms by (auto simp: retry_loop_steps retry_loop.simps [of _ _ _ _ "Suc n"])

theorem retry_succeeds_witness:
  "retryWithBackoff 5 (10 * second) (5 * minute) (\<lambda>i. if i \<le> 2 then Some ''down'' else None) (\<lambda>i. None) =
    Some (RetryOk, [10 * second, 20 * second])"
  using retry_succeeds [of "10 * second" "5 * minute" 5 2 "\<lambda>i. if i \<le> 2 then Some ''down'' else None" "\<lambda>i. None"]
  by (simp add: backoff_ok_def backoff_def upt_rec)

text \<open>When every call fails, the operation fails after exactly \<open>attempts\<close> calls with the
  error of the last one, and there is no wait after the last call.\<close>
theorem retry_gives_up:
  assumes "backoff_ok initial maxDelay" and "1 \<le> n"
    and "\<And>i. 1 \<le> i \<Longrightarrow> i \<le> n \<Longrightarrow> fn i \<noteq> None" and "\<And>i. 1 \<le> i \<Longrightarrow> i < n \<Longrightarrow> cancelled i = None"
  shows "retryWithBackoff (int n) initial maxDelay fn cancelled =
    Some (RetryFailed (int n) (fn n), map (backoff initial maxDelay) [0..<n - 1])"
proof -
  obtain k where n: "n = Suc k" using assms(2) by (cases n) auto
  have "fn i \<noteq> None \<and> cancelled i = None" if "1 \<le> i" "i \<le> k" for i
    using that assms(3,4) n by auto
  moreover obtain e where "fn n = Some e" using assms(2,3) by blast
  ultimately show ?thesis
    using assms(1) n by (simp add: retry_loop_steps [where n = k] retry_loop.simps [of _ _ _ _ "Suc k"])
qed

theorem retry_gives_up_witness:
  "retryWithBackoff 3 (1 * second) (2 * second) (\<lambda>i. Some i) (\<lambda>i. None) =
    Some (RetryFailed 3 (Some 3), [1 * second, 2 * second])"
  using retry_gives_up [of "1 * second" "2 * second" 3 "\<lambda>i. Some i" "\<lambda>i. None"]
  by (simp add: backoff_ok_def backoff_def upt_rec)

text \<open>When the context is cancelled during a wait, the operation stops at once with the
  error of the context and makes no further call.\<close>
theorem retry_cancelled:
  assumes "backoff_ok initial maxDelay" and "attempts = 0 \<or> int (Suc n) < attempts"
    and "\<And>i. 1 \<le> i \<Longrightarrow> i \<le> Suc n \<Longrightarrow> fn i \<noteq> None"
    and "\<And>i. 1 \<le> i \<Longrightarrow> i \<le> n \<Longrightarrow> cancelled i = None" and "cancelled (Suc n) = Some c"
  shows "retryWithBackoff attempts initial maxDelay fn cancelled =
    Some (RetryCancelled c, map (backoff initial maxDelay) [0..<Suc n])"
proof -
  have "fn i \<noteq> None \<and> cancelled i = None" if "1 \<le> i" "i \<le> n" for i
    using that assms(3,4) by auto
  moreover obtain e where "fn (Suc n) = Some e" using assms(3) [of "Suc n"] by auto
  moreover have "attempts = 0 \<or> int n < attempts" using assms(2) by auto
  ultimately show ?thesis
    using assms(1,2,5) by (auto simp: retry_loop_steps [where n = n] retry_loop.simps [of _ _ _ _ "Suc n"])
qed

theorem retry_cancelled_witness:
  "retryWithBackoff 0 (10 * second) (5 * minute) (\<lambda>i. Some ''down'') (\<lambda>i. if i = 2 then Some ''bye'' else None) =
    Some (RetryCancelled ''bye'', [10 * second, 20 * second])"
  using retry_cancelled [of "10 * second" "5 * minute" 0 1 "\<lambda>i. Some ''down''"
      "\<lambda>i. if i = 2 then Some ''bye'' else None" "''bye''"]
  by (simp add: backoff_ok_def backoff_def upt_rec)

text \<open>C36: With a limit of attempts the retry loop always returns, whatever the calls return,
  whatever the delays are and also when the delay wraps around.\<close>
theorem retry_terminates:
  assumes "0 < attempts"
  shows "\<exists>r. retryWithBackoff attempts initial maxDelay fn cancelled = Some r"
  unfolding retryWithBackoff_def by (rule retry_loop_returns) (use assms in simp_all)

theorem retry_terminates_witness:
  "\<exists>r. retryWithBackoff 4 (2 ^ 62) (2 ^ 62 + 1) (\<lambda>i. Some i) (\<lambda>i. None) = Some r"
  by (rule retry_terminates) simp

end
