(* ===== verification/Mqtt_System.thy ===== *)
theory Mqtt_System
  imports Mqtt_Callbacks Retry
begin

text \<open>
  \<open>mqtt_exporter.go\<close>, fifth part: the goroutines. \<open>Run\<close> with \<open>runSession\<close>, the monitor of the
  devices with \<open>forceReconnect\<close>, the ping routine, the callbacks of the client and the requests
  that a callback starts run concurrently on one exporter. A step of the model is what a goroutine
  does between two points where another one can interfere: the part under a mutex, one access to
  the atomic pointer, the reaction to a channel or a timer, one request, the dispatch of one update.
  The callbacks at work, with the requests they have started, are the list \<open>sys_callbacks\<close>; any of
  them can do its next step.

  Where a goroutine waits, its program counter says what for; deadlines are kept and a \<open>select\<close>
  with several ready cases takes any of them.

  The environment is what the steps leave open: the passing of time, cancellation, the answers of
  the EcoFlow API and of the broker, the connections of the clients, the messages, and the order
  in which maps are visited. The client library calls back only for a client on which
  \<open>Connect\<close> was called. What happened is the list \<open>sys_effects\<close>, newest last.
\<close>

section \<open>The system\<close>

text \<open>Where \<open>Run\<close> is, in \<open>runSession\<close> for all but the last three.\<close>

datatype session_pc =
    SesLogin duration
  | SesLoginWait duration time
  | SesStore mqtt_client
  | SesConnect mqtt_client
  | SesConnecting mqtt_client
  | SesConnected mqtt_client
  | SesEnd mqtt_client
  | SesAfter
  | SesPause time
  | SesDone

text \<open>Where \<open>monitorDeviceStatus\<close> is; \<open>MonForce\<close>, \<open>MonPause\<close> and \<open>MonConnecting\<close> are in \<open>forceReconnect\<close>.\<close>

datatype monitor_pc =
    MonIdle
  | MonCheck
  | MonOffline "gostring list"
  | MonSend "gostring list" "gostring list"
  | MonDecide "gostring list"
  | MonDue
  | MonRequest
  | MonForce
  | MonPause mqtt_client time
  | MonConnecting mqtt_client time
  | MonDone

text \<open>
  Where \<open>pingRoutine\<close> is: it waits for a tick, or for the goroutines of a tick; those devices are left
  whose goroutine has not finished, and the flag is \<open>useStateRefresh\<close>.
\<close>

datatype ping_pc =
    PingIdle
  | PingSend bool "gostring list"
  | PingDone

record 'h mqtt_system =
  sys_now :: time
  sys_cancelled :: bool
  sys_mqtt :: "'h mqtt"
  sys_session :: session_pc
  sys_monitor :: monitor_pc
  sys_monitor_ticker :: ticker
  sys_ping_ticker :: ticker
  sys_tick_count :: int
  sys_ping :: ping_pc
  sys_callbacks :: "callback list"
  sys_effects :: "mqtt_effect list"
  sys_crashed :: bool

definition monitor_interval :: "'h mqtt \<Rightarrow> duration" where
  "monitor_interval m = max (mq_offlineThreshold m div 4) (100 * millisecond)"

text \<open>The start of \<open>Run\<close>: both routines are started and the first session logs in.\<close>

definition mqtt_Run :: "time \<Rightarrow> 'h mqtt \<Rightarrow> 'h mqtt_system" where
  "mqtt_Run now m =
     \<lparr>sys_now = now, sys_cancelled = False, sys_mqtt = m, sys_session = SesLogin loginRetryDelay,
      sys_monitor = MonIdle, sys_monitor_ticker = NewTicker now (monitor_interval m),
      sys_ping_ticker = NewTicker now (mq_pingInterval m), sys_tick_count = 0, sys_ping = PingIdle,
      sys_callbacks = [], sys_effects = [], sys_crashed = False\<rparr>"

text \<open>The exporter in a new state, after some effects.\<close>

definition sys_do :: "'h mqtt \<Rightarrow> mqtt_effect list \<Rightarrow> 'h mqtt_system \<Rightarrow> 'h mqtt_system" where
  "sys_do m effects s = s\<lparr>sys_mqtt := m, sys_effects := sys_effects s @ effects\<rparr>"

section \<open>Run and runSession\<close>

text \<open>
  The login is retried without a limit, as \<open>retryWithBackoff\<close> does it: the wait after a failure
  is doubled up to the limit, and cancellation during the wait ends the session.
\<close>

inductive session_step :: "'h mqtt_system \<Rightarrow> 'h mqtt_system \<Rightarrow> bool" where
  login_failed:
    "sys_session s = SesLogin d \<Longrightarrow> mqtt_login http_post new_client (sys_mqtt s) = (Inl err, m) \<Longrightarrow>
     session_step s (s\<lparr>sys_mqtt := m, sys_session := SesLoginWait d (sys_now s + d)\<rparr>)"
| login_again:
    "sys_session s = SesLoginWait d t \<Longrightarrow> t \<le> sys_now s \<Longrightarrow>
     session_step s (s\<lparr>sys_session := SesLogin (min (wrap64 (2 * d)) maxLoginDelay)\<rparr>)"
| login_cancelled:
    "sys_session s = SesLoginWait d t \<Longrightarrow> sys_cancelled s \<Longrightarrow>
     session_step s (s\<lparr>sys_session := SesAfter\<rparr>)"
| login_ok:
    "sys_session s = SesLogin d \<Longrightarrow> mqtt_login http_post new_client (sys_mqtt s) = (Inr c, m) \<Longrightarrow>
     session_step s (s\<lparr>sys_mqtt := m, sys_session := SesStore c\<rparr>)"
| store_client:
    "sys_session s = SesStore c \<Longrightarrow>
     session_step s (s\<lparr>sys_mqtt := (sys_mqtt s)\<lparr>mq_client := Some c\<rparr>, sys_session := SesConnect c\<rparr>)"
| connect_client:
    "sys_session s = SesConnect c \<Longrightarrow>
     session_step s (sys_do (sys_mqtt s) [EffConnect c] (s\<lparr>sys_session := SesConnecting c\<rparr>))"
| connect_ok:
    "sys_session s = SesConnecting c \<Longrightarrow> session_step s (s\<lparr>sys_session := SesConnected c\<rparr>)"
| connect_failed:
    "sys_session s = SesConnecting c \<Longrightarrow> session_step s (s\<lparr>sys_session := SesEnd c\<rparr>)"
| session_cancelled:
    "sys_session s = SesConnecting c \<or> sys_session s = SesConnected c \<Longrightarrow> sys_cancelled s \<Longrightarrow>
     session_step s (s\<lparr>sys_session := SesEnd c\<rparr>)"
| session_relogin:
    "sys_session s = SesConnecting c \<or> sys_session s = SesConnected c \<Longrightarrow> mq_relogin (sys_mqtt s) \<Longrightarrow>
     session_step s (s\<lparr>sys_mqtt := (sys_mqtt s)\<lparr>mq_relogin := False\<rparr>, sys_session := SesEnd c\<rparr>)"
| session_disconnect:
    "sys_session s = SesEnd c \<Longrightarrow>
     session_step s
       (sys_do ((sys_mqtt s)\<lparr>mq_telemetry := SetMqttConnected False (mq_telemetry (sys_mqtt s))\<rparr>)
          [EffDisconnect c] (s\<lparr>sys_session := SesAfter\<rparr>))"
| run_cancelled:
    "sys_session s = SesAfter \<Longrightarrow> sys_cancelled s \<Longrightarrow> session_step s (s\<lparr>sys_session := SesDone\<rparr>)"
| run_again:
    "sys_session s = SesAfter \<Longrightarrow> \<not> sys_cancelled s \<Longrightarrow>
     session_step s
       (s\<lparr>sys_mqtt := (sys_mqtt s)\<lparr>mq_telemetry := MqttRelogin (mq_telemetry (sys_mqtt s))\<rparr>,
          sys_session := SesPause (sys_now s + loginRetryDelay)\<rparr>)"
| pause_cancelled:
    "sys_session s = SesPause t \<Longrightarrow> sys_cancelled s \<Longrightarrow> session_step s (s\<lparr>sys_session := SesDone\<rparr>)"
| pause_over:
    "sys_session s = SesPause t \<Longrightarrow> t \<le> sys_now s \<Longrightarrow>
     session_step s (s\<lparr>sys_session := SesLogin loginRetryDelay\<rparr>)"

section \<open>The monitor\<close>

definition offline_device :: "'h mqtt \<Rightarrow> gostring \<Rightarrow> ecoflow_device" where
  "offline_device m sn = \<lparr>dev_SN = sn, dev_Name = getDeviceName (mq_devices m) sn, dev_Online = 0\<rparr>"

text \<open>The handlers are called with an offline update that has no parameters.\<close>

definition send_offline ::
  "('e, 'h) handler \<Rightarrow> (nat \<Rightarrow> 'e) \<Rightarrow> time \<Rightarrow> gostring \<Rightarrow> 'h mqtt \<Rightarrow> device_update \<times> 'h mqtt" where
  "send_offline H envs now sn m =
    (let u = NewDeviceUpdate now (offline_device m sn) fmempty in (u, snd (call_handlers H envs u m)))"

text \<open>\<open>len(offline) > 0 && len(offline) == len(m.devices)\<close>\<close>

definition all_offline :: "gostring list \<Rightarrow> 'h mqtt \<Rightarrow> bool" where
  "all_offline offline m \<longleftrightarrow> 0 < length offline \<and> length offline = go_len (mq_devices m)"

text \<open>
  \<open>forceReconnect\<close> counts the reconnect, disconnects the current client (without one the code would
  dereference nil), waits five seconds and connects it again, for which it waits at most thirty
  seconds. The last rule is for all three cases of the second \<open>select\<close>: the token of \<open>Connect\<close> can
  complete at any time.
\<close>

inductive forceReconnect :: "'h mqtt_system \<Rightarrow> 'h mqtt_system \<Rightarrow> bool" where
force_disconnect:
    "sys_monitor s = MonForce \<Longrightarrow> mq_client (sys_mqtt s) = Some c \<Longrightarrow>
     forceReconnect s
       (sys_do ((sys_mqtt s)\<lparr>mq_telemetry :=
                   SetMqttConnected False (MqttForcedReconnect (mq_telemetry (sys_mqtt s)))\<rparr>)
          [EffDisconnect c] (s\<lparr>sys_monitor := MonPause c (sys_now s + 5 * second)\<rparr>))"
| force_nil:
    "sys_monitor s = MonForce \<Longrightarrow> mq_client (sys_mqtt s) = None \<Longrightarrow>
     forceReconnect s (s\<lparr>sys_crashed := True\<rparr>)"
| force_cancelled:
    "sys_monitor s = MonPause c t \<Longrightarrow> sys_cancelled s \<Longrightarrow> forceReconnect s (s\<lparr>sys_monitor := MonIdle\<rparr>)"
| force_connect:
    "sys_monitor s = MonPause c t \<Longrightarrow> t \<le> sys_now s \<Longrightarrow>
     forceReconnect s
       (sys_do (sys_mqtt s) [EffConnect c] (s\<lparr>sys_monitor := MonConnecting c (sys_now s + 30 * second)\<rparr>))"
| force_connected:
    "sys_monitor s = MonConnecting c t \<Longrightarrow> forceReconnect s (s\<lparr>sys_monitor := MonIdle\<rparr>)"

inductive monitor_step :: "('e, 'h) handler \<Rightarrow> 'h mqtt_system \<Rightarrow> 'h mqtt_system \<Rightarrow> bool" for H where
  monitor_cancelled:
    "sys_monitor s = MonIdle \<Longrightarrow> sys_cancelled s \<Longrightarrow> monitor_step H s (s\<lparr>sys_monitor := MonDone\<rparr>)"
| monitor_tick:
    "sys_monitor s = MonIdle \<Longrightarrow> tk_pending (sys_monitor_ticker s) \<Longrightarrow>
     monitor_step H s
       (s\<lparr>sys_monitor_ticker := ticker_take (sys_monitor_ticker s),
          sys_monitor := (if mqtt_connected is_connected (sys_mqtt s) then MonCheck else MonIdle)\<rparr>)"
| monitor_offline:
    "sys_monitor s = MonCheck \<Longrightarrow> range_order (mq_lastReceived (sys_mqtt s)) ks \<Longrightarrow>
     monitor_step H s (s\<lparr>sys_monitor := MonOffline (offlineDevices (sys_now s) ks (sys_mqtt s))\<rparr>)"
| monitor_due:
    "sys_monitor s = MonOffline offline \<Longrightarrow> offlineUpdatesDue (sys_now s) offline (sys_mqtt s) = (due, m) \<Longrightarrow>
     monitor_step H s (s\<lparr>sys_mqtt := m, sys_monitor := MonSend offline due\<rparr>)"
| monitor_send:
    "sys_monitor s = MonSend offline (sn # due) \<Longrightarrow> send_offline H envs (sys_now s) sn (sys_mqtt s) = (u, m) \<Longrightarrow>
     monitor_step H s (sys_do m [EffUpdate u] (s\<lparr>sys_monitor := MonSend offline due\<rparr>))"
| monitor_sent:
    "sys_monitor s = MonSend offline [] \<Longrightarrow> monitor_step H s (s\<lparr>sys_monitor := MonDecide offline\<rparr>)"
| monitor_some_online:
    "sys_monitor s = MonDecide offline \<Longrightarrow> \<not> all_offline offline (sys_mqtt s) \<Longrightarrow>
     monitor_step H s (s\<lparr>sys_monitor := MonIdle\<rparr>)"
| monitor_all_offline:
    "sys_monitor s = MonDecide offline \<Longrightarrow> all_offline offline (sys_mqtt s) \<Longrightarrow>
     reconnectDue (sys_now s) (sys_mqtt s) = (due, m) \<Longrightarrow>
     monitor_step H s (s\<lparr>sys_mqtt := m, sys_monitor := (if due then MonDue else MonIdle)\<rparr>)"
| monitor_relogin_due:
    "sys_monitor s = MonDue \<Longrightarrow> reloginDue (sys_mqtt s) = (due, m) \<Longrightarrow>
     monitor_step H s (s\<lparr>sys_mqtt := m, sys_monitor := (if due then MonRequest else MonForce)\<rparr>)"
| monitor_request:
    "sys_monitor s = MonRequest \<Longrightarrow>
     monitor_step H s (s\<lparr>sys_mqtt := requestRelogin (sys_mqtt s), sys_monitor := MonIdle\<rparr>)"
| monitor_force:
    "forceReconnect s s' \<Longrightarrow> monitor_step H s s'"

section \<open>The ping routine\<close>

text \<open>A tick while the client is not connected is skipped; otherwise all devices are pinged in parallel.\<close>

inductive ping_step :: "'h mqtt_system \<Rightarrow> 'h mqtt_system \<Rightarrow> bool" where
  ping_cancelled:
    "sys_ping s = PingIdle \<Longrightarrow> sys_cancelled s \<Longrightarrow> ping_step s (s\<lparr>sys_ping := PingDone\<rparr>)"
| ping_skip:
    "sys_ping s = PingIdle \<Longrightarrow> tk_pending (sys_ping_ticker s) \<Longrightarrow> \<not> mqtt_connected is_connected (sys_mqtt s) \<Longrightarrow>
     ping_step s (s\<lparr>sys_ping_ticker := ticker_take (sys_ping_ticker s)\<rparr>)"
| ping_tick:
    "sys_ping s = PingIdle \<Longrightarrow> tk_pending (sys_ping_ticker s) \<Longrightarrow> mqtt_connected is_connected (sys_mqtt s) \<Longrightarrow>
     range_order (mq_devices (sys_mqtt s)) sns \<Longrightarrow>
     ping_step s
       (s\<lparr>sys_ping_ticker := ticker_take (sys_ping_ticker s), sys_tick_count := sys_tick_count s + 1,
          sys_ping := PingSend ((sys_tick_count s + 1) mod ticksPerRefresh (sys_mqtt s) = 0) sns\<rparr>)"
| ping_send:
    "sys_ping s = PingSend refresh (before @ sn # after) \<Longrightarrow>
     ping_device refresh (sys_now s) clk publish sn (sys_mqtt s) = (msg, m) \<Longrightarrow>
     ping_step s (sys_do m (sent msg) (s\<lparr>sys_ping := PingSend refresh (before @ after)\<rparr>))"
| ping_sent:
    "sys_ping s = PingSend refresh [] \<Longrightarrow> ping_step s (s\<lparr>sys_ping := PingIdle\<rparr>)"

section \<open>Callbacks, time, cancellation\<close>

inductive other_step :: "('e, 'h) handler \<Rightarrow> 'h mqtt_system \<Rightarrow> 'h mqtt_system \<Rightarrow> bool" for H where
  time_passes:
    "sys_now s \<le> now \<Longrightarrow> other_step H s (s\<lparr>sys_now := now\<rparr>)"
| cancel:
    "other_step H s (s\<lparr>sys_cancelled := True\<rparr>)"
| monitor_ticker_fires:
    "tk_next (sys_monitor_ticker s) \<le> sys_now s \<Longrightarrow>
     other_step H s (s\<lparr>sys_monitor_ticker := ticker_fire (sys_monitor_ticker s)\<rparr>)"
| ping_ticker_fires:
    "tk_next (sys_ping_ticker s) \<le> sys_now s \<Longrightarrow>
     other_step H s (s\<lparr>sys_ping_ticker := ticker_fire (sys_ping_ticker s)\<rparr>)"
| client_calls:
    "EffConnect c \<in> set (sys_effects s) \<Longrightarrow> from_client cb \<Longrightarrow>
     other_step H s (s\<lparr>sys_callbacks := sys_callbacks s @ [cb]\<rparr>)"
| callback:
    "sys_callbacks s = before @ cb # after \<Longrightarrow>
     callback_step H (sys_now s) cb (sys_mqtt s) effects new m \<Longrightarrow>
     other_step H s (sys_do m effects (s\<lparr>sys_callbacks := before @ new @ after\<rparr>))"
| callback_nil:
    "cb \<in> set (sys_callbacks s) \<Longrightarrow> dereferences_nil cb (sys_mqtt s) \<Longrightarrow>
     other_step H s (s\<lparr>sys_crashed := True\<rparr>)"

inductive mqtt_step :: "('e, 'h) handler \<Rightarrow> 'h mqtt_system \<Rightarrow> 'h mqtt_system \<Rightarrow> bool" for H where
  session: "\<not> sys_crashed s \<Longrightarrow> session_step s s' \<Longrightarrow> mqtt_step H s s'"
| monitor: "\<not> sys_crashed s \<Longrightarrow> monitor_step H s s' \<Longrightarrow> mqtt_step H s s'"
| ping: "\<not> sys_crashed s \<Longrightarrow> ping_step s s' \<Longrightarrow> mqtt_step H s s'"
| other: "\<not> sys_crashed s \<Longrightarrow> other_step H s s' \<Longrightarrow> mqtt_step H s s'"

inductive mqtt_steps :: "('e, 'h) handler \<Rightarrow> 'h mqtt_system \<Rightarrow> 'h mqtt_system \<Rightarrow> bool" for H where
  none: "mqtt_steps H s s"
| more: "mqtt_steps H s s' \<Longrightarrow> mqtt_step H s' s'' \<Longrightarrow> mqtt_steps H s s''"

section \<open>The invariant of the system\<close>

lemma mqtt_keeps_send [keeps_intros]: "send_offline H envs now sn m = (u, m') \<Longrightarrow> mqtt_keeps m m'"
  by (auto simp: send_offline_def Let_def intro!: mqtt_keeps_handlers prod.collapse [symmetric])

lemma mqtt_keeps_ping_device [keeps_intros]:
  "ping_device refresh now clk publish sn m = (msg, m') \<Longrightarrow> mqtt_keeps m m'"
  by (intro mqtt_keeps_pings ping_device_same)

text \<open>The delays of the login are those of the schedule of \<open>retryWithBackoff\<close>.\<close>

definition login_delay :: "duration \<Rightarrow> bool" where
  "login_delay d \<longleftrightarrow> (\<exists>k. d = backoff loginRetryDelay maxLoginDelay k)"

lemma login_backoff_ok: "backoff_ok loginRetryDelay maxLoginDelay"
  by (simp add: backoff_ok_def loginRetryDelay_def maxLoginDelay_def)

lemma login_delay_first: "login_delay loginRetryDelay"
  unfolding login_delay_def by (rule exI [of _ 0]) simp

lemma login_delay_next: "login_delay d \<Longrightarrow> login_delay (min (wrap64 (2 * d)) maxLoginDelay)"
  unfolding login_delay_def using backoff_Suc [OF login_backoff_ok] by blast

lemma login_delay_bounds: "login_delay d \<Longrightarrow> loginRetryDelay \<le> d \<and> d \<le> maxLoginDelay"
  unfolding login_delay_def using backoff_bounds [OF login_backoff_ok] by blast

fun session_ok :: "'h mqtt \<Rightarrow> session_pc \<Rightarrow> bool" where
  "session_ok m (SesLoginWait d t) = login_delay d"
| "session_ok m (SesLogin d) = login_delay d"
| "session_ok m (SesConnect c) = (mq_client m = Some c)"
| "session_ok m (SesConnecting c) = (mq_client m = Some c)"
| "session_ok m (SesConnected c) = (mq_client m = Some c)"
| "session_ok m (SesEnd c) = (mq_client m = Some c)"
| "session_ok m _ = True"

text \<open>The monitor acts only with a client and only on devices that have a status.\<close>

definition with_status :: "'h mqtt \<Rightarrow> gostring list \<Rightarrow> bool" where
  "with_status m sns \<longleftrightarrow> distinct sns \<and> set sns \<subseteq> fset (fmdom (mq_lastReceived m))"

fun monitor_ok :: "'h mqtt \<Rightarrow> monitor_pc \<Rightarrow> bool" where
  "monitor_ok m MonIdle = True"
| "monitor_ok m MonDone = True"
| "monitor_ok m (MonOffline offline) = (mq_client m \<noteq> None \<and> with_status m offline)"
| "monitor_ok m (MonSend offline due) = (mq_client m \<noteq> None \<and> with_status m offline \<and> set due \<subseteq> set offline)"
| "monitor_ok m (MonDecide offline) = (mq_client m \<noteq> None \<and> with_status m offline)"
| "monitor_ok m _ = (mq_client m \<noteq> None)"

definition core_inv :: "(gostring, gostring) fmap \<Rightarrow> 'h mqtt_system \<Rightarrow> bool" where
  "core_inv devices s \<longleftrightarrow>
     \<not> sys_crashed s \<and> mq_devices (sys_mqtt s) = devices \<and> state_inv (sys_mqtt s)
     \<and> list_all (effect_ok devices) (sys_effects s)
     \<and> list_all (callback_ok devices) (sys_callbacks s)
     \<and> (mq_client (sys_mqtt s) = None \<longrightarrow> sys_callbacks s = [] \<and> (\<forall>c. EffConnect c \<notin> set (sys_effects s)))"

definition sys_inv :: "(gostring, gostring) fmap \<Rightarrow> 'h mqtt_system \<Rightarrow> bool" where
  "sys_inv devices s \<longleftrightarrow> core_inv devices s \<and> session_ok (sys_mqtt s) (sys_session s)
     \<and> monitor_ok (sys_mqtt s) (sys_monitor s)"

lemma with_status_keeps: "with_status m sns \<Longrightarrow> mqtt_keeps m m' \<Longrightarrow> with_status m' sns"
  by (auto simp: with_status_def mqtt_keeps_def)

lemma session_ok_keeps: "session_ok m pc \<Longrightarrow> mqtt_keeps m m' \<Longrightarrow> session_ok m' pc"
  by (cases pc) (auto simp: mqtt_keeps_def)

lemma monitor_ok_keeps: "monitor_ok m pc \<Longrightarrow> mqtt_keeps m m' \<Longrightarrow> monitor_ok m' pc"
  by (cases pc) (auto simp: mqtt_keeps_def with_status_def)

lemma core_inv_do:
  assumes "core_inv devices s" and "mqtt_keeps (sys_mqtt s) m" and "list_all (effect_ok devices) effects"
    and "mq_client m \<noteq> None \<or> (\<forall>c. EffConnect c \<notin> set effects)"
  shows "core_inv devices (sys_do m effects s)"
  using assms by (auto simp: core_inv_def sys_do_def mqtt_keeps_def same_config_def)

text \<open>
  A step of any goroutine: the exporter is kept, the effects are allowed and the program counters
  fit the new state.
\<close>

lemma sys_inv_do:
  assumes "sys_inv devices s" and "mqtt_keeps (sys_mqtt s) m" and "list_all (effect_ok devices) effects"
    and "mq_client m \<noteq> None \<or> (\<forall>c. EffConnect c \<notin> set effects)"
  shows "sys_inv devices (sys_do m effects s)"
  using assms core_inv_do [of devices s m effects] session_ok_keeps [OF _ assms(2)] monitor_ok_keeps [OF _ assms(2)]
  by (auto simp: sys_inv_def sys_do_def)

lemma sys_do_none: "sys_do m [] s = s\<lparr>sys_mqtt := m\<rparr>"
  by (simp add: sys_do_def)

lemmas sys_inv_keeps = sys_inv_do [where effects = "[]", unfolded sys_do_none, simplified]

lemma sys_inv_session:
  "sys_inv devices s \<Longrightarrow> session_ok (sys_mqtt s) pc \<Longrightarrow> sys_inv devices (s\<lparr>sys_session := pc\<rparr>)"
  by (simp add: sys_inv_def core_inv_def)

lemma sys_inv_monitor:
  "sys_inv devices s \<Longrightarrow> monitor_ok (sys_mqtt s) pc \<Longrightarrow> sys_inv devices (s\<lparr>sys_monitor := pc\<rparr>)"
  by (simp add: sys_inv_def core_inv_def)

lemma sys_do_pcs:
  "sys_do m effects (s\<lparr>sys_session := p\<rparr>) = (sys_do m effects s)\<lparr>sys_session := p\<rparr>"
  "sys_do m effects (s\<lparr>sys_monitor := q\<rparr>) = (sys_do m effects s)\<lparr>sys_monitor := q\<rparr>"
  "sys_mqtt (sys_do m effects s) = m"
  by (simp_all add: sys_do_def)

lemma session_step_inv:
  assumes "session_step s s'" and "sys_inv devices s"
  shows "sys_inv devices s'"
  using assms
proof (induction rule: session_step.induct)
  case (login_failed s d http_post new_client err m)
  then have "sys_inv devices (s\<lparr>sys_mqtt := m\<rparr>)" by (blast intro: sys_inv_keeps keeps_intros)
  from sys_inv_session [OF this, of "SesLoginWait d (sys_now s + d)"] login_failed show ?case
    by (simp add: sys_inv_def)
next
  case (login_again s d t)
  then show ?case by (simp add: sys_inv_def core_inv_def login_delay_next)
next
  case (login_ok s d http_post new_client c m)
  then have "sys_inv devices (s\<lparr>sys_mqtt := m\<rparr>)" by (blast intro: sys_inv_keeps keeps_intros)
  from sys_inv_session [OF this, of "SesStore c"] show ?case by simp
next
  case (store_client s c)
  have "monitor_ok ((sys_mqtt s)\<lparr>mq_client := Some c\<rparr>) (sys_monitor s)"
    using store_client by (cases "sys_monitor s") (auto simp: sys_inv_def with_status_def)
  with store_client show ?case
    by (auto simp: sys_inv_def core_inv_def state_inv_def status_inv_def)
next
  case (connect_client s c)
  then have c: "mq_client (sys_mqtt s) = Some c" by (simp add: sys_inv_def)
  have "sys_inv devices (sys_do (sys_mqtt s) [EffConnect c] s)"
    using connect_client(2) c by (intro sys_inv_do keeps_intros) auto
  from sys_inv_session [OF this, of "SesConnecting c"] c show ?case by (simp add: sys_do_pcs)
next
  case (session_relogin s c)
  have "sys_inv devices (s\<lparr>sys_mqtt := (sys_mqtt s)\<lparr>mq_relogin := False\<rparr>\<rparr>)"
    using session_relogin(3) by (intro sys_inv_keeps keeps_intros)
  from sys_inv_session [OF this, of "SesEnd c"] session_relogin show ?case by (auto simp: sys_inv_def)
next
  case (session_disconnect s c)
  have "sys_inv devices (sys_do ((sys_mqtt s)\<lparr>mq_telemetry := SetMqttConnected False (mq_telemetry (sys_mqtt s))\<rparr>)
      [EffDisconnect c] s)"
    using session_disconnect(2) by (intro sys_inv_do keeps_intros) auto
  from sys_inv_session [OF this, of SesAfter] show ?case by (simp add: sys_do_pcs)
next
  case (run_again s)
  have "sys_inv devices (s\<lparr>sys_mqtt := (sys_mqtt s)\<lparr>mq_telemetry := MqttRelogin (mq_telemetry (sys_mqtt s))\<rparr>\<rparr>)"
    using run_again(3) by (intro sys_inv_keeps keeps_intros)
  from sys_inv_session [OF this, of "SesPause (sys_now s + loginRetryDelay)"] show ?case by simp
qed (auto simp: sys_inv_def core_inv_def login_delay_first)

lemma offlineDevices_status:
  "range_order (mq_lastReceived m) ks \<Longrightarrow> with_status m (offlineDevices now ks m)"
  by (auto simp: with_status_def offlineDevices_def range_order_set range_order_distinct)

lemma send_offline_update:
  assumes "state_inv m" and "sn |\<in>| fmdom (mq_lastReceived m)" and "send_offline H envs now sn m = (u, m')"
  shows "update_ok (mq_devices m) u"
proof -
  have "sn |\<in>| fmdom (mq_devices m)" using assms(1,2) by (auto simp: state_inv_def status_inv_def)
  then obtain name where "fmlookup (mq_devices m) sn = Some name" by (auto simp: fmlookup_dom_iff)
  with assms(3) show ?thesis
    by (auto simp: send_offline_def Let_def update_ok_def NewDeviceUpdate_def offline_device_def getDeviceName_def)
qed

lemma forceReconnect_inv:
  assumes "forceReconnect s s'" and "sys_inv devices s"
  shows "sys_inv devices s'"
  using assms
proof (induction rule: forceReconnect.induct)
  case (force_disconnect s c)
  let ?m = "(sys_mqtt s)\<lparr>mq_telemetry := SetMqttConnected False (MqttForcedReconnect (mq_telemetry (sys_mqtt s)))\<rparr>"
  have "sys_inv devices (sys_do ?m [EffDisconnect c] s)"
    using force_disconnect(3) by (intro sys_inv_do keeps_intros) auto
  from sys_inv_monitor [OF this, of "MonPause c (sys_now s + 5 * second)"] force_disconnect(2)
  show ?case by (simp add: sys_do_pcs)
next
  case (force_connect s c t)
  then have c: "mq_client (sys_mqtt s) \<noteq> None" by (auto simp: sys_inv_def)
  have "sys_inv devices (sys_do (sys_mqtt s) [EffConnect c] s)"
    using force_connect(3) c by (intro sys_inv_do keeps_intros) auto
  from sys_inv_monitor [OF this, of "MonConnecting c (sys_now s + 30 * second)"] c show ?case by (simp add: sys_do_pcs)
qed (auto simp: sys_inv_def core_inv_def)

lemma monitor_step_inv:
  assumes "monitor_step H s s'" and "sys_inv devices s"
  shows "sys_inv devices s'"
  using assms
proof (induction rule: monitor_step.induct)
  case (monitor_tick s is_connected)
  then show ?case by (auto simp: sys_inv_def core_inv_def mqtt_connected_def split: option.splits)
next
  case (monitor_offline s ks)
  then show ?case
    using offlineDevices_status [OF monitor_offline(2), of "sys_now s"] by (intro sys_inv_monitor) (auto simp: sys_inv_def)
next
  case (monitor_due s offline due m)
  then have o: "with_status (sys_mqtt s) offline" "mq_client (sys_mqtt s) \<noteq> None" by (auto simp: sys_inv_def)
  then have k: "mqtt_keeps (sys_mqtt s) m"
    using monitor_due(2) by (auto simp: with_status_def intro: keeps_intros)
  have "set due \<subseteq> set offline"
    using offlineUpdatesDue_spec(1) [OF _ monitor_due(2)] o(1) by (auto simp: with_status_def)
  moreover have "with_status m offline" "mq_client m \<noteq> None"
    using with_status_keeps [OF o(1) k] k o(2) by (auto simp: mqtt_keeps_def)
  ultimately show ?case
    using sys_inv_monitor [OF sys_inv_keeps [OF monitor_due(3) k], of "MonSend offline due"] by simp
next
  case (monitor_send s offline sn due envs u m)
  then have o: "with_status (sys_mqtt s) offline" "set (sn # due) \<subseteq> set offline" "mq_client (sys_mqtt s) \<noteq> None"
    "state_inv (sys_mqtt s)" "mq_devices (sys_mqtt s) = devices"
    by (auto simp: sys_inv_def core_inv_def)
  have k: "mqtt_keeps (sys_mqtt s) m" using monitor_send(2) by (rule keeps_intros)
  have "update_ok devices u"
    using send_offline_update [OF o(4) _ monitor_send(2)] o(1,2,5) by (auto simp: with_status_def)
  then have "sys_inv devices (sys_do m [EffUpdate u] s)"
    using monitor_send(3) k by (intro sys_inv_do) auto
  from sys_inv_monitor [OF this, of "MonSend offline due"] show ?case
    using with_status_keeps [OF o(1) k] k o(2,3) by (auto simp: sys_do_pcs mqtt_keeps_def)
next
  case (monitor_all_offline s offline due m)
  then have k: "mqtt_keeps (sys_mqtt s) m" by (auto intro: keeps_intros)
  then have "mq_client m \<noteq> None" using monitor_all_offline by (auto simp: sys_inv_def mqtt_keeps_def)
  then show ?case
    using sys_inv_monitor [OF sys_inv_keeps [OF monitor_all_offline(4) k], of "if due then MonDue else MonIdle"] by simp
next
  case (monitor_relogin_due s due m)
  then have k: "mqtt_keeps (sys_mqtt s) m" by (auto intro: keeps_intros)
  then have "mq_client m \<noteq> None" using monitor_relogin_due by (auto simp: sys_inv_def mqtt_keeps_def)
  then show ?case
    using sys_inv_monitor [OF sys_inv_keeps [OF monitor_relogin_due(3) k], of "if due then MonRequest else MonForce"] by simp
next
  case (monitor_request s)
  have "sys_inv devices (s\<lparr>sys_mqtt := requestRelogin (sys_mqtt s)\<rparr>)"
    using monitor_request(2) by (intro sys_inv_keeps keeps_intros)
  from sys_inv_monitor [OF this, of MonIdle] show ?case by simp
next
  case (monitor_force s s')
  then show ?case by (rule forceReconnect_inv)
qed (auto simp: sys_inv_def core_inv_def)

lemma ping_step_inv:
  assumes "ping_step s s'" and "sys_inv devices s"
  shows "sys_inv devices s'"
  using assms
proof (induction rule: ping_step.induct)
  case (ping_send s refresh before sn after clk publish msg m)
  have "sys_inv devices (sys_do m (sent msg) s)"
    using ping_send(3) by (intro sys_inv_do mqtt_keeps_ping_device [OF ping_send(2)]) auto
  then show ?case by (simp add: sys_inv_def core_inv_def sys_do_def)
qed (auto simp: sys_inv_def core_inv_def)

lemma nil_dereferenced: "dereferences_nil cb m \<Longrightarrow> mq_client m = None"
  by (auto elim: dereferences_nil.elims)

lemma other_step_inv:
  assumes "other_step H s s'" and "sys_inv devices s"
  shows "sys_inv devices s'"
  using assms
proof (induction rule: other_step.induct)
  case (client_calls c s cb)
  then show ?case by (auto simp: sys_inv_def core_inv_def from_client_ok)
next
  case (callback s before cb after effects new m)
  then have d: "mq_devices (sys_mqtt s) = devices" "callback_ok devices cb" "mq_client (sys_mqtt s) \<noteq> None"
    by (auto simp: sys_inv_def core_inv_def)
  with callback_step_keeps [OF callback(2)] have k: "mqtt_keeps (sys_mqtt s) m"
    "list_all (effect_ok devices) effects" "list_all (callback_ok devices) new" "\<forall>c. EffConnect c \<notin> set effects"
    by simp_all
  then have "mq_client m \<noteq> None" using d(3) by (simp add: mqtt_keeps_def)
  moreover have "sys_inv devices (sys_do m effects s)"
    using callback(3) k by (intro sys_inv_do) auto
  ultimately show ?case using k(3) callback(1) by (auto simp: sys_inv_def core_inv_def sys_do_def)
next
  case (callback_nil cb s)
  then show ?case by (auto simp: sys_inv_def core_inv_def dest!: nil_dereferenced)
qed (auto simp: sys_inv_def core_inv_def)

lemma mqtt_step_inv: "mqtt_step H s s' \<Longrightarrow> sys_inv devices s \<Longrightarrow> sys_inv devices s'"
  by (induction rule: mqtt_step.induct) (auto intro: session_step_inv monitor_step_inv ping_step_inv other_step_inv)

text \<open>The initial state of an exporter that the constructor accepted.\<close>

lemma mqtt_Run_inv:
  assumes "NewMqttMetricsExporter cfg hs = Inr m"
  shows "sys_inv (mc_Devices cfg) (mqtt_Run now m)"
proof -
  have "mq_devices m = mc_Devices cfg" "mq_deviceState m = fmempty"
    using assms by (auto simp: NewMqttMetricsExporter_def split: if_splits)
  with NewMqtt_inv [OF assms] show ?thesis
    by (simp add: sys_inv_def core_inv_def mqtt_Run_def state_inv_def login_delay_first)
qed

definition mqtt_reachable :: "('e, 'h) handler \<Rightarrow> MqttExporterConfig \<Rightarrow> 'h list \<Rightarrow> 'h mqtt_system \<Rightarrow> bool" where
  "mqtt_reachable H cfg hs s \<longleftrightarrow>
     (\<exists>m now. NewMqttMetricsExporter cfg hs = Inr m \<and> mqtt_steps H (mqtt_Run now m) s)"

lemma mqtt_steps_inv: "mqtt_steps H s s' \<Longrightarrow> sys_inv devices s \<Longrightarrow> sys_inv devices s'"
  by (induction rule: mqtt_steps.induct) (auto intro: mqtt_step_inv)

lemma mqtt_reachable_inv: "mqtt_reachable H cfg hs s \<Longrightarrow> sys_inv (mc_Devices cfg) s"
  by (auto simp: mqtt_reachable_def intro: mqtt_steps_inv mqtt_Run_inv)

section \<open>The labels of the telemetry\<close>

text \<open>
  \<open>WithLabelValues\<close> panics when the number of values is not that of the labels or when a value is not
  valid UTF-8; when the serial numbers and the names of the devices are, no operation makes such a
  call. For the ping routine this needs that it only has configured devices left.
\<close>

definition telemetry_inv :: "'h mqtt \<Rightarrow> bool" where
  "telemetry_inv m \<longleftrightarrow> telemetry_ok (mq_telemetry m)"

named_theorems telemetry_intros \<open>the operations make only calls with labels that fit\<close>

lemma telemetry_inv_update [telemetry_intros]: "telemetry_ok t \<Longrightarrow> telemetry_inv (m\<lparr>mq_telemetry := t\<rparr>)"
  by (simp add: telemetry_inv_def)

lemma telemetry_inv_handlers: "call_handlers H envs u m = (errs, m') \<Longrightarrow> telemetry_inv m \<Longrightarrow> telemetry_inv m'"
  by (auto simp: telemetry_inv_def dest!: call_handlers_frame)

lemma telemetry_inv_request [telemetry_intros]:
  "requestLatestQuotas now publish sn m = (err, msg, m') \<Longrightarrow> valid_utf8 sn \<Longrightarrow> telemetry_inv m \<Longrightarrow> telemetry_inv m'"
  by (auto simp: requestLatestQuotas_def Let_def telemetry_inv_def split: option.splits)

lemma telemetry_inv_ping_device:
  "telemetry_inv m \<Longrightarrow> valid_utf8 sn \<Longrightarrow> telemetry_inv (snd (ping_device refresh now c publish sn m))"
  by (auto simp: ping_device_def requestLatestQuotas_def sendRtcTimePing_def recordPing_def Let_def
      telemetry_inv_def split: option.split)

lemma telemetry_inv_ping [telemetry_intros]:
  "ping_device refresh now clk publish sn m = (msg, m') \<Longrightarrow> valid_utf8 sn \<Longrightarrow> telemetry_inv m \<Longrightarrow> telemetry_inv m'"
  using telemetry_inv_ping_device [of m sn refresh now clk publish] by simp

lemma telemetry_inv_callback:
  assumes "callback_step H now cb m effects new m'" and "telemetry_inv m"
    and "callback_ok (mq_devices m) cb" and "utf8_mapping (mq_devices m)"
  shows "telemetry_inv m'"
  using assms
proof (induction rule: callback_step.induct)
  case (msg_dispatched env sn full m outcome effects m')
  then have "valid_utf8 sn" "valid_utf8 (getDeviceName (mq_devices m) sn)"
    using utf8_mapping_sn utf8_mapping_name by fastforce+
  with msg_dispatched show ?case
    by (auto simp: dispatch_state_def Let_def telemetry_inv_def split: if_splits prod.splits
        dest!: telemetry_inv_handlers [unfolded telemetry_inv_def])
next
  case (msg_undecodable env sn payload m m')
  then have "valid_utf8 sn" using utf8_mapping_sn by simp
  with msg_undecodable show ?case
    by (auto simp: decode_message_def telemetry_inv_def Let_def split: prod.splits option.splits)
next
  case (msg_decoded env sn payload m ps m')
  then have "valid_utf8 sn" using utf8_mapping_sn by simp
  with msg_decoded show ?case
    by (auto simp: decode_message_def telemetry_inv_def Let_def split: prod.splits option.splits)
next
  case (conn_requested publish sn m err msg m' sns)
  then have "valid_utf8 sn" using utf8_mapping_sn by simp
  with conn_requested show ?case using telemetry_inv_request by blast
next
  case (requested publish sn m err msg m')
  then have "valid_utf8 sn" using utf8_mapping_sn by simp
  with requested show ?case using telemetry_inv_request by blast
qed (auto simp: telemetry_inv_def markReceived_def merge_state_def initDeviceStatuses_def
    OnConnectionLost_def OnReconnect_def Let_def split: option.splits prod.splits)

lemma telemetry_inv_status [telemetry_intros]:
  "offlineUpdatesDue now offline m = (due, m') \<Longrightarrow> telemetry_inv m \<Longrightarrow> telemetry_inv m'"
  "reconnectDue now m = (b, m') \<Longrightarrow> telemetry_inv m \<Longrightarrow> telemetry_inv m'"
  "reloginDue m = (b, m') \<Longrightarrow> telemetry_inv m \<Longrightarrow> telemetry_inv m'"
  "mqtt_login post new_client m = (r, m') \<Longrightarrow> telemetry_inv m \<Longrightarrow> telemetry_inv m'"
  "send_offline H envs now sn m = (u, m') \<Longrightarrow> telemetry_inv m \<Longrightarrow> telemetry_inv m'"
      apply (auto simp: telemetry_inv_def offlineUpdatesDue_def reconnectDue_def reloginDue_def Let_def
      mqtt_login_def split: if_splits prod.splits sum.splits)
  apply (metis send_offline_def telemetry_inv_def telemetry_inv_handlers prod.collapse snd_conv)
  done

lemma telemetry_inv_do: "telemetry_inv (sys_mqtt (sys_do m effects s)) = telemetry_inv m"
  by (simp add: sys_do_def)

fun ping_ok :: "(gostring, gostring) fmap \<Rightarrow> ping_pc \<Rightarrow> bool" where
  "ping_ok devices (PingSend refresh sns) = (set sns \<subseteq> fset (fmdom devices))"
| "ping_ok devices _ = True"

lemma mqtt_step_ping_ok:
  assumes "mqtt_step H s s'" and "sys_inv devices s" and "ping_ok devices (sys_ping s)"
  shows "ping_ok devices (sys_ping s')"
  using assms(1)
proof cases
  case session
  from session(2) assms(3) show ?thesis by cases (auto simp: sys_do_def)
next
  case monitor
  from monitor(2) assms(3) show ?thesis by cases (auto simp: sys_do_def elim!: forceReconnect.cases)
next
  case ping
  from ping(2) assms(2,3) show ?thesis
    by cases (auto simp: sys_do_def sys_inv_def core_inv_def range_order_set)
next
  case other
  from other(2) assms(3) show ?thesis by cases (auto simp: sys_do_def)
qed

lemma mqtt_step_telemetry:
  assumes "mqtt_step H s s'" and "sys_inv devices s" and "utf8_mapping devices"
    and "ping_ok devices (sys_ping s)" and "telemetry_inv (sys_mqtt s)"
  shows "telemetry_inv (sys_mqtt s')"
  using assms(1)
proof cases
  case session
  from session(2) assms(5) show ?thesis
    by cases (auto simp: telemetry_inv_do dest: telemetry_intros, auto simp: telemetry_inv_def)
next
  case monitor
  from monitor(2) assms(5) show ?thesis
    by cases (auto simp: telemetry_inv_do dest: telemetry_intros elim!: forceReconnect.cases,
        auto simp: telemetry_inv_def requestRelogin_def)
next
  case ping
  have sns: "valid_utf8 sn" if "sys_ping s = PingSend refresh (before @ sn # after)" for refresh before sn after
    using assms(3,4) that by (intro utf8_mapping_sn) (auto simp: fmlookup_dom_iff)
  from ping(2) assms(5) show ?thesis
    by cases (auto simp: telemetry_inv_do sns dest: telemetry_intros)
next
  case other
  have "mq_devices (sys_mqtt s) = devices" "list_all (callback_ok devices) (sys_callbacks s)"
    using assms(2) by (auto simp: sys_inv_def core_inv_def)
  with other(2) assms(3,5) show ?thesis
    by cases (auto simp: telemetry_inv_do dest: telemetry_inv_callback)
qed

lemma mqtt_steps_telemetry:
  assumes "mqtt_steps H s s'" and "sys_inv devices s" and "utf8_mapping devices"
    and "ping_ok devices (sys_ping s)" and "telemetry_inv (sys_mqtt s)"
  shows "ping_ok devices (sys_ping s') \<and> telemetry_inv (sys_mqtt s')"
proof -
  have "sys_inv devices s' \<and> ping_ok devices (sys_ping s') \<and> telemetry_inv (sys_mqtt s')"
    using assms
    by (induction rule: mqtt_steps.induct)
      (auto intro: mqtt_step_inv mqtt_step_ping_ok mqtt_step_telemetry)
  then show ?thesis by blast
qed

section \<open>The handlers in the system\<close>

lemma same_handlers:
  "mqtt_login post new_client m = (r, m') \<Longrightarrow> mq_handlers m' = mq_handlers m"
  "reconnectDue now m = (b, m') \<Longrightarrow> mq_handlers m' = mq_handlers m"
  "reloginDue m = (b, m') \<Longrightarrow> mq_handlers m' = mq_handlers m"
  "offlineUpdatesDue now offline m = (due, m') \<Longrightarrow> mq_handlers m' = mq_handlers m"
  "ping_device refresh now c publish sn m = (msg, m') \<Longrightarrow> mq_handlers m' = mq_handlers m"
  by (auto simp: mqtt_login_def reconnectDue_def reloginDue_def Let_def offlineUpdatesDue_def
      split: if_splits sum.splits prod.splits option.splits
      dest!: ping_device_same same_but_pings_fields(6))

context handler_list
begin

lemma send_offline_good:
  assumes "good (mq_handlers m)" and "send_offline handle envs now sn m = (u, m')"
  shows "good (mq_handlers m')"
  using assms by (auto simp: send_offline_def Let_def intro!: call_handlers_good [OF assms(1)] prod.collapse [symmetric])

lemma callback_step_good:
  assumes "callback_step handle now cb m effects new m'" and "good (mq_handlers m)"
  shows "good (mq_handlers m')"
  using assms
proof (induction rule: callback_step.induct)
  case (msg_dispatched env sn full m outcome effects m')
  then show ?case
    by (auto simp: dispatch_state_def Let_def split: if_splits prod.splits dest: call_handlers_good [rotated])
qed (auto simp: markReceived_def decode_message_def merge_state_def initDeviceStatuses_def
    OnConnectionLost_def OnReconnect_def Let_def split: option.splits prod.splits
    dest!: request_same same_but_pings_fields(6))

lemma mqtt_step_good:
  assumes "mqtt_step handle s s'" and "good (mq_handlers (sys_mqtt s))"
  shows "good (mq_handlers (sys_mqtt s'))"
  using assms(1)
proof cases
  case session
  from session(2) assms(2) show ?thesis
    by cases (auto simp: sys_do_def dest: same_handlers)
next
  case monitor
  from monitor(2) show ?thesis
  proof cases
    case (monitor_send offline sn due envs u m)
    then show ?thesis using send_offline_good [OF assms(2) monitor_send(3)] by (simp add: sys_do_def)
  qed (use assms(2) in \<open>auto simp: sys_do_def requestRelogin_def dest: same_handlers
      elim!: forceReconnect.cases\<close>)
next
  case ping
  from ping(2) assms(2) show ?thesis
    by cases (auto simp: sys_do_def dest: same_handlers)
next
  case other
  from other(2) show ?thesis
  proof cases
    case (callback before cb after effects new m)
    then show ?thesis using callback_step_good [OF callback(3) assms(2)] by (simp add: sys_do_def)
  qed (use assms(2) in \<open>auto simp: sys_do_def\<close>)
qed

text \<open>What a dispatch keeps holds for the handlers of an exporter in every run.\<close>

lemma mqtt_reachable_good:
  assumes "mqtt_reachable handle cfg hs s" and "good hs"
  shows "good (mq_handlers (sys_mqtt s))"
proof -
  obtain m now where m: "NewMqttMetricsExporter cfg hs = Inr m" "mqtt_steps handle (mqtt_Run now m) s"
    using assms(1) by (auto simp: mqtt_reachable_def)
  have "mq_handlers m = hs" using m(1) by (auto simp: NewMqttMetricsExporter_def split: if_splits)
  with assms(2) have "good (mq_handlers (sys_mqtt (mqtt_Run now m)))" by (simp add: mqtt_Run_def)
  with m(2) show ?thesis by (induction rule: mqtt_steps.induct) (auto intro: mqtt_step_good)
qed

end

section \<open>Shutdown\<close>

lemma steps_trans: "mqtt_steps H s s' \<Longrightarrow> mqtt_steps H s' s'' \<Longrightarrow> mqtt_steps H s s''"
proof (rotate_tac, induction rule: mqtt_steps.induct)
  case (more s' t t')
  then show ?case by (blast intro: mqtt_steps.more)
qed simp

lemma step_session: "session_step s t \<Longrightarrow> \<not> sys_crashed s \<Longrightarrow> mqtt_steps H t u \<Longrightarrow> mqtt_steps H s u"
  by (blast intro: steps_trans mqtt_steps.intros mqtt_step.intros)

lemma step_monitor: "monitor_step H s t \<Longrightarrow> \<not> sys_crashed s \<Longrightarrow> mqtt_steps H t u \<Longrightarrow> mqtt_steps H s u"
  by (blast intro: steps_trans mqtt_steps.intros mqtt_step.intros)

lemma step_other: "other_step H s t \<Longrightarrow> \<not> sys_crashed s \<Longrightarrow> mqtt_steps H t u \<Longrightarrow> mqtt_steps H s u"
  by (blast intro: steps_trans mqtt_steps.intros mqtt_step.intros)

lemma step_ping: "ping_step s t \<Longrightarrow> \<not> sys_crashed s \<Longrightarrow> mqtt_steps H t u \<Longrightarrow> mqtt_steps H s u"
  by (blast intro: steps_trans mqtt_steps.intros mqtt_step.intros)

text \<open>A run of callbacks without interruption is a run of the system.\<close>

lemma callback_runs_steps:
  assumes "callback_runs H now cbs m effects cbs' m'"
    and "sys_callbacks s = before @ cbs @ after" and "sys_mqtt s = m" and "sys_now s = now" and "\<not> sys_crashed s"
  shows "mqtt_steps H s (sys_do m' effects (s\<lparr>sys_callbacks := before @ cbs' @ after\<rparr>))"
  using assms
proof (induction arbitrary: s rule: callback_runs.induct)
  case (runs_none cbs m)
  then have "sys_do m [] (s\<lparr>sys_callbacks := before @ cbs @ after\<rparr>) = s" by (cases s) (simp add: sys_do_def)
  then show ?case by (simp add: mqtt_steps.none)
next
  case (runs_more cb m effects new m1 cbs effects' cbs' m2)
  let ?t = "sys_do m1 effects (s\<lparr>sys_callbacks := before @ new @ (cbs @ after)\<rparr>)"
  have "other_step H s ?t"
    by (rule callback) (use runs_more.prems runs_more.hyps(1) in simp_all)
  moreover have "mqtt_steps H ?t (sys_do m2 effects' (?t\<lparr>sys_callbacks := before @ cbs' @ after\<rparr>))"
    using runs_more.prems by (intro runs_more.IH) (simp_all add: sys_do_def)
  ultimately have "mqtt_steps H s (sys_do m2 effects' (?t\<lparr>sys_callbacks := before @ cbs' @ after\<rparr>))"
    using step_other runs_more.prems(4) by blast
  then show ?case by (simp add: sys_do_def)
qed

text \<open>What the client calls and is handled at once.\<close>

lemma call_steps:
  assumes "callback_runs H (sys_now s) [cb] (sys_mqtt s) effects cbs m" and "from_client cb"
    and "EffConnect c \<in> set (sys_effects s)" and "\<not> sys_crashed s"
  shows "mqtt_steps H s (sys_do m effects (s\<lparr>sys_callbacks := sys_callbacks s @ cbs\<rparr>))"
proof -
  let ?t = "s\<lparr>sys_callbacks := sys_callbacks s @ [cb]\<rparr>"
  have "mqtt_steps H ?t (sys_do m effects (?t\<lparr>sys_callbacks := sys_callbacks s @ cbs @ []\<rparr>))"
    using assms by (intro callback_runs_steps [OF assms(1)]) simp_all
  with step_other [OF client_calls [OF assms(3,2)] assms(4)] show ?thesis by simp
qed

text \<open>A tick of the ping routine without interruption is \<open>pingTick\<close>.\<close>

lemma ping_send_steps:
  assumes "sys_ping s = PingSend refresh sns" and "\<not> sys_crashed s"
    and "fold (ping_one refresh (sys_now s) clk publish) sns (acc, sys_mqtt s) = (acc @ ps, m)"
  shows "mqtt_steps H s (sys_do m (map EffPublish ps) (s\<lparr>sys_ping := PingSend refresh []\<rparr>))"
  using assms
proof (induction sns arbitrary: s acc ps)
  case Nil
  then have "sys_do m (map EffPublish ps) (s\<lparr>sys_ping := PingSend refresh []\<rparr>) = s" by (simp add: sys_do_def)
  then show ?case by (simp add: mqtt_steps.none)
next
  case (Cons sn sns)
  obtain msg m1 where p: "ping_device refresh (sys_now s) clk publish sn (sys_mqtt s) = (msg, m1)" by (metis surj_pair)
  let ?ms = "case msg of None \<Rightarrow> [] | Some p \<Rightarrow> [p]"
  let ?t = "sys_do m1 (sent msg) (s\<lparr>sys_ping := PingSend refresh sns\<rparr>)"
  have step: "ping_step s ?t" using ping_send [of s refresh "[]" sn sns] Cons.prems(1) p by simp
  have "ping_one refresh (sys_now s) clk publish sn (acc, sys_mqtt s) = (acc @ ?ms, m1)"
    by (simp add: ping_one_def p)
  with Cons.prems(3) have f: "fold (ping_one refresh (sys_now s) clk publish) sns (acc @ ?ms, m1) = (acc @ ps, m)" by simp
  with fold_ping_prefix [of refresh "sys_now s" clk publish sns "acc @ ?ms" m1] obtain qs where qs: "ps = ?ms @ qs" by auto
  have "mqtt_steps H ?t (sys_do m (map EffPublish qs) (?t\<lparr>sys_ping := PingSend refresh []\<rparr>))"
    by (rule Cons.IH [where acc = "acc @ ?ms"]) (use Cons.prems(2) f qs in \<open>simp_all add: sys_do_def\<close>)
  then have "mqtt_steps H s (sys_do m (map EffPublish qs) (?t\<lparr>sys_ping := PingSend refresh []\<rparr>))"
    using step_ping [OF step] Cons.prems(2) by blast
  moreover have "sent msg @ map EffPublish qs = map EffPublish ps"
    by (simp add: sent_def qs split: option.split)
  ultimately show ?case by (simp add: sys_do_def)
qed

lemma ping_tick_steps:
  assumes "sys_ping s = PingIdle" and "tk_pending (sys_ping_ticker s)" and "\<not> sys_crashed s"
    and "range_order (mq_devices (sys_mqtt s)) sns"
    and "pingTick is_connected (sys_now s) clk publish sns (sys_tick_count s, sys_mqtt s) = (ps, k, m)"
  shows "mqtt_steps H s (sys_do m (map EffPublish ps)
    (s\<lparr>sys_ping_ticker := ticker_take (sys_ping_ticker s), sys_tick_count := k\<rparr>))"
proof (cases "mqtt_connected is_connected (sys_mqtt s)")
  case True
  let ?refresh = "(sys_tick_count s + 1) mod ticksPerRefresh (sys_mqtt s) = 0"
  let ?s1 = "s\<lparr>sys_ping_ticker := ticker_take (sys_ping_ticker s), sys_tick_count := sys_tick_count s + 1,
    sys_ping := PingSend ?refresh sns\<rparr>"
  from assms(5) True have k: "k = sys_tick_count s + 1"
    "fold (ping_one ?refresh (sys_now s) clk publish) sns ([], sys_mqtt s) = (ps, m)"
    by (auto simp: pingTick_def Let_def split: prod.splits)
  let ?s2 = "sys_do m (map EffPublish ps) (?s1\<lparr>sys_ping := PingSend ?refresh []\<rparr>)"
  have 2: "mqtt_steps H ?s1 ?s2" using k(2) assms(3) by (intro ping_send_steps [where acc = "[]"]) simp_all
  have 3: "ping_step ?s2 (?s2\<lparr>sys_ping := PingIdle\<rparr>)" by (rule ping_sent) (simp add: sys_do_def)
  have "mqtt_steps H s (?s2\<lparr>sys_ping := PingIdle\<rparr>)"
    using step_ping [OF ping_tick [OF assms(1,2) True assms(4)] assms(3)
        steps_trans [OF 2 step_ping [OF 3 _ mqtt_steps.none]]] assms(3) by (simp add: sys_do_def)
  moreover have "?s2\<lparr>sys_ping := PingIdle\<rparr> = sys_do m (map EffPublish ps)
      (s\<lparr>sys_ping_ticker := ticker_take (sys_ping_ticker s), sys_tick_count := k\<rparr>)"
    using assms(1) k(1) by (cases s) (simp add: sys_do_def)
  ultimately show ?thesis by simp
next
  case False
  with assms(5) have "ps = []" "k = sys_tick_count s" "m = sys_mqtt s" by (simp_all add: pingTick_def)
  with step_ping [OF ping_skip [OF assms(1,2) False] assms(3) mqtt_steps.none, of H] show ?thesis
    by (simp add: sys_do_def)
qed

text \<open>A goroutine can come to its end; what it leaves alone is a frame for the next one.\<close>

definition can_finish ::
  "('e, 'h) handler \<Rightarrow> ('h mqtt_system \<Rightarrow> bool) \<Rightarrow> 'h mqtt_system \<Rightarrow> bool" where
  "can_finish H done s \<longleftrightarrow> (\<exists>t. mqtt_steps H s t \<and> done t \<and> sys_cancelled t \<and> \<not> sys_crashed t
     \<and> (sys_session s = SesDone \<longrightarrow> sys_session t = SesDone))"

lemma can_finish_now: "done s \<Longrightarrow> sys_cancelled s \<Longrightarrow> \<not> sys_crashed s \<Longrightarrow> can_finish H done s"
  unfolding can_finish_def by (blast intro: mqtt_steps.none)

lemma can_finish_session:
  "session_step s t \<Longrightarrow> \<not> sys_crashed s \<Longrightarrow> can_finish H (\<lambda>u. sys_session u = SesDone) t
     \<Longrightarrow> can_finish H (\<lambda>u. sys_session u = SesDone) s"
  unfolding can_finish_def by (blast intro: step_session)

lemma can_finish_monitor:
  "monitor_step H s t \<Longrightarrow> \<not> sys_crashed s \<Longrightarrow> sys_session t = sys_session s \<Longrightarrow> can_finish H done t
     \<Longrightarrow> can_finish H done s"
  unfolding can_finish_def by (metis step_monitor)

lemma session_finishes:
  assumes "sys_cancelled s" and "\<not> sys_crashed s"
  shows "can_finish H (\<lambda>u. sys_session u = SesDone) s"
proof -
  have after: "can_finish H (\<lambda>u. sys_session u = SesDone) s"
    if "sys_session s = SesAfter" "sys_cancelled s" "\<not> sys_crashed s" for s
    by (rule can_finish_session [OF run_cancelled]) (use that in \<open>auto intro: can_finish_now\<close>)
  have ending: "can_finish H (\<lambda>u. sys_session u = SesDone) s"
    if "sys_session s = SesEnd c" "sys_cancelled s" "\<not> sys_crashed s" for s c
    by (rule can_finish_session [OF session_disconnect]) (use that in \<open>auto simp: sys_do_def intro!: after\<close>)
  have running: "can_finish H (\<lambda>u. sys_session u = SesDone) s"
    if "sys_session s = SesConnecting c \<or> sys_session s = SesConnected c" "sys_cancelled s" "\<not> sys_crashed s" for s c
    by (rule can_finish_session [OF session_cancelled [OF that(1,2)]]) (use that in \<open>auto intro!: ending\<close>)
  have connect: "can_finish H (\<lambda>u. sys_session u = SesDone) s"
    if "sys_session s = SesConnect c" "sys_cancelled s" "\<not> sys_crashed s" for s c
    by (rule can_finish_session [OF connect_client [OF that(1)]]) (use that in \<open>auto simp: sys_do_def intro!: running\<close>)
  have wait: "can_finish H (\<lambda>u. sys_session u = SesDone) s"
    if "sys_session s = SesLoginWait d t" "sys_cancelled s" "\<not> sys_crashed s" for s d t
    by (rule can_finish_session [OF login_cancelled [OF that(1,2)]]) (use that in \<open>auto intro!: after\<close>)
  show ?thesis
  proof (cases "sys_session s")
    case (SesLogin d)
    have failed: "mqtt_login (\<lambda>b. HttpFailed []) (\<lambda>e p. Inl []) (sys_mqtt s) = (Inl (LoginRequestFailed []), sys_mqtt s)"
      by (simp add: mqtt_login_def getUserId_def)
    show ?thesis
      by (rule can_finish_session [OF login_failed [OF SesLogin failed]]) (use assms in \<open>auto intro!: wait\<close>)
  next
    case (SesStore c)
    show ?thesis
      by (rule can_finish_session [OF store_client [OF SesStore]]) (use assms in \<open>auto intro!: connect\<close>)
  next
    case (SesPause t)
    show ?thesis
      by (rule can_finish_session [OF pause_cancelled [OF SesPause]]) (use assms in \<open>auto intro!: can_finish_now\<close>)
  qed (use assms in \<open>auto intro: wait connect running ending after can_finish_now\<close>)
qed

lemma monitor_finishes:
  assumes "sys_cancelled s" and "\<not> sys_crashed s" and "monitor_ok (sys_mqtt s) (sys_monitor s)"
  shows "can_finish H (\<lambda>u. sys_monitor u = MonDone) s"
proof -
  let ?fin = "can_finish H (\<lambda>u. sys_monitor u = MonDone)"
  have idle: "?fin s" if "sys_monitor s = MonIdle" "sys_cancelled s" "\<not> sys_crashed s" for s
    by (rule can_finish_monitor [OF monitor_cancelled [OF that(1,2)]]) (use that in \<open>auto intro: can_finish_now\<close>)
  have pause: "?fin s" if "sys_monitor s = MonPause c t" "sys_cancelled s" "\<not> sys_crashed s" for s c t
    by (rule can_finish_monitor [OF monitor_force, OF force_cancelled [OF that(1,2)]]) (use that in \<open>auto intro!: idle\<close>)
  have connecting: "?fin s" if "sys_monitor s = MonConnecting c t" "sys_cancelled s" "\<not> sys_crashed s" for s c t
    by (rule can_finish_monitor [OF monitor_force, OF force_connected [OF that(1)]]) (use that in \<open>auto intro!: idle\<close>)
  have request: "?fin s" if "sys_monitor s = MonRequest" "sys_cancelled s" "\<not> sys_crashed s" for s
    by (rule can_finish_monitor [OF monitor_request [OF that(1)]]) (use that in \<open>auto intro!: idle\<close>)
  have force: "?fin s" if pc: "sys_monitor s = MonForce" "mq_client (sys_mqtt s) \<noteq> None" and run: "sys_cancelled s" "\<not> sys_crashed s" for s
  proof -
    from pc(2) obtain c where c: "mq_client (sys_mqtt s) = Some c" by blast
    show ?thesis
      by (rule can_finish_monitor [OF monitor_force, OF force_disconnect [OF pc(1) c]]) (use run in \<open>auto simp: sys_do_def intro!: pause\<close>)
  qed
  have due: "?fin s" if pc: "sys_monitor s = MonDue" "mq_client (sys_mqtt s) \<noteq> None" and run: "sys_cancelled s" "\<not> sys_crashed s" for s
  proof -
    obtain d m where d: "reloginDue (sys_mqtt s) = (d, m)" by (metis surj_pair)
    have "mq_client m = mq_client (sys_mqtt s)" using mqtt_keeps_reloginDue [OF d] by (simp add: mqtt_keeps_def)
    with pc(2) run have "?fin (s\<lparr>sys_mqtt := m, sys_monitor := if d then MonRequest else MonForce\<rparr>)"
      using force [of "s\<lparr>sys_mqtt := m, sys_monitor := MonForce\<rparr>"]
        request [of "s\<lparr>sys_mqtt := m, sys_monitor := MonRequest\<rparr>"] by simp
    with run show ?thesis by (intro can_finish_monitor [OF monitor_relogin_due [OF pc(1) d]]) simp_all
  qed
  have decide: "?fin s" if pc: "sys_monitor s = MonDecide off" "mq_client (sys_mqtt s) \<noteq> None" and run: "sys_cancelled s" "\<not> sys_crashed s" for s off
  proof (cases "all_offline off (sys_mqtt s)")
    case True
    obtain d m where d: "reconnectDue (sys_now s) (sys_mqtt s) = (d, m)" by (metis surj_pair)
    have "mq_client m = mq_client (sys_mqtt s)" using mqtt_keeps_reconnectDue [OF d] by (simp add: mqtt_keeps_def)
    with pc(2) run have "?fin (s\<lparr>sys_mqtt := m, sys_monitor := if d then MonDue else MonIdle\<rparr>)"
      using due [of "s\<lparr>sys_mqtt := m, sys_monitor := MonDue\<rparr>"]
        idle [of "s\<lparr>sys_mqtt := m, sys_monitor := MonIdle\<rparr>"] by simp
    with run show ?thesis by (intro can_finish_monitor [OF monitor_all_offline [OF pc(1) True d]]) simp_all
  next
    case False
    show ?thesis
      by (rule can_finish_monitor [OF monitor_some_online [OF pc(1) False]]) (use run in \<open>auto intro!: idle\<close>)
  qed
  have send: "?fin s" if "sys_monitor s = MonSend off sns" "mq_client (sys_mqtt s) \<noteq> None" "sys_cancelled s" "\<not> sys_crashed s" for s off sns
    using that
  proof (induction sns arbitrary: s)
    case Nil
    show ?case
      by (rule can_finish_monitor [OF monitor_sent [OF Nil(1)]]) (use Nil in \<open>auto intro!: decide\<close>)
  next
    case (Cons sn sns)
    obtain u m where d: "send_offline H undefined (sys_now s) sn (sys_mqtt s) = (u, m)" by (metis surj_pair)
    have m: "mq_client m = mq_client (sys_mqtt s)" using mqtt_keeps_send [OF d] by (simp add: mqtt_keeps_def)
    show ?case
      by (rule can_finish_monitor [OF monitor_send [OF Cons.prems(1) d]])
        (use Cons.prems m in \<open>auto simp: sys_do_def intro!: Cons.IH\<close>)
  qed
  have offline: "?fin s" if pc: "sys_monitor s = MonOffline off" "mq_client (sys_mqtt s) \<noteq> None" and run: "sys_cancelled s" "\<not> sys_crashed s" for s off
  proof -
    obtain d m where d: "offlineUpdatesDue (sys_now s) off (sys_mqtt s) = (d, m)" by (metis surj_pair)
    then have m: "mq_client m = mq_client (sys_mqtt s)" by (auto simp: offlineUpdatesDue_def split: prod.splits)
    show ?thesis
      by (rule can_finish_monitor [OF monitor_due [OF pc(1) d]]) (use pc(2) run m in \<open>auto intro!: send\<close>)
  qed
  have check: "?fin s" if pc: "sys_monitor s = MonCheck" "mq_client (sys_mqtt s) \<noteq> None" and run: "sys_cancelled s" "\<not> sys_crashed s" for s
  proof -
    obtain ks where ks: "range_order (mq_lastReceived (sys_mqtt s)) ks" using range_order_exists by blast
    show ?thesis
      by (rule can_finish_monitor [OF monitor_offline [OF pc(1) ks]]) (use pc(2) run in \<open>auto intro!: offline\<close>)
  qed
  show ?thesis
  proof (cases "sys_monitor s")
    case MonIdle
    with idle [OF MonIdle] assms show ?thesis by simp
  next
    case MonCheck
    with check [OF MonCheck] assms show ?thesis by simp
  next
    case (MonOffline off)
    with offline [OF MonOffline] assms show ?thesis by simp
  next
    case (MonSend off sns)
    with send [OF MonSend] assms show ?thesis by simp
  next
    case (MonDecide off)
    with decide [OF MonDecide] assms show ?thesis by simp
  next
    case MonDue
    with due [OF MonDue] assms show ?thesis by simp
  next
    case MonRequest
    with request [OF MonRequest] assms show ?thesis by simp
  next
    case MonForce
    with force [OF MonForce] assms show ?thesis by simp
  next
    case (MonPause c t)
    with pause [OF MonPause] assms show ?thesis by simp
  next
    case (MonConnecting c t)
    with connecting [OF MonConnecting] assms show ?thesis by simp
  next
    case MonDone
    with can_finish_now [of _ s] assms show ?thesis by simp
  qed
qed

text \<open>The goroutines of the current tick finish, then the ping routine ends.\<close>

lemma ping_finishes:
  assumes "sys_cancelled s" and "\<not> sys_crashed s"
  shows "\<exists>t. mqtt_steps H s t \<and> sys_ping t = PingDone \<and> sys_session t = sys_session s \<and> sys_monitor t = sys_monitor s"
proof -
  let ?fin = "\<lambda>s. \<exists>t. mqtt_steps H s t \<and> sys_ping t = PingDone \<and> sys_session t = sys_session s \<and> sys_monitor t = sys_monitor s"
  have idle: "?fin s" if "sys_ping s = PingIdle" "sys_cancelled s" "\<not> sys_crashed s" for s
    using step_ping [OF ping_cancelled [OF that(1,2)] that(3) mqtt_steps.none, of H] by fastforce
  have send: "?fin s" if "sys_ping s = PingSend refresh sns" "sys_cancelled s" "\<not> sys_crashed s" for refresh sns s
    using that
  proof (induction sns arbitrary: s)
    case Nil
    have "?fin (s\<lparr>sys_ping := PingIdle\<rparr>)" using Nil by (intro idle) simp_all
    then show ?case using step_ping [OF ping_sent [OF Nil(1)] Nil(3), of H] by fastforce
  next
    case (Cons sn sns)
    obtain msg m where p: "ping_device refresh (sys_now s) undefined (\<lambda>p. PublishTimeout) sn (sys_mqtt s) = (msg, m)"
      by (metis surj_pair)
    let ?t = "sys_do m (sent msg) (s\<lparr>sys_ping := PingSend refresh sns\<rparr>)"
    have "ping_step s ?t" using ping_send [of s refresh "[]" sn sns, OF _ p] Cons.prems(1) by simp
    moreover have "?fin ?t" using Cons.prems by (intro Cons.IH) (simp_all add: sys_do_def)
    moreover have "sys_session ?t = sys_session s" "sys_monitor ?t = sys_monitor s" by (simp_all add: sys_do_def)
    ultimately show ?case using step_ping [of s ?t H] Cons.prems(3) by metis
  qed
  show ?thesis
  proof (cases "sys_ping s")
    case PingIdle
    with idle assms show ?thesis by blast
  next
    case (PingSend refresh sns)
    with send assms show ?thesis by blast
  next
    case PingDone
    then show ?thesis using mqtt_steps.none by blast
  qed
qed

text \<open>All goroutines: first the session, then the monitor, then the ping routine.\<close>

lemma everything_finishes:
  assumes "sys_inv devices s" and "sys_cancelled s"
  shows "\<exists>t. mqtt_steps H s t \<and> sys_session t = SesDone \<and> sys_monitor t = MonDone \<and> sys_ping t = PingDone"
proof -
  have "\<not> sys_crashed s" using assms(1) by (simp add: sys_inv_def core_inv_def)
  from session_finishes [OF assms(2) this] obtain t1 where
    t1: "mqtt_steps H s t1" "sys_session t1 = SesDone" "sys_cancelled t1" "\<not> sys_crashed t1"
    unfolding can_finish_def by blast
  have "monitor_ok (sys_mqtt t1) (sys_monitor t1)"
    using mqtt_steps_inv [OF t1(1) assms(1)] by (simp add: sys_inv_def)
  from monitor_finishes [OF t1(3,4) this] obtain t2 where
    t2: "mqtt_steps H t1 t2" "sys_monitor t2 = MonDone" "sys_cancelled t2" "\<not> sys_crashed t2" "sys_session t2 = SesDone"
    unfolding can_finish_def using t1(2) by blast
  from ping_finishes [OF t2(3,4)] obtain t where
    "mqtt_steps H t2 t" "sys_ping t = PingDone" "sys_session t = SesDone" "sys_monitor t = MonDone"
    using t2 by metis
  then show ?thesis using steps_trans [OF t1(1) steps_trans [OF t2(1)]] by blast
qed

end
