(* ===== verification/Mqtt_Runs.thy ===== *)
theory Mqtt_Runs
  imports Mqtt_System
begin

text \<open>
  \<open>mqtt_exporter.go\<close>, last part: what holds in every run of the MQTT exporter, from the invariants
  of the system, and a concrete run that shows a race between the monitor and a message.
\<close>

section \<open>A concrete run\<close>

definition sample_mqtt_config :: MqttExporterConfig where
  "sample_mqtt_config =
     \<lparr>mc_Email = ''a@b.c'', mc_Password = ''pw'', mc_Devices = fmupd ''R1'' ''garage'' fmempty,
      mc_OfflineThreshold = 2 * minute, mc_PingInterval = 20 * second, mc_StateRefreshInterval = 300 * second,
      mc_ProtobufDebug = False, mc_Telemetry = None\<rparr>"

definition sample_fresh :: "unit mqtt" where
  "sample_fresh = sample_status\<lparr>mq_client := None, mq_userId := []\<rparr>"

lemma sample_constructed: "NewMqttMetricsExporter sample_mqtt_config [()] = Inr sample_fresh"
  by (simp add: NewMqttMetricsExporter_def sample_mqtt_config_def sample_fresh_def sample_status_def go_len_zero_iff)

text \<open>The answer of the EcoFlow API to a login.\<close>

definition sample_login_response :: json_out where
  "sample_login_response = JObject [(''data'', JObject [(''user'', JObject [(''userId'', JString ''u7'')])])]"

lemma sample_login_user: "login_user_id (json_marshal sample_login_response) = Some ''u7''"
proof -
  have "parse_json (json_marshal sample_login_response) = Some (json_value sample_login_response)"
    by (rule parse_marshal) (simp_all add: sample_login_response_def ascii_text_def code_def)
  then show ?thesis
    by (simp add: login_user_id_def sample_login_response_def sort_members_def into_struct_def into_string_def
        field_matches_def)
qed

definition sample_post :: "gostring \<Rightarrow> http_response" where
  "sample_post body = HttpResponse 200 (json_marshal sample_login_response) None"

lemma sample_login_any: "mqtt_login sample_post (\<lambda>e p. Inr 1) m = (Inr 1, m\<lparr>mq_userId := ''u7''\<rparr>)"
  by (simp add: mqtt_login_def getUserId_def sample_post_def sample_login_user)

lemma sample_login: "mqtt_login sample_post (\<lambda>e p. Inr 1) sample_fresh = (Inr 1, sample_status\<lparr>mq_client := None\<rparr>)"
  by (simp add: sample_login_any [simplified] sample_fresh_def sample_status_def)

lemma reachable_steps:
  "mqtt_reachable H cfg hs s \<Longrightarrow> mqtt_steps H s t \<Longrightarrow> mqtt_reachable H cfg hs t"
  by (auto simp: mqtt_reachable_def intro: steps_trans)

text \<open>Every exporter can log in and connect.\<close>

lemma connecting_steps:
  "\<exists>s. mqtt_steps H (mqtt_Run now m) s \<and> \<not> sys_cancelled s \<and> EffConnect 1 \<in> set (sys_effects s) \<and> sys_now s = now
    \<and> sys_mqtt s = m\<lparr>mq_userId := ''u7'', mq_client := Some 1\<rparr> \<and> \<not> sys_crashed s \<and> sys_callbacks s = []
    \<and> sys_monitor s = MonIdle \<and> sys_monitor_ticker s = NewTicker now (monitor_interval m)"
proof -
  let ?s0 = "mqtt_Run now m"
  let ?s1 = "?s0\<lparr>sys_mqtt := m\<lparr>mq_userId := ''u7''\<rparr>, sys_session := SesStore 1\<rparr>"
  let ?s2 = "?s1\<lparr>sys_mqtt := m\<lparr>mq_userId := ''u7'', mq_client := Some 1\<rparr>, sys_session := SesConnect 1\<rparr>"
  let ?s3 = "sys_do (sys_mqtt ?s2) [EffConnect 1] (?s2\<lparr>sys_session := SesConnecting 1\<rparr>)"
  have 1: "session_step ?s0 ?s1"
    by (rule login_ok [where d = loginRetryDelay and http_post = sample_post and new_client = "\<lambda>e p. Inr 1"])
      (simp_all add: mqtt_Run_def sample_login_any [simplified])
  have 2: "session_step ?s1 ?s2" using store_client [of ?s1 1] by simp
  have 3: "session_step ?s2 ?s3" using connect_client [of ?s2 1] by simp
  have "mqtt_steps H ?s0 ?s3"
    by (rule step_session [OF 1 _ step_session [OF 2 _ step_session [OF 3 _ mqtt_steps.none]]])
      (simp_all add: mqtt_Run_def)
  then show ?thesis
    by (intro exI [of _ ?s3]) (auto simp: sys_do_def mqtt_Run_def)
qed

lemma connecting_reachable:
  assumes "NewMqttMetricsExporter cfg hs = Inr m"
  shows "\<exists>s. mqtt_reachable H cfg hs s \<and> EffConnect 1 \<in> set (sys_effects s) \<and> sys_now s = now
    \<and> sys_mqtt s = m\<lparr>mq_userId := ''u7'', mq_client := Some 1\<rparr> \<and> \<not> sys_crashed s \<and> sys_callbacks s = []
    \<and> sys_monitor s = MonIdle \<and> sys_monitor_ticker s = NewTicker now (monitor_interval m)"
  using connecting_steps [of H now m] assms unfolding mqtt_reachable_def by blast

text \<open>
  Then the client calls back: \<open>OnConnect\<close> subscribes to a device and requests its full state, which is
  counted as a ping of that device.
\<close>

lemma requesting_steps:
  assumes "range_order (mq_devices m) (sn # sns)"
  shows "\<exists>s. mqtt_steps H (mqtt_Run now m) s \<and> \<not> sys_cancelled s \<and> mq_telemetry (sys_mqtt s) =
      MqttPing sn ''state_refresh'' (None :: request_error option) (SetMqttConnected True (mq_telemetry m))"
proof -
  obtain s where s: "mqtt_steps H (mqtt_Run now m) s" "EffConnect 1 \<in> set (sys_effects s)" "sys_now s = now"
    "sys_mqtt s = m\<lparr>mq_userId := ''u7'', mq_client := Some 1\<rparr>" "\<not> sys_crashed s" "sys_callbacks s = []"
    "\<not> sys_cancelled s"
    using connecting_steps [of H now m] by blast
  let ?m0 = "sys_mqtt s"
  let ?m1 = "initDeviceStatuses now (sn # sns) (?m0\<lparr>mq_telemetry := SetMqttConnected True (mq_telemetry ?m0)\<rparr>)"
  let ?r = "requestLatestQuotas now (\<lambda>p. PublishDone None) sn ?m1"
  have c: "mq_client ?m1 = Some 1" "mq_telemetry ?m1 = SetMqttConnected True (mq_telemetry m)"
    by (simp_all add: initDeviceStatuses_def s(4))
  have t: "mq_telemetry (snd (snd ?r)) =
      MqttPing sn ''state_refresh'' (None :: request_error option) (SetMqttConnected True (mq_telemetry m))"
    using c by (simp add: requestLatestQuotas_def publish_error_def)
  have 1: "callback_step H now ConnStart ?m0 [] [ConnSubscribe (sn # sns)] ?m1"
    by (rule conn_start) (simp add: s(4) assms)
  have 2: "callback_step H now (ConnSubscribe (sn # sns)) ?m1 [EffSubscribe 1 sn] [ConnRequest sn sns] ?m1"
    by (rule conn_subscribed [OF c(1)])
  have 3: "callback_step H now (ConnRequest sn sns) ?m1 (sent (fst (snd ?r))) [ConnSubscribe sns] (snd (snd ?r))"
    by (rule conn_requested [where publish = "\<lambda>p. PublishDone None" and err = "fst ?r"]) simp
  have "callback_runs H now [ConnSubscribe sns] (snd (snd ?r)) [] [ConnSubscribe sns] (snd (snd ?r))"
    by (rule runs_none)
  with 3 have "callback_runs H now [ConnRequest sn sns] ?m1 (sent (fst (snd ?r))) [ConnSubscribe sns] (snd (snd ?r))"
    using runs_more [OF 3, of "[]"] by fastforce
  from runs_more [OF 2, of "[]", simplified, OF this] have
    "callback_runs H now [ConnSubscribe (sn # sns)] ?m1 (EffSubscribe 1 sn # sent (fst (snd ?r))) [ConnSubscribe sns] (snd (snd ?r))"
    by simp
  from runs_more [OF 1, of "[]", simplified, OF this] have
    "callback_runs H (sys_now s) [ConnStart] (sys_mqtt s) (EffSubscribe 1 sn # sent (fst (snd ?r))) [ConnSubscribe sns] (snd (snd ?r))"
    by (simp add: s(3))
  from call_steps [OF this _ s(2,5)] have "mqtt_steps H s (sys_do (snd (snd ?r)) (EffSubscribe 1 sn # sent (fst (snd ?r)))
      (s\<lparr>sys_callbacks := sys_callbacks s @ [ConnSubscribe sns]\<rparr>))" by simp
  from steps_trans [OF s(1) this] t s(7) show ?thesis
    by (intro exI conjI) (assumption, simp_all add: sys_do_def)
qed

text \<open>Login, the client is stored and connected, and \<open>OnConnect\<close> gives the device a status.\<close>

definition sample_seen :: "unit mqtt" where
  "sample_seen = sample_status\<lparr>mq_lastReceived := fmupd ''R1'' minute fmempty\<rparr>"

definition sample_connected :: "unit mqtt_system" where
  "sample_connected = (mqtt_Run minute sample_fresh)
     \<lparr>sys_mqtt := sample_seen, sys_session := SesConnecting 1,
      sys_effects := [EffConnect 1, EffSubscribe 1 ''R1'']\<rparr>"

lemma range_order_R1: "range_order (fmupd ''R1'' v fmempty) [''R1'']"
  by (simp add: range_order_def)

lemma sample_received: "mq_lastReceived sample_seen = fmupd ''R1'' minute fmempty"
  by (simp add: sample_seen_def)

lemma sample_OnConnect:
  "OnConnect minute (\<lambda>sn. Some ''refused'') (\<lambda>sn. minute) (\<lambda>p. PublishTimeout) [''R1''] sample_status
     = Some ([EffSubscribe 1 ''R1''], sample_seen)"
  by (simp add: OnConnect_def initDeviceStatuses_def sample_status_def sample_seen_def SetMqttConnected_def)

lemma sample_connected_steps: "mqtt_steps idle_handler (mqtt_Run minute sample_fresh) sample_connected"
proof -
  let ?s0 = "mqtt_Run minute sample_fresh"
  let ?s1 = "?s0\<lparr>sys_mqtt := sample_status\<lparr>mq_client := None\<rparr>, sys_session := SesStore 1\<rparr>"
  let ?s2 = "?s1\<lparr>sys_mqtt := sample_status, sys_session := SesConnect 1\<rparr>"
  let ?s3 = "sys_do sample_status [EffConnect 1] (?s2\<lparr>sys_session := SesConnecting 1\<rparr>)"
  have m2: "(sys_mqtt ?s1)\<lparr>mq_client := Some 1\<rparr> = sample_status" by (simp add: sample_status_def)
  have 1: "session_step ?s0 ?s1"
    by (rule login_ok [where d = loginRetryDelay and http_post = sample_post and new_client = "\<lambda>e p. Inr 1"])
      (simp_all add: mqtt_Run_def sample_login [simplified])
  have 2: "session_step ?s1 ?s2"
    using store_client [of ?s1 1] m2 by simp
  have 3: "session_step ?s2 ?s3"
    using connect_client [of ?s2 1] by simp
  have devices: "range_order (mq_devices sample_status) [''R1'']" by (simp add: sample_status_def range_order_R1)
  have 4: "mqtt_steps idle_handler ?s3 sample_connected"
  proof -
    have "callback_runs idle_handler (sys_now ?s3) [ConnStart] (sys_mqtt ?s3) [EffSubscribe 1 ''R1''] [] sample_seen"
      using connect_runs [OF sample_OnConnect devices, of idle_handler] by (simp add: sys_do_def mqtt_Run_def)
    from call_steps [OF this, of 1] show ?thesis
      by (simp add: sample_connected_def sys_do_def mqtt_Run_def)
  qed
  show ?thesis
    by (rule step_session [OF 1 _ step_session [OF 2 _ step_session [OF 3 _ 4]]])
      (simp_all add: sys_do_def mqtt_Run_def)
qed

lemma sample_connected_reachable: "mqtt_reachable idle_handler sample_mqtt_config [()] sample_connected"
  unfolding mqtt_reachable_def using sample_constructed sample_connected_steps by blast

text \<open>Three minutes later the monitor finds the device silent and is about to say so.\<close>

definition sample_silent :: "unit mqtt_system" where
  "sample_silent = sample_connected
     \<lparr>sys_now := 4 * minute, sys_monitor_ticker := \<lparr>tk_period = 30 * second, tk_next = 2 * minute, tk_pending = False\<rparr>,
      sys_mqtt := sample_seen\<lparr>mq_offlineSent := fmupd ''R1'' (4 * minute) fmempty\<rparr>,
      sys_monitor := MonSend [''R1''] [''R1'']\<rparr>"

lemma sample_silent_steps: "mqtt_steps idle_handler sample_connected sample_silent"
proof -
  let ?s1 = "sample_connected\<lparr>sys_now := 4 * minute\<rparr>"
  let ?s2 = "?s1\<lparr>sys_monitor_ticker := \<lparr>tk_period = 30 * second, tk_next = 2 * minute, tk_pending = True\<rparr>\<rparr>"
  let ?s3 = "?s2\<lparr>sys_monitor_ticker := \<lparr>tk_period = 30 * second, tk_next = 2 * minute, tk_pending = False\<rparr>,
      sys_monitor := MonCheck\<rparr>"
  let ?s4 = "?s3\<lparr>sys_monitor := MonOffline [''R1'']\<rparr>"
  have 1: "other_step idle_handler sample_connected ?s1"
    by (rule time_passes) (simp add: sample_connected_def mqtt_Run_def)
  have 2: "other_step idle_handler ?s1 ?s2"
    using monitor_ticker_fires [of ?s1 idle_handler]
    by (simp add: sample_connected_def mqtt_Run_def NewTicker_def ticker_fire_def monitor_interval_def
        sample_fresh_def sample_status_def)
  have 3: "monitor_step idle_handler ?s2 ?s3"
    using monitor_tick [of ?s2 idle_handler "\<lambda>c. True"]
    by (simp add: sample_connected_def mqtt_Run_def mqtt_connected_def sample_seen_def sample_status_def ticker_take_def)
  have off: "offlineDevices (4 * minute) [''R1''] sample_seen = [''R1'']"
    by (simp add: offlineDevices_def sample_seen_def sample_status_def time_sub_def)
  have 4: "monitor_step idle_handler ?s3 ?s4"
    using monitor_offline [of ?s3 "[''R1'']" idle_handler] off
    by (simp add: sample_connected_def sample_received range_order_R1)
  have due: "offlineUpdatesDue (4 * minute) [''R1''] sample_seen
      = ([''R1''], sample_seen\<lparr>mq_offlineSent := fmupd ''R1'' (4 * minute) fmempty\<rparr>)"
    by (simp add: offlineUpdatesDue_def sample_seen_def sample_status_def)
  have 5: "monitor_step idle_handler ?s4 sample_silent"
    using monitor_due [of ?s4 "[''R1'']" "[''R1'']" _ idle_handler] due
    by (simp add: sample_silent_def sample_connected_def)
  show ?thesis
    by (rule step_other [OF 1 _ step_other [OF 2 _ step_monitor [OF 3 _ step_monitor [OF 4 _ step_monitor [OF 5 _ mqtt_steps.none]]]]])
      (simp_all add: sample_connected_def mqtt_Run_def)
qed

text \<open>Now a message of the device arrives, and then the monitor sends what it had decided to send.\<close>

lemma decode_received: "decode_payload (env\<lparr>me_received := t\<rparr>) = decode_payload env"
  by (intro ext) (simp add: decode_payload_def split: MessageFormat.split)

lemma sample_silent_reachable: "mqtt_reachable idle_handler sample_mqtt_config [()] sample_silent"
  by (rule reachable_steps [OF sample_connected_reachable sample_silent_steps])

lemma sample_race:
  "\<exists>t before u v. mqtt_steps idle_handler sample_silent t \<and> sys_effects t = before @ [EffUpdate u, EffUpdate v]
     \<and> upd_device u = \<lparr>dev_SN = ''R1'', dev_Name = ''garage'', dev_Online = 1\<rparr>
     \<and> upd_device v = \<lparr>dev_SN = ''R1'', dev_Name = ''garage'', dev_Online = 0\<rparr>
     \<and> fmlookup (mq_lastReceived (sys_mqtt t)) ''R1'' = Some (sys_now t)
     \<and> fmlookup (mq_offlineSent (sys_mqtt t)) ''R1'' = None"
proof -
  let ?env = "sample_message_env\<lparr>me_received := 4 * minute\<rparr>"
  let ?m = "sample_seen\<lparr>mq_offlineSent := fmupd ''R1'' (4 * minute) fmempty\<rparr>"
  let ?ps = "fmupd ''bms.3.num'' (VFloat64 (Fin 3)) fmempty"
  have dec: "fst (decode_payload ?env ''R1'' [3] (mq_decoder ?m)) = Some ?ps"
    using sample_decoded [of "''R1''" "mq_decoder ?m"] by (simp add: decode_received)
  have ne: "?ps \<noteq> fmempty" by (metis fmupd_lookup fmempty_lookup option.distinct(1))
  have dev: "fmlookup (mq_devices ?m) ''R1'' = Some ''garage''" by (simp add: sample_seen_def sample_status_def)
  obtain errs effects m u where r: "MessageHandler idle_handler ?env sample_topic [3] ?m = (Delivered errs, effects, m)"
    "effects \<noteq> []" "last effects = EffUpdate u" "upd_device u = \<lparr>dev_SN = ''R1'', dev_Name = ''garage'', dev_Online = 1\<rparr>"
    "fmlookup (mq_lastReceived m) ''R1'' = Some (4 * minute)" "fmlookup (mq_offlineSent m) ''R1'' = None"
    using MessageHandler_delivers [OF sample_topic_sn _ dev dec ne, of idle_handler] by auto
  let ?s1 = "sys_do m effects (sample_silent\<lparr>sys_callbacks := sys_callbacks sample_silent @ starts effects\<rparr>)"
  have "callback_runs idle_handler (sys_now sample_silent) [MsgArrived sample_topic [3]] (sys_mqtt sample_silent)
      effects (starts effects) m"
    using handler_runs_arrived [OF r(1)] by (simp add: sample_silent_def sample_connected_def)
  from call_steps [OF this, of 1] have 1: "mqtt_steps idle_handler sample_silent ?s1"
    by (simp add: sample_silent_def sample_connected_def mqtt_Run_def)
  obtain v m2 where v: "send_offline idle_handler (\<lambda>i. ()) (4 * minute) ''R1'' m = (v, m2)" by (metis surj_pair)
  let ?s2 = "sys_do m2 [EffUpdate v] (?s1\<lparr>sys_monitor := MonSend [''R1''] []\<rparr>)"
  have 2: "monitor_step idle_handler ?s1 ?s2"
    by (rule monitor_send [where sn = "''R1''" and envs = "\<lambda>i. ()"]) (use v in \<open>simp_all add: sys_do_def sample_silent_def\<close>)
  have devices: "mq_devices m = mq_devices ?m" using MessageHandler_keeps(1) [OF r(1)] by (simp add: same_config_def)
  then have "upd_device v = \<lparr>dev_SN = ''R1'', dev_Name = ''garage'', dev_Online = 0\<rparr>"
    using v dev by (auto simp: send_offline_def Let_def NewDeviceUpdate_def offline_device_def getDeviceName_def)
  moreover have "\<exists>hs. m2 = m\<lparr>mq_handlers := hs\<rparr>"
  proof -
    obtain errs' where "call_handlers idle_handler (\<lambda>i. ()) v m = (errs', m2)"
      using v by (auto simp: send_offline_def Let_def intro: that prod.collapse [symmetric])
    then show ?thesis by (auto dest: call_handlers_frame)
  qed
  moreover have "mqtt_steps idle_handler sample_silent ?s2"
    by (rule steps_trans [OF 1 step_monitor [OF 2 _ mqtt_steps.none]])
      (simp_all add: sys_do_def sample_silent_def sample_connected_def mqtt_Run_def)
  moreover have "sys_effects ?s2 = (sys_effects sample_silent @ butlast effects) @ [EffUpdate u, EffUpdate v]"
    using append_butlast_last_id [OF r(2)] r(3) by (simp add: sys_do_def)
  moreover have "sys_now ?s2 = 4 * minute" "sys_mqtt ?s2 = m2" by (simp_all add: sys_do_def sample_silent_def)
  ultimately show ?thesis using r(4-6)
    by (intro exI [of _ ?s2] exI [of _ "sys_effects sample_silent @ butlast effects"] exI [of _ u] exI [of _ v]) auto
qed

section \<open>When all devices are offline\<close>

text \<open>
  The code compares the number of offline devices with the number of devices; since only configured
  devices have a status, that is the same as all of them being silent.
\<close>

lemma all_offline_devices:
  assumes "state_inv m" and "mq_devices m \<noteq> fmempty" and "range_order (mq_lastReceived m) ks"
    and "mq_offlineThreshold m < 2 ^ 63 - 1"
  shows "all_offline (offlineDevices now ks m) m \<longleftrightarrow>
    (\<forall>sn \<in> fset (fmdom (mq_devices m)). \<exists>t. fmlookup (mq_lastReceived m) sn = Some t \<and> now - t > mq_offlineThreshold m)"
proof -
  let ?off = "offlineDevices now ks m"
  have thr: "0 < mq_offlineThreshold m" and sub: "fset (fmdom (mq_lastReceived m)) \<subseteq> fset (fmdom (mq_devices m))"
    using assms(1) by (auto simp: state_inv_def status_inv_def)
  note mem = offlineDevices_mem [OF assms(3) thr assms(4), of _ now]
  have off: "distinct ?off" "set ?off \<subseteq> fset (fmdom (mq_devices m))"
    using offlineDevices_status [OF assms(3), of now] sub by (auto simp: with_status_def)
  have len: "length ?off = card (set ?off)" using distinct_card [OF off(1)] by simp
  have devs: "go_len (mq_devices m) = card (fset (fmdom (mq_devices m)))" by (simp add: go_len_def fcard.rep_eq)
  have pos: "0 < go_len (mq_devices m)" using assms(2) by (simp add: go_len_zero_iff [symmetric])
  have "all_offline ?off m \<longleftrightarrow> set ?off = fset (fmdom (mq_devices m))"
    using off(2) len devs pos by (auto simp: all_offline_def dest: card_subset_eq [rotated])
  also have "\<dots> \<longleftrightarrow> (\<forall>sn \<in> fset (fmdom (mq_devices m)). sn \<in> set ?off)" using off(2) by blast
  finally show ?thesis by (simp add: mem)
qed

lemma reachable_config:
  assumes "mqtt_reachable H cfg hs s"
  shows "mq_devices (sys_mqtt s) = mc_Devices cfg" "mc_Devices cfg \<noteq> fmempty" "state_inv (sys_mqtt s)"
    "\<not> sys_crashed s" "session_ok (sys_mqtt s) (sys_session s)"
    "list_all (effect_ok (mc_Devices cfg)) (sys_effects s)"
  using mqtt_reachable_inv [OF assms] assms
  by (auto simp: sys_inv_def core_inv_def mqtt_reachable_def NewMqttMetricsExporter_def split: if_splits)

lemma telemetry_reachable:
  assumes "mqtt_reachable H cfg hs s" and "telemetry_ok (mc_Telemetry cfg)" and "utf8_mapping (mc_Devices cfg)"
  shows "telemetry_inv (sys_mqtt s)"
proof -
  obtain m now where m: "NewMqttMetricsExporter cfg hs = Inr m" "mqtt_steps H (mqtt_Run now m) s"
    using assms(1) by (auto simp: mqtt_reachable_def)
  have "telemetry_inv (sys_mqtt (mqtt_Run now m))"
    using m(1) assms(2) by (auto simp: telemetry_inv_def mqtt_Run_def NewMqttMetricsExporter_def split: if_splits)
  with mqtt_steps_telemetry [OF m(2) mqtt_Run_inv [OF m(1)] assms(3)] show ?thesis
    by (simp add: mqtt_Run_def)
qed

section \<open>Properties\<close>

text \<open>In every interleaving of the goroutines the exporter never dereferences a nil client:
  neither \<open>OnConnect\<close>, which uses the client of the current session, nor a forced reconnect can run
  before the client is stored.\<close>
theorem never_nil_client:
  assumes "mqtt_reachable H cfg hs s"
  shows "\<not> sys_crashed s"
  by (rule reachable_config(4) [OF assms])

text \<open>C15: Whatever messages arrive, the handlers only ever get updates of configured devices, under
  their configured names; the exporter subscribes only to them and caches the state of no other.\<close>
theorem only_configured_devices:
  assumes "mqtt_reachable H cfg hs s"
  shows "(\<forall>u. EffUpdate u \<in> set (sys_effects s) \<longrightarrow>
            fmlookup (mc_Devices cfg) (dev_SN (upd_device u)) = Some (dev_Name (upd_device u)))
    \<and> (\<forall>c sn. EffSubscribe c sn \<in> set (sys_effects s) \<longrightarrow> sn |\<in>| fmdom (mc_Devices cfg))
    \<and> fmdom (mq_deviceState (sys_mqtt s)) |\<subseteq>| fmdom (mc_Devices cfg)"
  using reachable_config [OF assms]
  by (auto simp: list_all_iff update_ok_def state_inv_def fmlookup_dom_iff)

text \<open>C19: The monitor considers a reconnect exactly when every configured device has been silent for
  longer than the offline threshold; comparing the two numbers, as the code does, is enough.\<close>
theorem reconnect_condition:
  assumes "mqtt_reachable H cfg hs s" and "range_order (mq_lastReceived (sys_mqtt s)) ks"
    and "mq_offlineThreshold (sys_mqtt s) < 2 ^ 63 - 1"
  shows "all_offline (offlineDevices (sys_now s) ks (sys_mqtt s)) (sys_mqtt s) \<longleftrightarrow>
    (\<forall>sn \<in> fset (fmdom (mc_Devices cfg)). \<exists>t. fmlookup (mq_lastReceived (sys_mqtt s)) sn = Some t
       \<and> sys_now s - t > mq_offlineThreshold (sys_mqtt s))"
  using all_offline_devices [OF _ _ assms(2,3), of "sys_now s"] reachable_config [OF assms(1)] by simp

text \<open>No delay grows without bound: in every run the delay between forced reconnects is at most
  ten minutes, the delay between logins follows the schedule of the retry loop, and there are never
  more than two fruitless reconnects without a new login.\<close>
theorem delays_bounded:
  assumes "mqtt_reachable H cfg hs s"
  shows "0 \<le> mq_reconnectDelay (sys_mqtt s) \<and> mq_reconnectDelay (sys_mqtt s) \<le> 10 * minute
    \<and> mq_fruitlessReconnects (sys_mqtt s) \<le> 2
    \<and> (\<forall>d t. sys_session s = SesLoginWait d t \<longrightarrow>
         (\<exists>k. d = backoff loginRetryDelay maxLoginDelay k) \<and> 5 * second \<le> d \<and> d \<le> 5 * minute)"
proof -
  have "login_delay d" if "sys_session s = SesLoginWait d t" for d t
    using reachable_config(5) [OF assms] that by simp
  then show ?thesis
    using reachable_config(3) [OF assms] login_delay_bounds
    by (auto simp: state_inv_def status_inv_def maxReconnectDelay_def reloginAfterReconnects_def
        maxLoginDelay_def loginRetryDelay_def login_delay_def)
qed

text \<open>C25: No call on the exporter's own metrics panics: in every run each call of \<open>WithLabelValues\<close> has as
  many values as its metric has labels, and all of them are valid UTF-8, when the serial numbers and
  the names of the configured devices are and no call was refused before the start. Serial numbers
  that come from a message never become a label unless they are configured.\<close>
theorem telemetry_labels_fit:
  assumes "mqtt_reachable H cfg hs s" and "telemetry_ok (mc_Telemetry cfg)" and "utf8_mapping (mc_Devices cfg)"
  shows "\<not> telemetry_panicked (mq_telemetry (sys_mqtt s)) \<and> list_all call_ok (calls (mq_telemetry (sys_mqtt s)))"
  using telemetry_reachable [OF assms] by (simp add: telemetry_inv_def telemetry_ok_def)

text \<open>C23: After cancellation there is no deadlock: from every state that can be reached, \<open>Run\<close>, the
  monitor and the ping routine can all come to their end.\<close>
theorem shutdown_possible:
  assumes "mqtt_reachable H cfg hs s" and "sys_cancelled s"
  shows "\<exists>t. mqtt_steps H s t \<and> sys_session t = SesDone \<and> sys_monitor t = MonDone \<and> sys_ping t = PingDone"
  by (rule everything_finishes [OF mqtt_reachable_inv [OF assms(1)] assms(2)])

text \<open>C24: The monitor can report a device as offline after that device has come back: there is a run
  in which the last update of a device is an offline one, although a message of it has just been
  delivered and the exporter no longer considers it offline. The list of the monitor is stale then.\<close>
theorem stale_offline_update:
  "\<exists>s before u v. mqtt_reachable idle_handler sample_mqtt_config [()] s
     \<and> sys_effects s = before @ [EffUpdate u, EffUpdate v]
     \<and> upd_device u = \<lparr>dev_SN = ''R1'', dev_Name = ''garage'', dev_Online = 1\<rparr>
     \<and> upd_device v = \<lparr>dev_SN = ''R1'', dev_Name = ''garage'', dev_Online = 0\<rparr>
     \<and> fmlookup (mq_lastReceived (sys_mqtt s)) ''R1'' = Some (sys_now s)
     \<and> fmlookup (mq_offlineSent (sys_mqtt s)) ''R1'' = None"
  using sample_race reachable_steps [OF reachable_steps [OF sample_connected_reachable sample_silent_steps]] by meson

section \<open>Witnesses\<close>

theorem never_nil_client_witness: "\<not> sys_crashed sample_silent"
  by (rule never_nil_client [OF sample_silent_reachable])

theorem only_configured_devices_witness:
  "(\<exists>c sn. EffSubscribe c sn \<in> set (sys_effects sample_silent) \<and> sn |\<in>| fmdom (mc_Devices sample_mqtt_config))"
proof -
  have "EffSubscribe 1 ''R1'' \<in> set (sys_effects sample_silent)"
    by (simp add: sample_silent_def sample_connected_def)
  with only_configured_devices [OF sample_silent_reachable] show ?thesis by blast
qed

theorem reconnect_condition_witness:
  "all_offline (offlineDevices (4 * minute) [''R1''] (sys_mqtt sample_silent)) (sys_mqtt sample_silent)"
proof -
  have "range_order (mq_lastReceived (sys_mqtt sample_silent)) [''R1'']"
    by (simp add: sample_silent_def sample_received range_order_R1)
  moreover have "mq_offlineThreshold (sys_mqtt sample_silent) = 2 * minute" "sys_now sample_silent = 4 * minute"
    "mq_lastReceived (sys_mqtt sample_silent) = fmupd ''R1'' minute fmempty"
    "fmdom (mc_Devices sample_mqtt_config) = {|''R1''|}"
    by (simp_all add: sample_silent_def sample_seen_def sample_status_def sample_mqtt_config_def)
  ultimately show ?thesis using reconnect_condition [OF sample_silent_reachable] by simp
qed

theorem delays_bounded_witness: "mq_reconnectDelay (sys_mqtt sample_silent) \<le> 10 * minute"
  using delays_bounded [OF sample_silent_reachable] by blast

text \<open>An exporter with metrics: its build information, the connection and the request for the device R1.\<close>

theorem telemetry_labels_fit_witness:
  "\<exists>s. mqtt_reachable idle_handler (sample_mqtt_config\<lparr>mc_Telemetry := NewTelemetry ''ecoflow'' ''dev''\<rparr>) [()] s
     \<and> calls (mq_telemetry (sys_mqtt s)) =
         [TSet BuildInfo [''dev''] (Fin 1), TSet MqttConnected [] (Fin 1),
          TInc MqttPings [''R1'', ''state_refresh'', ''success'']]
     \<and> \<not> telemetry_panicked (mq_telemetry (sys_mqtt s))"
proof -
  let ?cfg = "sample_mqtt_config\<lparr>mc_Telemetry := NewTelemetry ''ecoflow'' ''dev''\<rparr>"
  obtain m where m: "NewMqttMetricsExporter ?cfg [()] = Inr m"
    by (auto simp: NewMqttMetricsExporter_def sample_mqtt_config_def go_len_zero_iff)
  have "range_order (mc_Devices ?cfg) [''R1'']" by (simp add: sample_mqtt_config_def range_order_def)
  moreover have "mq_devices m = mc_Devices ?cfg" "mq_telemetry m = NewTelemetry ''ecoflow'' ''dev''"
    using m by (auto simp: NewMqttMetricsExporter_def split: if_splits)
  ultimately obtain s where s: "mqtt_steps idle_handler (mqtt_Run 0 m) s"
    "mq_telemetry (sys_mqtt s) = MqttPing ''R1'' ''state_refresh'' (None :: request_error option)
       (SetMqttConnected True (NewTelemetry ''ecoflow'' ''dev''))"
    using requesting_steps [of m "''R1''" "[]" idle_handler 0] by auto
  then have r: "mqtt_reachable idle_handler ?cfg [()] s" using m unfolding mqtt_reachable_def by blast
  have utf8: "valid_utf8 ''dev''" "valid_utf8 ''R1''" "valid_utf8 ''garage''" by (simp_all add: code_def)
  then have "telemetry_ok (mc_Telemetry ?cfg)" "utf8_mapping (mc_Devices ?cfg)"
    by (simp_all add: telemetry_ok_new sample_mqtt_config_def)
  note ok = telemetry_labels_fit [OF r this]
  have "valid_utf8 ''success''" by (simp add: code_def)
  with utf8 have "calls (mq_telemetry (sys_mqtt s)) =
         [TSet BuildInfo [''dev''] (Fin 1), TSet MqttConnected [] (Fin 1),
          TInc MqttPings [''R1'', ''state_refresh'', ''success'']]"
    by (simp add: s(2) telemetry_defs NewTelemetry_def calls_def record_call_def metric_labels_def result_def)
  with r ok show ?thesis by blast
qed

theorem shutdown_possible_witness:
  "\<exists>t. mqtt_steps idle_handler (sample_silent\<lparr>sys_cancelled := True\<rparr>) t \<and> sys_session t = SesDone
     \<and> sys_monitor t = MonDone \<and> sys_ping t = PingDone"
proof (rule shutdown_possible)
  have "mqtt_steps idle_handler sample_silent (sample_silent\<lparr>sys_cancelled := True\<rparr>)"
    by (rule step_other [OF cancel _ mqtt_steps.none]) (simp add: sample_silent_def sample_connected_def mqtt_Run_def)
  then show "mqtt_reachable idle_handler sample_mqtt_config [()] (sample_silent\<lparr>sys_cancelled := True\<rparr>)"
    by (rule reachable_steps [OF sample_silent_reachable])
qed simp

end
