(* ===== verification/Rest_Exporter.thy ===== *)
theory Rest_Exporter
  imports Telemetry
begin

text \<open>
  \<open>rest_exporter.go\<close>: polling the EcoFlow REST API. The client of the Ecoflow library is the
  environment: each call returns an error or a result, which the steps leave open. Of a
  \<open>DeviceInfo\<close> the code uses the serial number and the online flag.

  \<open>Run\<close> is a step relation. The updates that were dispatched and the answers to the requests for
  devices are kept in \<open>rs_updates\<close> and \<open>rs_answers\<close>, the last list of devices whose requests have all
  ended in \<open>rs_scrape\<close>; nothing the code does depends on these. The requests of one scrape run in parallel, so
  each device of the list has the state of its goroutine there: it waits in its \<open>select\<close>, its request runs,
  it has stored the update and is to release the semaphore, or it has returned. The semaphore is the
  buffered channel \<open>sem\<close>, of which only the number of elements matters: a send goes on when there is room in
  the buffer, a receive when there is an element. The order of
  the steps of different devices is open, as is the moment of cancellation. \<open>time.NewTicker\<close> panics
  for an interval that is not positive, which ends the program.
\<close>

section \<open>State\<close>

definition restRequestTimeout :: duration where "restRequestTimeout = 30 * second"
definition restConcurrency :: nat where "restConcurrency = 4"

record device_info =
  di_SN :: gostring
  di_Online :: int

record RestExporterConfig =
  rc_Interval :: duration
  rc_Devices :: "(gostring, gostring) fmap"
  rc_Telemetry :: telemetry_ptr

record 'h rest =
  re_interval :: duration
  re_handlers :: "'h list"
  re_mapping :: "(gostring, gostring) fmap"
  re_telemetry :: telemetry_ptr
  re_started :: time
  re_lastSuccess :: time

definition NewRestMetricsExporter :: "RestExporterConfig \<Rightarrow> 'h list \<Rightarrow> 'h rest" where
  "NewRestMetricsExporter cfg handlers =
     \<lparr>re_interval = rc_Interval cfg, re_handlers = handlers, re_mapping = rc_Devices cfg,
      re_telemetry = rc_Telemetry cfg, re_started = 0, re_lastSuccess = 0\<rparr>"

section \<open>Health\<close>

text \<open>The error carries the rounded time since the last success; the clock is read twice.\<close>

definition rest_Health :: "time \<Rightarrow> time \<Rightarrow> 'h rest \<Rightarrow> duration option" where
  "rest_Health now later e =
    (let last_time = (if re_lastSuccess e = 0 then re_started e else re_lastSuccess e);
         limit = max (wrap64 (3 * re_interval e)) (2 * minute)
     in if time_sub now last_time > limit then Some (duration_round (time_sub later last_time) second)
        else None)"

section \<open>Fetching a device\<close>

text \<open>The times are those of \<open>DeviceSeen\<close> and \<open>NewDeviceUpdate\<close>.\<close>

definition fetchDevice ::
  "time \<Rightarrow> time \<Rightarrow> (gostring + params) \<Rightarrow> device_info \<Rightarrow> 'h rest \<Rightarrow> device_update option \<times> 'h rest" where
  "fetchDevice seen_at made_at answer dev e =
    (let err = (case answer of Inl err \<Rightarrow> Some err | Inr _ \<Rightarrow> None);
         e = e\<lparr>re_telemetry := RestRequest ''device_quota'' err (re_telemetry e)\<rparr>;
         device = \<lparr>dev_SN = di_SN dev, dev_Name = getDeviceName (re_mapping e) (di_SN dev), dev_Online = di_Online dev\<rparr>
     in case answer of
          Inl _ \<Rightarrow>
            if di_Online dev \<noteq> 0 then (None, e) else (Some (NewDeviceUpdate made_at device fmempty), e)
        | Inr rawParameters \<Rightarrow>
            (Some (NewDeviceUpdate made_at device rawParameters),
             e\<lparr>re_telemetry := DeviceSeen seen_at device (re_telemetry e)\<rparr>))"

section \<open>Run and scrape\<close>

text \<open>A send to and a receive from a buffered channel with \<open>n\<close> elements: \<open>None\<close> while they block.\<close>

definition chan_send :: "nat \<Rightarrow> nat \<Rightarrow> nat option" where
  "chan_send capacity n = (if n < capacity then Some (n + 1) else None)"

definition chan_recv :: "nat \<Rightarrow> nat option" where
  "chan_recv n = (if n = 0 then None else Some (n - 1))"

text \<open>
  The goroutine of a device: before the \<open>select\<close>, in \<open>fetchDevice\<close>, before the deferred receive, after
  its end. The update is stored before the slot of the semaphore is released.
\<close>

datatype fetch =
    Waiting
  | Fetching
  | Ending "device_update option"
  | Fetched "device_update option"

datatype rest_pc =
    RestStart
  | RestScrape
  | RestFetch "(device_info \<times> fetch) list"
  | RestDeliver "device_update list"
  | RestWait
  | RestDone
  | RestPanicked

record 'h rest_system =
  rs_now :: time
  rs_cancelled :: bool
  rs_rest :: "'h rest"
  rs_pc :: rest_pc
  rs_ticker :: ticker
  rs_sem :: nat
  rs_updates :: "device_update list"
  rs_answers :: "(device_info \<times> params option) list"
  rs_scrape :: "(device_info \<times> fetch) list"

definition rest_Run :: "time \<Rightarrow> 'h rest \<Rightarrow> 'h rest_system" where
  "rest_Run now e =
     \<lparr>rs_now = now, rs_cancelled = False, rs_rest = e, rs_pc = RestStart,
      rs_ticker = NewTicker now (re_interval e), rs_sem = 0, rs_updates = [], rs_answers = [], rs_scrape = []\<rparr>"

definition running :: "(device_info \<times> fetch) list \<Rightarrow> nat" where
  "running fs = length (filter (\<lambda>(d, f). f = Fetching) fs)"

text \<open>The goroutines that have a slot of the semaphore.\<close>

fun holds_slot :: "fetch \<Rightarrow> bool" where
  "holds_slot Fetching = True"
| "holds_slot (Ending u) = True"
| "holds_slot _ = False"

definition holding :: "(device_info \<times> fetch) list \<Rightarrow> nat" where
  "holding fs = length (filter (\<lambda>(d, f). holds_slot f) fs)"

definition finished :: "(device_info \<times> fetch) list \<Rightarrow> bool" where
  "finished fs \<longleftrightarrow> list_all (\<lambda>(d, f). case f of Fetched u \<Rightarrow> True | _ \<Rightarrow> False) fs"

text \<open>The updates in the order of the device list, without the devices that have none.\<close>

definition fetched_updates :: "(device_info \<times> fetch) list \<Rightarrow> device_update list" where
  "fetched_updates fs = List.map_filter (\<lambda>(d, f). case f of Fetched u \<Rightarrow> u | _ \<Rightarrow> None) fs"

definition call_rest_handlers ::
  "('e, 'h) handler \<Rightarrow> (nat \<Rightarrow> 'e) \<Rightarrow> device_update \<Rightarrow> 'h rest \<Rightarrow> gostring list \<times> 'h rest" where
  "call_rest_handlers H envs u e =
    (case dispatch H (zip (map envs [0..<length (re_handlers e)]) (re_handlers e)) u of
       (hs, u', errs) \<Rightarrow> (errs, e\<lparr>re_handlers := hs\<rparr>))"

inductive rest_step :: "('e, 'h) handler \<Rightarrow> 'h rest_system \<Rightarrow> 'h rest_system \<Rightarrow> bool" for H where
  time_passes:
    "rs_now s \<le> now \<Longrightarrow> rest_step H s (s\<lparr>rs_now := now\<rparr>)"
| cancel:
    "rest_step H s (s\<lparr>rs_cancelled := True\<rparr>)"
| ticker_fires:
    "rs_pc s \<noteq> RestStart \<Longrightarrow> rs_pc s \<noteq> RestPanicked \<Longrightarrow> tk_next (rs_ticker s) \<le> rs_now s \<Longrightarrow>
     rest_step H s (s\<lparr>rs_ticker := ticker_fire (rs_ticker s)\<rparr>)"
| start:
    "rs_pc s = RestStart \<Longrightarrow> 0 < re_interval (rs_rest s) \<Longrightarrow>
     rest_step H s
       (s\<lparr>rs_rest := (rs_rest s)\<lparr>re_started := rs_now s\<rparr>, rs_pc := RestScrape,
          rs_ticker := NewTicker (rs_now s) (re_interval (rs_rest s))\<rparr>)"
| start_panics:
    "rs_pc s = RestStart \<Longrightarrow> re_interval (rs_rest s) \<le> 0 \<Longrightarrow>
     rest_step H s (s\<lparr>rs_rest := (rs_rest s)\<lparr>re_started := rs_now s\<rparr>, rs_pc := RestPanicked\<rparr>)"
| list_failed:
    "rs_pc s = RestScrape \<Longrightarrow>
     rest_step H s
       (s\<lparr>rs_rest := (rs_rest s)\<lparr>re_telemetry := RestRequest ''device_list'' (Some (err :: gostring)) (re_telemetry (rs_rest s))\<rparr>,
          rs_pc := RestWait\<rparr>)"
| list_ok:
    "rs_pc s = RestScrape \<Longrightarrow>
     rest_step H s
       (s\<lparr>rs_rest := (rs_rest s)
            \<lparr>re_telemetry := RestRequest ''device_list'' (None :: gostring option) (re_telemetry (rs_rest s)),
             re_lastSuccess := rs_now s\<rparr>,
          rs_sem := 0, rs_pc := RestFetch (map (\<lambda>d. (d, Waiting)) devices)\<rparr>)"
| fetch_starts:
    "rs_pc s = RestFetch (before @ (d, Waiting) # after) \<Longrightarrow>
     chan_send restConcurrency (rs_sem s) = Some n \<Longrightarrow>
     rest_step H s (s\<lparr>rs_pc := RestFetch (before @ (d, Fetching) # after), rs_sem := n\<rparr>)"
| fetch_cancelled:
    "rs_pc s = RestFetch (before @ (d, Waiting) # after) \<Longrightarrow> rs_cancelled s \<Longrightarrow>
     rest_step H s (s\<lparr>rs_pc := RestFetch (before @ (d, Fetched None) # after)\<rparr>)"
| fetch_ends:
    "rs_pc s = RestFetch (before @ (d, Fetching) # after) \<Longrightarrow>
     fetchDevice (rs_now s) (rs_now s) answer d (rs_rest s) = (u, e) \<Longrightarrow>
     rest_step H s
       (s\<lparr>rs_rest := e, rs_pc := RestFetch (before @ (d, Ending u) # after),
          rs_answers := rs_answers s @ [(d, case answer of Inl err \<Rightarrow> None | Inr ps \<Rightarrow> Some ps)]\<rparr>)"
| slot_released:
    "rs_pc s = RestFetch (before @ (d, Ending u) # after) \<Longrightarrow> chan_recv (rs_sem s) = Some n \<Longrightarrow>
     rest_step H s (s\<lparr>rs_pc := RestFetch (before @ (d, Fetched u) # after), rs_sem := n\<rparr>)"
| all_fetched:
    "rs_pc s = RestFetch fs \<Longrightarrow> finished fs \<Longrightarrow>
     rest_step H s (s\<lparr>rs_pc := RestDeliver (fetched_updates fs), rs_scrape := fs\<rparr>)"
| deliver:
    "rs_pc s = RestDeliver (u # us) \<Longrightarrow> \<not> rs_cancelled s \<Longrightarrow>
     call_rest_handlers H envs u (rs_rest s) = (errs, e) \<Longrightarrow>
     rest_step H s (s\<lparr>rs_rest := e, rs_pc := RestDeliver us, rs_updates := rs_updates s @ [u]\<rparr>)"
| not_delivered:
    "rs_pc s = RestDeliver (u # us) \<Longrightarrow> rs_cancelled s \<Longrightarrow>
     rest_step H s (s\<lparr>rs_pc := RestDeliver us\<rparr>)"
| delivered:
    "rs_pc s = RestDeliver [] \<Longrightarrow> rest_step H s (s\<lparr>rs_pc := RestWait\<rparr>)"
| wait_cancelled:
    "rs_pc s = RestWait \<Longrightarrow> rs_cancelled s \<Longrightarrow> rest_step H s (s\<lparr>rs_pc := RestDone\<rparr>)"
| wait_over:
    "rs_pc s = RestWait \<Longrightarrow> tk_pending (rs_ticker s) \<Longrightarrow>
     rest_step H s (s\<lparr>rs_pc := RestScrape, rs_ticker := ticker_take (rs_ticker s)\<rparr>)"

inductive rest_steps :: "('e, 'h) handler \<Rightarrow> 'h rest_system \<Rightarrow> 'h rest_system \<Rightarrow> bool" for H where
  none: "rest_steps H s s"
| more: "rest_steps H s s' \<Longrightarrow> rest_step H s' s'' \<Longrightarrow> rest_steps H s s''"

definition rest_reachable :: "('e, 'h) handler \<Rightarrow> RestExporterConfig \<Rightarrow> 'h list \<Rightarrow> 'h rest_system \<Rightarrow> bool" where
  "rest_reachable H cfg hs s \<longleftrightarrow> (\<exists>now. rest_steps H (rest_Run now (NewRestMetricsExporter cfg hs)) s)"

section \<open>Invariant\<close>

text \<open>The device as the API describes it, under its configured name.\<close>

definition listed_device :: "(gostring, gostring) fmap \<Rightarrow> device_info \<Rightarrow> ecoflow_device" where
  "listed_device mapping d = \<lparr>dev_SN = di_SN d, dev_Name = getDeviceName mapping (di_SN d), dev_Online = di_Online d\<rparr>"

definition named_update :: "(gostring, gostring) fmap \<Rightarrow> device_update \<Rightarrow> bool" where
  "named_update mapping u \<longleftrightarrow> (\<exists>d. upd_device u = listed_device mapping d) \<and> upd_samples u = fmempty"

text \<open>
  What is fetched belongs to its device; only a device that is online, or any device after
  cancellation, can be without an update.
\<close>

fun fetch_ok :: "(gostring, gostring) fmap \<Rightarrow> bool \<Rightarrow> device_info \<times> fetch \<Rightarrow> bool" where
  "fetch_ok mapping cancelled (d, Fetched (Some u)) =
     (upd_device u = listed_device mapping d \<and> upd_samples u = fmempty)"
| "fetch_ok mapping cancelled (d, Fetched None) = (cancelled \<or> di_Online d \<noteq> 0)"
| "fetch_ok mapping cancelled (d, Ending (Some u)) =
     (upd_device u = listed_device mapping d \<and> upd_samples u = fmempty)"
| "fetch_ok mapping cancelled (d, Ending None) = (cancelled \<or> di_Online d \<noteq> 0)"
| "fetch_ok mapping cancelled (d, _) = True"

fun pc_ok :: "RestExporterConfig \<Rightarrow> bool \<Rightarrow> rest_pc \<Rightarrow> bool" where
  "pc_ok cfg cancelled (RestFetch fs) =
     list_all (fetch_ok (rc_Devices cfg) cancelled) fs"
| "pc_ok cfg cancelled (RestDeliver us) = list_all (named_update (rc_Devices cfg)) us"
| "pc_ok cfg cancelled RestPanicked = (rc_Interval cfg \<le> 0)"
| "pc_ok cfg cancelled _ = True"

text \<open>The elements of the channel are the slots that goroutines hold; there are never too many.\<close>

fun sem_ok :: "nat \<Rightarrow> rest_pc \<Rightarrow> bool" where
  "sem_ok n (RestFetch fs) = (n = holding fs \<and> n \<le> restConcurrency)"
| "sem_ok n _ = True"

text \<open>
  The calls on the metrics of the exporter fit when the serial numbers of the answers and the names of
  the configuration are valid UTF-8.
\<close>

definition rest_inv :: "RestExporterConfig \<Rightarrow> 'h rest_system \<Rightarrow> bool" where
  "rest_inv cfg s \<longleftrightarrow>
     re_mapping (rs_rest s) = rc_Devices cfg \<and> re_interval (rs_rest s) = rc_Interval cfg
     \<and> list_all (named_update (rc_Devices cfg)) (rs_updates s)
     \<and> pc_ok cfg (rs_cancelled s) (rs_pc s) \<and> sem_ok (rs_sem s) (rs_pc s)
     \<and> (telemetry_ok (rc_Telemetry cfg) \<and> utf8_mapping (rc_Devices cfg)
          \<and> list_all (valid_utf8 \<circ> di_SN \<circ> fst) (rs_answers s) \<longrightarrow> telemetry_ok (re_telemetry (rs_rest s)))"

lemma fetch_ok_cancelled: "fetch_ok mapping c f \<Longrightarrow> fetch_ok mapping True f"
  by (cases f; cases "snd f") (auto elim: fetch_ok.elims)

lemma pc_ok_cancelled: "pc_ok cfg c pc \<Longrightarrow> pc_ok cfg True pc"
  by (cases pc) (auto simp: list_all_iff intro: fetch_ok_cancelled)

lemma fetchDevice_update:
  assumes "fetchDevice seen_at made_at answer d e = (u, e')"
  shows "fetch_ok (re_mapping e) c (d, Ending u)" "re_mapping e' = re_mapping e" "re_interval e' = re_interval e"
    "re_handlers e' = re_handlers e"
    "telemetry_ok (re_telemetry e) \<Longrightarrow> utf8_mapping (re_mapping e) \<Longrightarrow> valid_utf8 (di_SN d) \<Longrightarrow>
       telemetry_ok (re_telemetry e')"
    "re_started e' = re_started e" "re_lastSuccess e' = re_lastSuccess e"
  using assms
  by (auto simp: fetchDevice_def Let_def listed_device_def NewDeviceUpdate_def utf8_mapping_name
      split: sum.splits if_splits)

lemma fetched_updates_named:
  "list_all (fetch_ok mapping c) fs \<Longrightarrow> list_all (named_update mapping) (fetched_updates fs)"
proof (induction fs)
  case (Cons x fs)
  obtain d f where x: "x = (d, f)" by (cases x)
  show ?case
  proof (cases f)
    case (Fetched u)
    with Cons x show ?thesis
      by (cases u) (auto simp: fetched_updates_def List.map_filter_simps named_update_def)
  qed (use Cons x in \<open>auto simp: fetched_updates_def List.map_filter_simps\<close>)
qed (simp add: fetched_updates_def List.map_filter_simps)

lemma call_rest_handlers_frame:
  "call_rest_handlers H envs u e = (errs, e') \<Longrightarrow> \<exists>hs. e' = e\<lparr>re_handlers := hs\<rparr>"
  by (auto simp: call_rest_handlers_def split: prod.splits)

lemma running_simps [simp]:
  "running [] = 0" "running (xs @ ys) = running xs + running ys"
  "running ((d, f) # fs) = (if f = Fetching then Suc (running fs) else running fs)"
  by (simp_all add: running_def)

lemma holding_simps [simp]:
  "holding [] = 0" "holding (xs @ ys) = holding xs + holding ys"
  "holding ((d, f) # fs) = (if holds_slot f then Suc (holding fs) else holding fs)"
  by (simp_all add: holding_def)

lemma running_holding: "running fs \<le> holding fs"
  by (induction fs) auto

lemma none_holding [simp]: "holding (map (\<lambda>d. (d, Waiting)) devices) = 0"
  by (induction devices) auto

text \<open>A send never exceeds the capacity, and what has been sent can be received.\<close>

lemma chan_sendD: "chan_send capacity n = Some n' \<Longrightarrow> n' = n + 1 \<and> n' \<le> capacity"
  by (auto simp: chan_send_def split: if_splits)

lemma chan_recvD: "chan_recv n = Some n' \<Longrightarrow> n = n' + 1"
  by (auto simp: chan_recv_def split: if_splits)

lemma chan_recv_Suc [simp]: "chan_recv (Suc n) = Some n"
  by (simp add: chan_recv_def)

lemma rest_step_inv:
  assumes "rest_step H s s'" and "rest_inv cfg s"
  shows "rest_inv cfg s'"
  using assms
proof (induction rule: rest_step.induct)
  case (cancel s)
  then show ?case by (auto simp: rest_inv_def intro: pc_ok_cancelled)
next
  case (list_ok s devices)
  then show ?case by (auto simp: rest_inv_def list_all_iff)
next
  case (fetch_starts s before d after n)
  then show ?case by (auto simp: rest_inv_def dest!: chan_sendD)
next
  case (slot_released s before d u after n)
  then show ?case by (cases u) (auto simp: rest_inv_def dest!: chan_recvD)
next
  case (fetch_ends s before d after answer u e)
  note f = fetchDevice_update [OF fetch_ends(2)]
  show ?case using fetch_ends(1,3) f(1) [of "rs_cancelled s"] f(2-5)
    by (auto simp: rest_inv_def)
next
  case (all_fetched s fs)
  then show ?case using fetched_updates_named by (auto simp: rest_inv_def)
next
  case (deliver s u us envs errs e)
  then show ?case by (auto simp: rest_inv_def dest!: call_rest_handlers_frame)
qed (auto simp: rest_inv_def)

lemma rest_Run_inv: "rest_inv cfg (rest_Run now (NewRestMetricsExporter cfg hs))"
  by (simp add: rest_inv_def rest_Run_def NewRestMetricsExporter_def)

lemma rest_reachable_inv:
  assumes "rest_reachable H cfg hs s"
  shows "rest_inv cfg s"
proof -
  obtain now where "rest_steps H (rest_Run now (NewRestMetricsExporter cfg hs)) s"
    using assms by (auto simp: rest_reachable_def)
  moreover note rest_Run_inv [of cfg now hs]
  ultimately show ?thesis by (induction rule: rest_steps.induct) (auto intro: rest_step_inv)
qed

text \<open>What a dispatch of a new update keeps holds for the handlers in every run.\<close>

lemma named_update_new:
  "named_update mapping u \<Longrightarrow> \<exists>now device params. u = NewDeviceUpdate now device params"
  unfolding NewDeviceUpdate_def named_update_def by (metis device_update.surjective old.unit.exhaust)

context handler_list
begin

lemma rest_step_good:
  assumes "rest_step handle s s'" and "rest_inv cfg s" and "good (re_handlers (rs_rest s))"
  shows "good (re_handlers (rs_rest s'))"
  using assms
proof (induction rule: rest_step.induct)
  case (fetch_ends s before d after answer u e)
  then show ?case using fetchDevice_update(4) [OF fetch_ends(2)] by simp
next
  case (deliver s u us envs errs e)
  then obtain now device params where u: "u = NewDeviceUpdate now device params"
    using named_update_new by (fastforce simp: rest_inv_def)
  let ?hs = "zip (map envs [0..<length (re_handlers (rs_rest s))]) (re_handlers (rs_rest s))"
  obtain hs' u' es where d: "dispatch handle ?hs (NewDeviceUpdate now device params) = (hs', u', es)" by (metis surj_pair)
  from dispatch_good [OF deliver(5) d] deliver(3) d show ?case by (auto simp: call_rest_handlers_def u)
qed simp_all

lemma rest_reachable_good:
  assumes "rest_reachable handle cfg hs s" and "good hs"
  shows "good (re_handlers (rs_rest s))"
proof -
  obtain now where now: "rest_steps handle (rest_Run now (NewRestMetricsExporter cfg hs)) s"
    using assms(1) by (auto simp: rest_reachable_def)
  have "rest_steps handle s0 s \<Longrightarrow> rest_inv cfg s0 \<Longrightarrow> good (re_handlers (rs_rest s0)) \<Longrightarrow>
      rest_inv cfg s \<and> good (re_handlers (rs_rest s))" for s0
    by (induction rule: rest_steps.induct) (auto intro: rest_step_inv rest_step_good)
  from this [OF now rest_Run_inv] assms(2) show ?thesis by (simp add: rest_Run_def NewRestMetricsExporter_def)
qed

end

section \<open>The end of Run\<close>

lemma rest_steps_trans: "rest_step H s t \<Longrightarrow> rest_steps H t u \<Longrightarrow> rest_steps H s u"
  by (rotate_tac, induction rule: rest_steps.induct) (auto intro: rest_steps.intros)

text \<open>
  Once cancelled, every request of a scrape comes to its end: those that wait for the semaphore give
  up, those that run fail at the latest; nothing is delivered any more and \<open>Run\<close> returns.
\<close>

lemma finished_or_next:
  "finished fs \<or> (\<exists>before d f after. fs = before @ (d, f) # after
     \<and> (f = Waiting \<or> f = Fetching \<or> (\<exists>u. f = Ending u)) \<and> finished before)"
proof (induction fs)
  case (Cons x fs)
  obtain d f where x: "x = (d, f)" by (cases x)
  show ?case
  proof (cases f)
    case (Fetched u)
    have "finished (x # ys) = finished ys" for ys by (simp add: finished_def x Fetched)
    then show ?thesis using Cons by (metis append_Cons)
  qed (auto simp: x finished_def intro!: exI [of _ "[]"])
qed (simp add: finished_def)

text \<open>What is left to be done for a device, in steps.\<close>

fun steps_left :: "fetch \<Rightarrow> nat" where
  "steps_left (Fetched u) = 0"
| "steps_left (Ending u) = 1"
| "steps_left _ = 2"

definition unfinished :: "(device_info \<times> fetch) list \<Rightarrow> nat" where
  "unfinished fs = sum_list (map (\<lambda>(d, f). steps_left f) fs)"

lemma rest_can_finish:
  assumes "rs_cancelled s" and "0 < re_interval (rs_rest s)" and "rs_pc s \<noteq> RestPanicked"
    and "sem_ok (rs_sem s) (rs_pc s)"
  shows "\<exists>t. rest_steps H s t \<and> rs_pc t = RestDone"
proof -
  let ?fin = "\<lambda>s. \<exists>t. rest_steps H s t \<and> rs_pc t = RestDone"
  have step: "?fin s" if "rest_step H s t" "?fin t" for s t using that rest_steps_trans by blast
  have ended: "?fin s" if "rs_pc s = RestDone" for s using that rest_steps.none by blast
  have wait: "?fin s" if "rs_pc s = RestWait" "rs_cancelled s" for s
    by (rule step [OF wait_cancelled [OF that]]) (simp add: ended)
  have deliver: "?fin s" if "rs_pc s = RestDeliver us" "rs_cancelled s" for us s
    using that
  proof (induction us arbitrary: s)
    case Nil
    show ?case by (rule step [OF delivered [OF Nil(1)]]) (simp add: wait Nil(2))
  next
    case (Cons u us)
    show ?case by (rule step [OF not_delivered [OF Cons.prems]]) (simp add: Cons.IH Cons.prems(2))
  qed
  have fetch: "?fin s" if "rs_pc s = RestFetch fs" "rs_cancelled s" "rs_sem s = holding fs" for fs s
    using that
  proof (induction fs arbitrary: s rule: measure_induct_rule [of unfinished])
    case (less fs)
    consider "finished fs" | before d f after where "fs = before @ (d, f) # after"
        "f = Waiting \<or> f = Fetching \<or> (\<exists>u. f = Ending u)"
      using finished_or_next by blast
    then show ?case
    proof cases
      case 1
      show ?thesis by (rule step [OF all_fetched [OF less.prems(1) 1]]) (simp add: deliver less.prems(2))
    next
      case 2
      have fewer: "unfinished (before @ (d, f') # after) < unfinished fs" if "steps_left f' < steps_left f" for f'
        using 2 that by (simp add: unfinished_def)
      from 2 consider "f = Waiting" | "f = Fetching" | u where "f = Ending u" by blast
      then show ?thesis
      proof cases
        case 1
        with 2 less.prems have "rs_pc s = RestFetch (before @ (d, Waiting) # after)" by simp
        from fetch_cancelled [OF this less.prems(2)] show ?thesis
          by (rule step) (rule less.IH [OF fewer [of "Fetched None"]], use 1 2 less.prems in simp_all)
      next
        case fetching: 2
        with 2 less.prems have pc: "rs_pc s = RestFetch (before @ (d, Fetching) # after)" by simp
        obtain u e where u: "fetchDevice (rs_now s) (rs_now s) (Inl []) d (rs_rest s) = (u, e)" by (metis surj_pair)
        from fetch_ends [OF pc u] show ?thesis
          by (rule step) (rule less.IH [OF fewer [of "Ending u"]], use fetching 2 less.prems in simp_all)
      next
        case (3 u)
        with 2 less.prems have pc: "rs_pc s = RestFetch (before @ (d, Ending u) # after)" by simp
        have "chan_recv (rs_sem s) = Some (holding (before @ (d, Fetched u) # after))"
          using 2 3 less.prems(3) by simp
        from slot_released [OF pc this] show ?thesis
          by (rule step) (rule less.IH [OF fewer [of "Fetched u"]], use 3 2 less.prems in simp_all)
      qed
    qed
  qed
  have scrape: "?fin s" if "rs_pc s = RestScrape" "rs_cancelled s" for s
    by (rule step [OF list_failed [OF that(1)]]) (simp add: wait that(2))
  show ?thesis
  proof (cases "rs_pc s")
    case RestStart
    show ?thesis by (rule step [OF start [OF RestStart assms(2)]]) (simp add: scrape assms(1))
  qed (use assms in \<open>simp_all add: ended wait deliver fetch scrape\<close>)
qed

section \<open>Properties\<close>

lemma fetched_devices:
  assumes "finished fs" and "list_all (fetch_ok mapping c) fs"
  shows "map upd_device (fetched_updates fs) =
    map (listed_device mapping \<circ> fst) (filter (\<lambda>(d, f). f \<noteq> Fetched None) fs)"
  using assms
proof (induction fs)
  case (Cons x fs)
  obtain d f where x: "x = (d, f)" by (cases x)
  from Cons.prems x obtain u where f: "f = Fetched u" by (cases f) (auto simp: finished_def)
  with Cons x show ?case by (cases u) (auto simp: fetched_updates_def List.map_filter_simps finished_def)
qed (simp add: fetched_updates_def List.map_filter_simps)

text \<open>C31: Never more than four device requests run at the same time, in any interleaving of the
  requests of a scrape: the channel has exactly one element for each goroutine between its send and its
  receive, and a request runs only there. While fewer than four do so, a device that waits can start.\<close>
theorem rest_concurrency_limit:
  assumes "rest_reachable H cfg hs s" and "rs_pc s = RestFetch fs"
  shows "running fs \<le> 4 \<and> rs_sem s = length (filter (\<lambda>(d, f). holds_slot f) fs)
    \<and> (rs_sem s < 4 \<longrightarrow> (\<forall>before d after. fs = before @ (d, Waiting) # after \<longrightarrow>
         (\<exists>t. rest_step H s t \<and> rs_pc t = RestFetch (before @ (d, Fetching) # after))))"
proof -
  have sem: "rs_sem s = holding fs" "rs_sem s \<le> 4"
    using rest_reachable_inv [OF assms(1)] assms(2) by (auto simp: rest_inv_def restConcurrency_def)
  have "\<exists>t. rest_step H s t \<and> rs_pc t = RestFetch (before @ (d, Fetching) # after)"
    if "rs_sem s < 4" "fs = before @ (d, Waiting) # after" for before d after
  proof -
    have "chan_send restConcurrency (rs_sem s) = Some (rs_sem s + 1)"
      using that(1) by (simp add: chan_send_def restConcurrency_def)
    from fetch_starts [OF assms(2) [unfolded that(2)] this, of H] show ?thesis by (intro exI conjI) (assumption, simp)
  qed
  with sem running_holding [of fs] show ?thesis by (auto simp: holding_def)
qed

text \<open>When all requests of a scrape have ended, whatever their order, the updates are those of the
  devices that have one, in the order of the device list, each with the serial number, the online
  flag and the configured name of its device. Without cancellation a device is left out only when
  it is online: an offline device is reported even if its parameters cannot be fetched.\<close>
theorem scrape_updates_match_devices:
  assumes "rest_reachable H cfg hs s" and "rs_pc s = RestFetch fs" and "finished fs"
  shows "map upd_device (fetched_updates fs) =
      map (listed_device (rc_Devices cfg) \<circ> fst) (filter (\<lambda>(d, f). f \<noteq> Fetched None) fs)
    \<and> (\<forall>d. (d, Fetched None) \<in> set fs \<longrightarrow> rs_cancelled s \<or> di_Online d \<noteq> 0)"
proof -
  have ok: "list_all (fetch_ok (rc_Devices cfg) (rs_cancelled s)) fs"
    using rest_reachable_inv [OF assms(1)] assms(2) by (simp add: rest_inv_def)
  then show ?thesis using fetched_devices [OF assms(3) ok] by (force simp: list_all_iff)
qed

text \<open>The exporter is healthy exactly as long as its last successful request of the device list,
  or the start while there was none, is at most three intervals old, and at most two minutes for
  short intervals, as long as three intervals fit into a duration.\<close>
theorem rest_health_limit:
  assumes "0 \<le> re_interval e" and "3 * re_interval e < 2 ^ 63 - 1"
  shows "rest_Health now later e = None \<longleftrightarrow>
    now - (if re_lastSuccess e = 0 then re_started e else re_lastSuccess e) \<le> max (3 * re_interval e) (2 * minute)"
proof -
  have w: "wrap64 (3 * re_interval e) = 3 * re_interval e" using assms by (intro wrap64_small) auto
  show ?thesis
    unfolding rest_Health_def Let_def w using assms
    by (simp add: time_sub_gt_iff not_less del: max_less_iff_conj max.bounded_iff)
qed

text \<open>\<open>Run\<close> ends the program with a panic exactly when the interval is not positive.\<close>

lemma rest_panics:
  "(\<exists>s. rest_reachable H cfg hs s \<and> rs_pc s = RestPanicked) \<longleftrightarrow> rc_Interval cfg \<le> 0"
proof
  assume "\<exists>s. rest_reachable H cfg hs s \<and> rs_pc s = RestPanicked"
  then obtain s where s: "rest_reachable H cfg hs s" "rs_pc s = RestPanicked" by blast
  from rest_reachable_inv [OF s(1)] s(2) show "rc_Interval cfg \<le> 0" by (simp add: rest_inv_def)
next
  assume i: "rc_Interval cfg \<le> 0"
  let ?s = "rest_Run 0 (NewRestMetricsExporter cfg hs)"
  have "rest_step H ?s (?s\<lparr>rs_rest := (rs_rest ?s)\<lparr>re_started := rs_now ?s\<rparr>, rs_pc := RestPanicked\<rparr>)"
    by (rule start_panics) (use i in \<open>simp_all add: rest_Run_def NewRestMetricsExporter_def\<close>)
  then show "\<exists>s. rest_reachable H cfg hs s \<and> rs_pc s = RestPanicked"
    unfolding rest_reachable_def by (fastforce intro: rest_steps.intros)
qed

section \<open>Witnesses\<close>

text \<open>A scrape of two devices, one online and one offline, both of whose requests fail.\<close>

definition sample_rest_config :: RestExporterConfig where
  "sample_rest_config = \<lparr>rc_Interval = 30 * second, rc_Devices = fmupd ''R2'' ''roof'' fmempty, rc_Telemetry = None\<rparr>"

definition sample_rest_handler :: "(unit, unit) handler" where
  "sample_rest_handler e h u = (HandleOk, h, u)"

definition sample_scraped :: "unit rest_system" where
  "sample_scraped = (rest_Run minute (NewRestMetricsExporter sample_rest_config [()]))
     \<lparr>rs_rest := (NewRestMetricsExporter sample_rest_config [()])\<lparr>re_started := minute, re_lastSuccess := minute\<rparr>,
      rs_pc := RestFetch [(\<lparr>di_SN = ''R1'', di_Online = 1\<rparr>, Fetched None),
        (\<lparr>di_SN = ''R2'', di_Online = 0\<rparr>,
         Fetched (Some (NewDeviceUpdate minute \<lparr>dev_SN = ''R2'', dev_Name = ''roof'', dev_Online = 0\<rparr> fmempty)))],
      rs_answers := [(\<lparr>di_SN = ''R1'', di_Online = 1\<rparr>, None), (\<lparr>di_SN = ''R2'', di_Online = 0\<rparr>, None)]\<rparr>"

lemma sample_scraped_reachable: "rest_reachable sample_rest_handler sample_rest_config [()] sample_scraped"
proof -
  let ?a = "\<lparr>di_SN = ''R1'', di_Online = 1\<rparr>" and ?b = "\<lparr>di_SN = ''R2'', di_Online = 0\<rparr>"
  let ?e = "NewRestMetricsExporter sample_rest_config [()]"
  let ?s0 = "rest_Run minute ?e"
  let ?s1 = "?s0\<lparr>rs_rest := ?e\<lparr>re_started := minute\<rparr>, rs_pc := RestScrape\<rparr>"
  let ?s2 = "?s1\<lparr>rs_rest := ?e\<lparr>re_started := minute, re_lastSuccess := minute\<rparr>, rs_pc := RestFetch [(?a, Waiting), (?b, Waiting)]\<rparr>"
  let ?u = "Some (NewDeviceUpdate minute \<lparr>dev_SN = ''R2'', dev_Name = ''roof'', dev_Online = 0\<rparr> fmempty)"
  let ?s3 = "?s2\<lparr>rs_pc := RestFetch [(?a, Waiting), (?b, Fetching)], rs_sem := 1\<rparr>"
  let ?s4 = "?s3\<lparr>rs_pc := RestFetch [(?a, Fetching), (?b, Fetching)], rs_sem := 2\<rparr>"
  let ?s5 = "?s4\<lparr>rs_pc := RestFetch [(?a, Ending None), (?b, Fetching)], rs_answers := [(?a, None)]\<rparr>"
  let ?s6 = "?s5\<lparr>rs_pc := RestFetch [(?a, Ending None), (?b, Ending ?u)], rs_answers := [(?a, None), (?b, None)]\<rparr>"
  let ?s7 = "?s6\<lparr>rs_pc := RestFetch [(?a, Fetched None), (?b, Ending ?u)], rs_sem := 1\<rparr>"
  have e: "re_interval ?e = 30 * second" "re_telemetry ?e = None" "re_mapping ?e = fmupd ''R2'' ''roof'' fmempty"
    by (simp_all add: NewRestMetricsExporter_def sample_rest_config_def)
  have 1: "rest_step sample_rest_handler ?s0 ?s1"
    using start [of ?s0 sample_rest_handler] e by (simp add: rest_Run_def NewTicker_def)
  have 2: "rest_step sample_rest_handler ?s1 ?s2"
    using list_ok [of ?s1 sample_rest_handler "[?a, ?b]"] e
    by (simp add: rest_Run_def RestRequest_def NewRestMetricsExporter_def)
  have 3: "rest_step sample_rest_handler ?s2 ?s3"
    using fetch_starts [of ?s2 "[(?a, Waiting)]" ?b "[]" 1 sample_rest_handler]
    by (simp add: restConcurrency_def chan_send_def rest_Run_def)
  have 4: "rest_step sample_rest_handler ?s3 ?s4"
    using fetch_starts [of ?s3 "[]" ?a "[(?b, Fetching)]" 2 sample_rest_handler] by (simp add: restConcurrency_def chan_send_def)
  have 5: "rest_step sample_rest_handler ?s4 ?s5"
    using fetch_ends [of ?s4 "[]" ?a "[(?b, Fetching)]" "Inl ''timeout''" None "rs_rest ?s4" sample_rest_handler] e
    by (simp add: fetchDevice_def RestRequest_def NewRestMetricsExporter_def rest_Run_def)
  have 6: "rest_step sample_rest_handler ?s5 ?s6"
    using fetch_ends [of ?s5 "[(?a, Ending None)]" ?b "[]" "Inl ''timeout''" ?u "rs_rest ?s5" sample_rest_handler] e
    by (simp add: fetchDevice_def RestRequest_def NewRestMetricsExporter_def getDeviceName_def rest_Run_def)
  have 7: "rest_step sample_rest_handler ?s6 ?s7"
    using slot_released [of ?s6 "[]" ?a None "[(?b, Ending ?u)]" 1 sample_rest_handler] by (simp add: chan_recv_def)
  have 8: "rest_step sample_rest_handler ?s7 sample_scraped"
    using slot_released [of ?s7 "[(?a, Fetched None)]" ?b ?u "[]" 0 sample_rest_handler]
    by (simp add: chan_recv_def sample_scraped_def rest_Run_def)
  show ?thesis
    unfolding rest_reachable_def
    by (rule exI, rule rest_steps_trans [OF 1 rest_steps_trans [OF 2 rest_steps_trans [OF 3 rest_steps_trans [OF 4
          rest_steps_trans [OF 5 rest_steps_trans [OF 6 rest_steps_trans [OF 7 rest_steps_trans [OF 8 rest_steps.none]]]]]]]])
qed

lemma sample_scraped_pc:
  "rs_pc sample_scraped = RestFetch [(\<lparr>di_SN = ''R1'', di_Online = 1\<rparr>, Fetched None),
     (\<lparr>di_SN = ''R2'', di_Online = 0\<rparr>,
      Fetched (Some (NewDeviceUpdate minute \<lparr>dev_SN = ''R2'', dev_Name = ''roof'', dev_Online = 0\<rparr> fmempty)))]"
  by (simp add: sample_scraped_def)

text \<open>As many requests as the semaphore allows can start.\<close>

lemma requests_start:
  assumes "rs_pc s = RestFetch (map (\<lambda>d. (d, Waiting)) (ds @ ds'))" and "rs_sem s = 0" and "length ds \<le> restConcurrency"
  shows "rest_steps H s (s\<lparr>rs_pc := RestFetch (map (\<lambda>d. (d, Fetching)) ds @ map (\<lambda>d. (d, Waiting)) ds'), rs_sem := length ds\<rparr>)"
  using assms
proof (induction ds arbitrary: ds' rule: rev_induct)
  case Nil
  then have "s\<lparr>rs_pc := RestFetch (map (\<lambda>d. (d, Waiting)) ds'), rs_sem := 0\<rparr> = s" by (cases s) simp
  then show ?case by (simp add: rest_steps.none)
next
  case (snoc d ds)
  let ?t = "s\<lparr>rs_pc := RestFetch (map (\<lambda>d. (d, Fetching)) ds @ map (\<lambda>d. (d, Waiting)) (d # ds')), rs_sem := length ds\<rparr>"
  have "rest_steps H s ?t" by (rule snoc.IH) (use snoc.prems in simp_all)
  moreover have "chan_send restConcurrency (rs_sem ?t) = Some (length ds + 1)"
    using snoc.prems(3) by (simp add: chan_send_def)
  from fetch_starts [of ?t "map (\<lambda>d. (d, Fetching)) ds" d "map (\<lambda>d. (d, Waiting)) ds'", OF _ this, of H]
  have "rest_step H ?t (s\<lparr>rs_pc := RestFetch (map (\<lambda>d. (d, Fetching)) (ds @ [d]) @ map (\<lambda>d. (d, Waiting)) ds'),
      rs_sem := length (ds @ [d])\<rparr>)" by simp
  ultimately show ?case by (rule rest_steps.more)
qed

text \<open>An account with five devices: four requests run, and the fifth device waits.\<close>

definition five_devices :: "device_info list" where
  "five_devices = map (\<lambda>n. \<lparr>di_SN = [CHR ''R'', n], di_Online = 1\<rparr>) ''12345''"

theorem rest_concurrency_limit_witness:
  "\<exists>s. rest_reachable sample_rest_handler sample_rest_config [()] s
     \<and> rs_pc s = RestFetch (map (\<lambda>d. (d, Fetching)) (take 4 five_devices) @ [(last five_devices, Waiting)])
     \<and> running (map (\<lambda>d. (d, Fetching)) (take 4 five_devices) @ [(last five_devices, Waiting)]) = 4
     \<and> rs_sem s = 4"
proof -
  let ?H = "sample_rest_handler" and ?e = "NewRestMetricsExporter sample_rest_config [()]"
  let ?s0 = "rest_Run minute ?e"
  let ?s1 = "?s0\<lparr>rs_rest := ?e\<lparr>re_started := minute\<rparr>, rs_pc := RestScrape\<rparr>"
  let ?s2 = "?s1\<lparr>rs_rest := ?e\<lparr>re_started := minute, re_lastSuccess := minute\<rparr>,
      rs_pc := RestFetch (map (\<lambda>d. (d, Waiting)) five_devices)\<rparr>"
  let ?fs = "map (\<lambda>d. (d, Fetching)) (take 4 five_devices) @ [(last five_devices, Waiting)]"
  let ?t = "?s2\<lparr>rs_pc := RestFetch ?fs, rs_sem := 4\<rparr>"
  have 1: "rest_step ?H ?s0 ?s1"
    using start [of ?s0 ?H] by (simp add: rest_Run_def NewTicker_def NewRestMetricsExporter_def sample_rest_config_def)
  have 2: "rest_step ?H ?s1 ?s2"
    using list_ok [of ?s1 ?H five_devices]
    by (simp add: rest_Run_def RestRequest_def NewRestMetricsExporter_def sample_rest_config_def)
  have "rest_steps ?H ?s2 ?t"
    using requests_start [of ?s2 "take 4 five_devices" "[last five_devices]" ?H]
    by (simp add: rest_Run_def restConcurrency_def five_devices_def numeral_eq_Suc)
  then have r: "rest_reachable ?H sample_rest_config [()] ?t"
    unfolding rest_reachable_def using rest_steps_trans [OF 1 rest_steps_trans [OF 2]] by blast
  moreover have "rs_pc ?t = RestFetch ?fs" by simp
  moreover from rest_concurrency_limit [OF r this]
  have "rs_sem ?t = length (filter (\<lambda>(d, f). holds_slot f) ?fs)" by blast
  moreover have "running ?fs = 4" by (simp add: five_devices_def)
  ultimately show ?thesis by (intro exI [of _ ?t]) simp
qed

theorem scrape_updates_match_devices_witness:
  "map upd_device (fetched_updates [(\<lparr>di_SN = ''R1'', di_Online = 1\<rparr>, Fetched None),
     (\<lparr>di_SN = ''R2'', di_Online = 0\<rparr>,
      Fetched (Some (NewDeviceUpdate minute \<lparr>dev_SN = ''R2'', dev_Name = ''roof'', dev_Online = 0\<rparr> fmempty)))])
   = [\<lparr>dev_SN = ''R2'', dev_Name = ''roof'', dev_Online = 0\<rparr>]"
  using scrape_updates_match_devices [OF sample_scraped_reachable sample_scraped_pc]
  by (simp add: finished_def listed_device_def sample_rest_config_def getDeviceName_def)

theorem rest_health_limit_witness:
  "rest_Health (3 * minute + 1) (3 * minute + 1) (rs_rest sample_scraped) \<noteq> None
   \<and> rest_Health (3 * minute) (3 * minute) (rs_rest sample_scraped) = None"
  using rest_health_limit [of "rs_rest sample_scraped"]
  by (simp add: sample_scraped_def NewRestMetricsExporter_def sample_rest_config_def)

end
