(* ===== verification/Prometheus.thy ===== *)
theory Prometheus
  imports Metric
begin

text \<open>
  \<open>prometheus.go\<close>: the exporter that keeps the latest value of every device parameter and
  exposes them as gauges. Its state is the map \<open>metrics\<close> from keys
  \<open><serial number>_<metric name>\<close> to samples and the map \<open>descs\<close> of the descriptors created so
  far; a descriptor is represented by the arguments of \<open>prometheus.NewDesc\<close>. The registry,
  the HTTP handler and \<open>NewConstMetric\<close> belong to the Prometheus client library: the latter is
  the parameter of \<open>Collect_metrics\<close>.

  The exporter is the model's only implementation of \<open>MetricHandler\<close>; the interpretation at the
  end of this theory discharges that interface's laws for it.
\<close>

named_theorems prom_simps \<open>equations of the Prometheus exporter used in its proofs\<close>

section \<open>State\<close>

record prom_sample =
  ps_sn :: gostring
  ps_device :: gostring
  ps_name :: gostring
  ps_value :: float64

text \<open>The descriptor of a metric: its name, the parameter in its help text, its labels.\<close>

record prom_desc =
  pd_name :: gostring
  pd_param :: gostring
  pd_labels :: "gostring list"

record prom =
  pr_prefix :: gostring
  pr_metrics :: "(gostring, prom_sample) fmap"
  pr_descs :: "(gostring, prom_desc) fmap"

definition NewPrometheusExporter :: "gostring \<Rightarrow> prom" where
  "NewPrometheusExporter prefix =
     \<lparr>pr_prefix = prefix, pr_metrics = fmempty, pr_descs = fmempty\<rparr>"

text \<open>
  The constructor with the registration. The device metrics have a registry of their own, which
  comes after the gatherer of the other metrics in what the HTTP handler gathers; \<open>register\<close> is
  its \<open>Register\<close>, \<open>default_gatherer\<close> is \<open>prometheus.DefaultGatherer\<close>.
\<close>

record 'g PrometheusConfig =
  pc_Prefix :: gostring
  pc_Gatherer :: "'g option"

datatype 'g gatherer = Gatherer 'g | DeviceRegistry

definition create_prometheus ::
  "'g \<Rightarrow> (prom \<Rightarrow> gostring option) \<Rightarrow> 'g PrometheusConfig \<Rightarrow> gostring + prom \<times> 'g gatherer list" where
  "create_prometheus default_gatherer register config =
    (let p = NewPrometheusExporter (pc_Prefix config) in
     case register p of
       Some err \<Rightarrow> Inl err
     | None \<Rightarrow>
         (let base = (case pc_Gatherer config of None \<Rightarrow> default_gatherer | Some g \<Rightarrow> g)
          in Inr (p, [Gatherer base, DeviceRegistry])))"

section \<open>Operations\<close>

definition prom_key :: "gostring \<Rightarrow> gostring \<Rightarrow> gostring" where
  "prom_key sn name = sn @ ''_'' @ name"

definition setLocked :: "ecoflow_device \<Rightarrow> gostring \<Rightarrow> gostring \<Rightarrow> float64 \<Rightarrow> prom \<Rightarrow> prom" where
  "setLocked device param metricName v p =
    (let deviceMetricName = prom_key (dev_SN device) metricName in
     case fmlookup (pr_metrics p) deviceMetricName of
       Some s \<Rightarrow> p\<lparr>pr_metrics := fmupd deviceMetricName (s\<lparr>ps_value := v\<rparr>) (pr_metrics p)\<rparr>
     | None \<Rightarrow>
         (let p1 =
            (if fmlookup (pr_descs p) metricName = None
             then p\<lparr>pr_descs := fmupd metricName
                       \<lparr>pd_name = metricName, pd_param = param,
                        pd_labels = [''device'', ''serial_number'']\<rparr> (pr_descs p)\<rparr>
             else p);
              s = \<lparr>ps_sn = dev_SN device, ps_device = dev_Name device, ps_name = metricName,
                   ps_value = v\<rparr>
          in p1\<lparr>pr_metrics := fmupd deviceMetricName s (pr_metrics p1)\<rparr>))"

text \<open>
  The loop that removes the series of a device that went offline; it visits the keys in the
  order \<open>ks\<close> and counts what it deletes.
\<close>

fun drop_series ::
  "gostring \<Rightarrow> gostring \<Rightarrow> gostring list \<Rightarrow> (gostring, prom_sample) fmap \<times> nat
     \<Rightarrow> (gostring, prom_sample) fmap \<times> nat"
where
  "drop_series sn onlineName [] (m, dropped) = (m, dropped)"
| "drop_series sn onlineName (key # ks) (m, dropped) =
    (case fmlookup m key of
       Some s \<Rightarrow>
         if ps_sn s = sn \<and> ps_name s \<noteq> onlineName
         then drop_series sn onlineName ks (fmdrop key m, dropped + 1)
         else drop_series sn onlineName ks (m, dropped)
     | None \<Rightarrow> drop_series sn onlineName ks (m, dropped))"

definition set_samples :: "ecoflow_device \<Rightarrow> sample list \<Rightarrow> prom \<Rightarrow> prom" where
  "set_samples device ss p =
     fold (\<lambda>s p. if smp_numeric s then setLocked device (smp_param s) (smp_name s) (smp_value s) p
                 else p) ss p"

text \<open>What Go leaves open in a call of \<open>Handle\<close>: Unicode tables and the orders of both loops.\<close>

record prom_env =
  pe_tables :: unicode_tables
  pe_params_order :: "gostring list"
  pe_metrics_order :: "gostring list"

text \<open>
  \<open>onlineName, _, _ := generateMetricName("online", ...)\<close>: the name of the online gauge. (The
  error is ignored by the code; it cannot occur, \<open>online_name_eq\<close>.)
\<close>

definition online_name :: "unicode_tables \<Rightarrow> gostring \<Rightarrow> gostring \<Rightarrow> gostring" where
  "online_name T prefix sn =
    (case generateMetricName T ''online'' prefix sn of Inl _ \<Rightarrow> [] | Inr (n, _) \<Rightarrow> n)"

definition Handle :: "prom_env \<Rightarrow> prom \<Rightarrow> device_update \<Rightarrow> handle_result \<times> prom \<times> device_update" where
  "Handle e p u =
    (let device = upd_device u in
     case Samples (pe_tables e) (pe_params_order e) (pr_prefix p) u of
       (samples, u') \<Rightarrow>
         (let onlineName = online_name (pe_tables e) (pr_prefix p) (dev_SN device);
              p1 = (if dev_Online device = 0
                    then p\<lparr>pr_metrics := fst (drop_series (dev_SN device) onlineName
                                               (pe_metrics_order e) (pr_metrics p, 0))\<rparr>
                    else set_samples device samples p)
          in (HandleOk,
              setLocked device ''online'' onlineName (f64_of_int (dev_Online device)) p1,
              u')))"

text \<open>
  \<open>Describe\<close> sends nothing. \<open>Collect\<close> (\<open>Collect_metrics\<close>) sends one metric per sample: \<open>NewConstMetric\<close> of the
  client library builds it from the descriptor (nil when the map has none), the value and the
  label values, or fails; then an invalid metric is sent.
\<close>

definition Describe :: "prom \<Rightarrow> prom_desc list" where
  "Describe p = []"

datatype 'm collected = Metric 'm | InvalidMetric "prom_desc option" gostring

definition Collect_metrics ::
  "(prom_desc option \<Rightarrow> float64 \<Rightarrow> gostring list \<Rightarrow> gostring + 'm) \<Rightarrow> gostring list \<Rightarrow> prom
     \<Rightarrow> 'm collected list"
where
  "Collect_metrics NewConstMetric ks p =
     map (\<lambda>key. case fmlookup (pr_metrics p) key of
            None \<Rightarrow> InvalidMetric None []
          | Some s \<Rightarrow>
              (let desc = fmlookup (pr_descs p) (ps_name s) in
               case NewConstMetric desc (ps_value s) [ps_device s, ps_sn s] of
                 Inl err \<Rightarrow> InvalidMetric desc err
               | Inr m \<Rightarrow> Metric m)) ks"

section \<open>Invariant\<close>

text \<open>
  Every sample stands under its own key and has a descriptor, and a descriptor stands under
  its own name with the two labels of the exporter.
\<close>

definition prom_inv :: "prom \<Rightarrow> bool" where
  "prom_inv p \<longleftrightarrow>
     (\<forall>key s. fmlookup (pr_metrics p) key = Some s \<longrightarrow>
        key = prom_key (ps_sn s) (ps_name s) \<and> fmlookup (pr_descs p) (ps_name s) \<noteq> None) \<and>
     (\<forall>n d. fmlookup (pr_descs p) n = Some d \<longrightarrow>
        pd_name d = n \<and> pd_labels d = [''device'', ''serial_number''])"

text \<open>The value shown for a series, and the serial numbers for which keys are unambiguous.\<close>

definition series :: "prom \<Rightarrow> gostring \<Rightarrow> gostring \<Rightarrow> float64 option" where
  "series p sn name = map_option ps_value (fmlookup (pr_metrics p) (prom_key sn name))"

definition plain_sn :: "gostring \<Rightarrow> bool" where
  "plain_sn sn \<longleftrightarrow> CHR ''_'' \<notin> set sn"

lemma prom_key_inj:
  assumes "plain_sn a" and "plain_sn b" and "prom_key a m = prom_key b n"
  shows "a = b \<and> m = n"
proof -
  have "takeWhile (\<lambda>c. c \<noteq> CHR ''_'') (prom_key x k) = x" if "plain_sn x" for x k
    using that by (auto simp: prom_key_def plain_sn_def takeWhile_append)
  with assms have "a = b" by metis
  with assms(3) show ?thesis by (simp add: prom_key_def)
qed

lemma prom_key_same [simp]: "prom_key sn m = prom_key sn n \<longleftrightarrow> m = n"
  by (simp add: prom_key_def)

lemma setLocked_metrics:
  "fmlookup (pr_metrics (setLocked device param n v p)) key =
    (if key = prom_key (dev_SN device) n
     then Some (case fmlookup (pr_metrics p) key of
            Some s \<Rightarrow> s\<lparr>ps_value := v\<rparr>
          | None \<Rightarrow> \<lparr>ps_sn = dev_SN device, ps_device = dev_Name device, ps_name = n, ps_value = v\<rparr>)
     else fmlookup (pr_metrics p) key)"
  by (auto simp: setLocked_def Let_def split: option.split)

lemma setLocked_prefix [simp]: "pr_prefix (setLocked device param n v p) = pr_prefix p"
  by (auto simp: setLocked_def Let_def split: option.split)

lemma setLocked_descs:
  "fmlookup (pr_descs (setLocked device param n v p)) k =
    (if fmlookup (pr_metrics p) (prom_key (dev_SN device) n) = None
        \<and> k = n \<and> fmlookup (pr_descs p) n = None
     then Some \<lparr>pd_name = n, pd_param = param, pd_labels = [''device'', ''serial_number'']\<rparr>
     else fmlookup (pr_descs p) k)"
  by (auto simp: setLocked_def Let_def split: option.split)

lemma setLocked_inv:
  assumes "prom_inv p"
  shows "prom_inv (setLocked device param n v p)"
  using assms
  by (fastforce simp: prom_inv_def setLocked_metrics setLocked_descs split: option.splits if_splits)

lemma setLocked_series:
  "series (setLocked device param n v p) (dev_SN device) m =
    (if m = n then Some v else series p (dev_SN device) m)"
  by (auto simp: series_def setLocked_metrics split: option.split)

lemma setLocked_other:
  "plain_sn (dev_SN device) \<Longrightarrow> plain_sn sn \<Longrightarrow> sn \<noteq> dev_SN device \<Longrightarrow>
   series (setLocked device param n v p) sn m = series p sn m"
  by (auto simp: series_def setLocked_metrics dest: prom_key_inj)

lemma set_samples_Nil [simp]: "set_samples device [] p = p"
  by (simp add: set_samples_def)

lemma set_samples_snoc:
  "set_samples device (ss @ [s]) p =
    (if smp_numeric s
     then setLocked device (smp_param s) (smp_name s) (smp_value s) (set_samples device ss p)
     else set_samples device ss p)"
  by (simp add: set_samples_def)

lemma set_samples_prefix [simp]: "pr_prefix (set_samples device ss p) = pr_prefix p"
  by (induction ss rule: rev_induct) (simp_all add: set_samples_snoc)

lemma set_samples_inv: "prom_inv p \<Longrightarrow> prom_inv (set_samples device ss p)"
  by (induction ss rule: rev_induct) (simp_all add: set_samples_snoc setLocked_inv)

lemma set_samples_other:
  "plain_sn (dev_SN device) \<Longrightarrow> plain_sn sn \<Longrightarrow> sn \<noteq> dev_SN device \<Longrightarrow>
   series (set_samples device ss p) sn m = series p sn m"
  by (induction ss rule: rev_induct) (simp_all add: set_samples_snoc setLocked_other)

text \<open>After the loop a metric of the device has the value of the last numeric sample of its name.\<close>

lemma set_samples_series:
  "series (set_samples device ss p) (dev_SN device) m =
    (case filter (\<lambda>s. smp_numeric s \<and> smp_name s = m) ss of
       [] \<Rightarrow> series p (dev_SN device) m
     | s # ss' \<Rightarrow> Some (smp_value (last (s # ss'))))"
proof (induction ss rule: rev_induct)
  case (snoc s ss)
  then show ?case
    by (auto simp: set_samples_snoc setLocked_series split: list.splits)
qed simp

lemma set_samples_value:
  assumes "s \<in> set ss" and "smp_numeric s" and "smp_name s = m"
    and all: "\<And>t. t \<in> set ss \<Longrightarrow> smp_numeric t \<Longrightarrow> smp_name t = m \<Longrightarrow> smp_value t = v"
  shows "series (set_samples device ss p) (dev_SN device) m = Some v"
proof -
  let ?f = "filter (\<lambda>t. smp_numeric t \<and> smp_name t = m) ss"
  have "s \<in> set ?f" using assms by simp
  then obtain t ts where f: "?f = t # ts" by (cases ?f) auto
  then have "last (t # ts) \<in> set ?f" by (metis last_in_set list.distinct(1))
  with all have "smp_value (last (t # ts)) = v" by simp
  with f show ?thesis by (simp add: set_samples_series)
qed

lemma drop_series_lookup:
  "fmlookup (fst (drop_series sn on ks (m, d))) key =
    (case fmlookup m key of
       Some s \<Rightarrow> if key \<in> set ks \<and> ps_sn s = sn \<and> ps_name s \<noteq> on then None else Some s
     | None \<Rightarrow> None)"
proof (induction ks arbitrary: m d)
  case (Cons k ks)
  then show ?case
    by (cases "fmlookup m k") (auto split: option.splits)
qed (simp split: option.split)

text \<open>The loop counts the series it removes, and it does not depend on the order.\<close>

lemma drop_series_count:
  "distinct ks \<Longrightarrow>
   snd (drop_series sn on ks (m, d)) =
     d + length (filter (\<lambda>k. \<exists>s. fmlookup m k = Some s \<and> ps_sn s = sn \<and> ps_name s \<noteq> on) ks)"
proof (induction ks arbitrary: m d)
  case (Cons k ks)
  have "filter (\<lambda>x. \<exists>s. fmlookup (fmdrop k m) x = Some s \<and> ps_sn s = sn \<and> ps_name s \<noteq> on) ks =
        filter (\<lambda>x. \<exists>s. fmlookup m x = Some s \<and> ps_sn s = sn \<and> ps_name s \<noteq> on) ks"
    using Cons.prems by (intro filter_cong) auto
  with Cons show ?case by (cases "fmlookup m k") auto
qed simp

lemma drop_series_filter [range_loop]:
  assumes "range_order m ks"
  shows "fst (drop_series sn on ks (m, d)) =
    fmfilter (\<lambda>k. \<forall>s. fmlookup m k = Some s \<longrightarrow> ps_sn s \<noteq> sn \<or> ps_name s = on) m"
  using assms
  by (intro fmap_ext) (auto simp: drop_series_lookup range_order_mem split: option.split)

lemma drop_series_inv:
  "prom_inv p \<Longrightarrow> prom_inv (p\<lparr>pr_metrics := fst (drop_series sn on ks (pr_metrics p, d))\<rparr>)"
  by (auto simp: prom_inv_def drop_series_lookup split: option.splits if_splits)

section \<open>Handle\<close>

lemma snake_online: "snake ''online'' = ''online''"
  by (simp add: snake_def char_image_def upper_char_def name_char_def is_metric_name_rune_def code_def)

lemma online_name_eq [simp]: "online_name T prefix sn = prefix @ ''_online''"
proof -
  have "ecoflowParamToPrometheusMetric T ''online'' = Inr ''online''"
    using snake_conversion [of "''online''" T]
    by (simp add: snake_online ascii_def code_def)
  then show ?thesis by (simp add: online_name_def generateMetricName_def Let_def)
qed

lemma Handle_result: "Handle e p u = (r, p', u') \<Longrightarrow> r = HandleOk"
  by (auto simp: Handle_def Let_def split: prod.splits)

lemma Handle_inv: "prom_inv p \<Longrightarrow> Handle e p u = (r, p', u') \<Longrightarrow> prom_inv p'"
  by (auto simp: Handle_def Let_def setLocked_inv set_samples_inv drop_series_inv
      split: prod.splits if_splits)

lemma Handle_readonly:
  "Handle e p u = (r, p', u') \<Longrightarrow>
     upd_device u' = upd_device u \<and> upd_time u' = upd_time u \<and> upd_params u' = upd_params u"
  by (auto simp: Handle_def Let_def split: prod.splits dest: Samples_update)

lemma Handle_online_value:
  "Handle e p u = (r, p', u') \<Longrightarrow>
     series p' (dev_SN (upd_device u)) (pr_prefix p @ ''_online'') =
       Some (f64_of_int (dev_Online (upd_device u)))"
  by (auto simp: Handle_def Let_def setLocked_series split: prod.splits)

interpretation prom_handler: metric_handler Handle prom_inv
  by unfold_locales (fact Handle_inv, fact Handle_readonly)

section \<open>Properties\<close>

definition plain_state :: "prom \<Rightarrow> bool" where
  "plain_state p \<longleftrightarrow> (\<forall>key s. fmlookup (pr_metrics p) key = Some s \<longrightarrow> plain_sn (ps_sn s))"

lemma setLocked_plain:
  "plain_state p \<Longrightarrow> plain_sn (dev_SN device) \<Longrightarrow> plain_state (setLocked device param n v p)"
  by (fastforce simp: plain_state_def setLocked_metrics split: option.splits if_splits)

lemma set_samples_plain:
  "plain_state p \<Longrightarrow> plain_sn (dev_SN device) \<Longrightarrow> plain_state (set_samples device ss p)"
  by (induction ss rule: rev_induct) (simp_all add: set_samples_snoc setLocked_plain)

lemma drop_series_series:
  assumes "prom_inv p" and "plain_state p" and "plain_sn sn" and "plain_sn sn'"
    and "range_order (pr_metrics p) ks"
  shows "series (p\<lparr>pr_metrics := fst (drop_series sn on ks (pr_metrics p, d))\<rparr>) sn' n =
    (if sn' = sn \<and> n \<noteq> on then None else series p sn' n)"
proof (cases "fmlookup (pr_metrics p) (prom_key sn' n)")
  case (Some s)
  then have "prom_key sn' n = prom_key (ps_sn s) (ps_name s)" and "plain_sn (ps_sn s)"
    using assms by (auto simp: prom_inv_def plain_state_def)
  then have "sn' = ps_sn s \<and> n = ps_name s"
    using assms(4) prom_key_inj by blast
  with Some assms(5) show ?thesis
    by (auto simp: series_def drop_series_lookup range_order_mem split: option.split)
qed (simp add: series_def drop_series_lookup)

lemma f64_of_int_0 [simp]: "f64_of_int 0 = Fin 0"
  by (simp add: f64_of_int_exact)

lemma f64_of_int_1 [simp]: "f64_of_int 1 = Fin 1"
  by (simp add: f64_of_int_exact)

lemma Handle_offline:
  assumes "prom_inv p" and "plain_state p" and "plain_sn (dev_SN (upd_device u))"
    and "range_order (pr_metrics p) (pe_metrics_order e)"
    and "dev_Online (upd_device u) = 0" and "Handle e p u = (r, p', u')"
  shows "series p' (dev_SN (upd_device u)) name =
    (if name = pr_prefix p @ ''_online'' then Some (Fin 0) else None)"
  using assms drop_series_series [OF assms(1-3,3,4), of "pr_prefix p @ ''_online''" 0 name]
  by (auto simp: Handle_def Let_def setLocked_series split: prod.splits)

lemma Handle_other_device:
  assumes "prom_inv p" and "plain_state p" and "plain_sn (dev_SN (upd_device u))"
    and "range_order (pr_metrics p) (pe_metrics_order e)"
    and "plain_sn sn" and "sn \<noteq> dev_SN (upd_device u)" and "Handle e p u = (r, p', u')"
  shows "series p' sn name = series p sn name"
  using assms drop_series_series [OF assms(1-3,5,4), of "pr_prefix p @ ''_online''" 0 name]
  by (auto simp: Handle_def Let_def setLocked_other set_samples_other split: prod.splits if_splits)

lemma drop_series_plain:
  "plain_state p \<Longrightarrow> plain_state (p\<lparr>pr_metrics := fst (drop_series sn on ks (pr_metrics p, d))\<rparr>)"
  by (auto simp: plain_state_def drop_series_lookup split: option.splits if_splits)

lemma Handle_plain:
  "plain_state p \<Longrightarrow> plain_sn (dev_SN (upd_device u)) \<Longrightarrow> Handle e p u = (r, p', u') \<Longrightarrow> plain_state p'"
  by (auto simp: Handle_def Let_def setLocked_plain set_samples_plain drop_series_plain split: prod.splits if_splits)

text \<open>When a device goes offline, an update with \<open>Online = 0\<close> removes every series of that
  device except the online gauge, which then reports 0.\<close>
theorem offline_update_keeps_only_online:
  assumes "prom_inv p" and "plain_state p" and "plain_sn (dev_SN (upd_device u))"
    and "range_order (pr_metrics p) (pe_metrics_order e)"
    and "dev_Online (upd_device u) = 0" and "Handle e p u = (r, p', u')"
  shows "series p' (dev_SN (upd_device u)) name =
    (if name = pr_prefix p @ ''_online'' then Some (Fin 0) else None)"
  using assms by (rule Handle_offline)

text \<open>C16: An update of one device never changes what is reported for another device, as long as
  serial numbers contain no underscore (the separator of the keys of \<open>metrics\<close>).\<close>
theorem update_isolation:
  assumes "prom_inv p" and "plain_state p" and "plain_sn (dev_SN (upd_device u))"
    and "range_order (pr_metrics p) (pe_metrics_order e)"
    and "plain_sn sn" and "sn \<noteq> dev_SN (upd_device u)" and "Handle e p u = (r, p', u')"
  shows "series p' sn name = series p sn name"
  using assms by (rule Handle_other_device)

lemma Handle_exposes:
  assumes "range_order (upd_params u) (pe_params_order e)" and "upd_samples u = fmempty"
    and "dev_Online (upd_device u) \<noteq> 0" and "Handle e p u = (r, p', u')"
    and "fmlookup (upd_params u) k = Some raw" and "toFloat raw = (v, True)"
    and "generateMetricName (pe_tables e) k (pr_prefix p) (dev_SN (upd_device u)) = Inr (name, d)"
    and "name \<noteq> pr_prefix p @ ''_online''"
    and "\<And>k' raw' d'. fmlookup (upd_params u) k' = Some raw' \<Longrightarrow> snd (toFloat raw') \<Longrightarrow>
      generateMetricName (pe_tables e) k' (pr_prefix p) (dev_SN (upd_device u)) = Inr (name, d') \<Longrightarrow> k' = k"
  shows "series p' (dev_SN (upd_device u)) name = Some v"
proof -
  define ss where "ss = collect_samples (pe_tables e) (pr_prefix p) (pe_params_order e) u"
  define s where "s = \<lparr>smp_param = k, smp_name = name, smp_raw = raw, smp_value = v, smp_numeric = True\<rparr>"
  have mem: "t \<in> set ss \<longleftrightarrow> (\<exists>raw. fmlookup (upd_params u) (smp_param t) = Some raw
      \<and> sample_of (pe_tables e) (pr_prefix p) (dev_SN (upd_device u)) (smp_param t) raw = Some t)" for t
    unfolding ss_def by (rule collect_samples_mem [OF assms(1)])
  have "s \<in> set ss"
    using assms(5-7) by (simp add: mem s_def sample_of_def)
  moreover have "smp_value t = v" if "t \<in> set ss" "smp_numeric t" "smp_name t = name" for t
  proof -
    from that(1) obtain raw' where l: "fmlookup (upd_params u) (smp_param t) = Some raw'"
      and so: "sample_of (pe_tables e) (pr_prefix p) (dev_SN (upd_device u)) (smp_param t) raw' = Some t"
      by (auto simp: mem)
    with that assms(9) [OF l] have "smp_param t = k"
      by (auto dest!: sample_of_fields)
    with l so assms(5,6) show ?thesis by (auto dest!: sample_of_fields)
  qed
  ultimately have "series (set_samples (upd_device u) ss p) (dev_SN (upd_device u)) name = Some v"
    by (intro set_samples_value) (auto simp: s_def)
  with assms show ?thesis
    by (auto simp: Handle_def Let_def Samples_def ss_def setLocked_series split: prod.splits)
qed

text \<open>An update of an online device exposes every numeric parameter under its metric name:
  when no other numeric parameter of the update has the same metric name and the name is not
  that of the online gauge, the series has the float value of the parameter.\<close>
theorem online_update_exposes_parameter:
  assumes "range_order (upd_params u) (pe_params_order e)" and "upd_samples u = fmempty"
    and "dev_Online (upd_device u) \<noteq> 0" and "Handle e p u = (r, p', u')"
    and "fmlookup (upd_params u) k = Some raw" and "toFloat raw = (v, True)"
    and "generateMetricName (pe_tables e) k (pr_prefix p) (dev_SN (upd_device u)) = Inr (name, d)"
    and "name \<noteq> pr_prefix p @ ''_online''"
    and "\<And>k' raw' d'. fmlookup (upd_params u) k' = Some raw' \<Longrightarrow> snd (toFloat raw') \<Longrightarrow>
      generateMetricName (pe_tables e) k' (pr_prefix p) (dev_SN (upd_device u)) = Inr (name, d') \<Longrightarrow> k' = k"
  shows "series p' (dev_SN (upd_device u)) name = Some v"
  using assms by (rule Handle_exposes)

section \<open>Reachable states\<close>

text \<open>
  The states the exporter can get into: updates, which are fresh when they come to the exporter,
  in any number, in any order and with any order of the range loops.
\<close>

inductive prom_reachable :: "gostring \<Rightarrow> prom \<Rightarrow> bool" for prefix where
  prom_new: "prom_reachable prefix (NewPrometheusExporter prefix)"
| prom_handle: "prom_reachable prefix p \<Longrightarrow> Handle e p (NewDeviceUpdate now device params) = (r, p', u') \<Longrightarrow>
    prom_reachable prefix p'"

definition name_under :: "gostring \<Rightarrow> gostring \<Rightarrow> bool" where
  "name_under prefix n \<longleftrightarrow> (\<exists>m. n = prefix @ ''_'' @ m \<and> list_all name_char m)"

definition descs_under :: "prom \<Rightarrow> bool" where
  "descs_under p \<longleftrightarrow> (\<forall>n d. fmlookup (pr_descs p) n = Some d \<longrightarrow> name_under (pr_prefix p) n)"

lemma name_under_valid: "prometheus_name prefix \<Longrightarrow> name_under prefix n \<Longrightarrow> prometheus_name n"
  by (cases prefix) (auto simp: prometheus_name_def name_under_def)

lemma generated_name_under: "generateMetricName T k prefix sn = Inr (n, d) \<Longrightarrow> name_under prefix n"
  by (auto simp: name_under_def dest!: generateMetricName_Inr metric_name_valid)

lemma online_name_under: "name_under prefix (prefix @ ''_online'')"
  unfolding name_under_def
  by (rule exI [of _ "''online''"]) (simp add: name_char_def is_metric_name_rune_def code_def)

lemma setLocked_under:
  "descs_under p \<Longrightarrow> name_under (pr_prefix p) n \<Longrightarrow> descs_under (setLocked device param n v p)"
  by (auto simp: descs_under_def setLocked_descs split: if_splits)

lemma set_samples_under:
  "descs_under p \<Longrightarrow> (\<And>s. s \<in> set ss \<Longrightarrow> name_under (pr_prefix p) (smp_name s)) \<Longrightarrow>
   descs_under (set_samples device ss p)"
  by (induction ss rule: rev_induct) (simp_all add: set_samples_snoc setLocked_under)

lemma fresh_samples_under:
  "s \<in> set (fst (Samples T ks prefix (NewDeviceUpdate now device params))) \<Longrightarrow> name_under prefix (smp_name s)"
  by (auto simp: Samples_def NewDeviceUpdate_def Let_def collect_samples_def set_map_filter_iff
      bind_eq_Some_conv dest!: sample_of_fields generated_name_under)

lemma drop_series_under:
  "descs_under p \<Longrightarrow> descs_under (p\<lparr>pr_metrics := m\<rparr>)"
  by (simp add: descs_under_def)

lemma Handle_under:
  assumes "descs_under p" and "Handle e p (NewDeviceUpdate now device params) = (r, p', u')"
  shows "descs_under p'"
proof -
  obtain ss u1 where S: "Samples (pe_tables e) (pe_params_order e) (pr_prefix p)
      (NewDeviceUpdate now device params) = (ss, u1)" by (metis surj_pair)
  have names: "name_under (pr_prefix p) (smp_name s)" if "s \<in> set ss" for s
    using that fresh_samples_under [of s "pe_tables e" "pe_params_order e" "pr_prefix p" now device params] S
    by simp
  have ss: "descs_under (set_samples device ss p)"
    using assms(1) names by (intro set_samples_under) auto
  show ?thesis
    using assms S ss
    by (auto simp: Handle_def Let_def NewDeviceUpdate_def intro!: setLocked_under drop_series_under
        intro: online_name_under)
qed

lemma Handle_prefix: "Handle e p u = (r, p', u') \<Longrightarrow> pr_prefix p' = pr_prefix p"
  by (auto simp: Handle_def Let_def split: prod.splits if_splits)

lemma reachable_inv: "prom_reachable prefix p \<Longrightarrow> prom_inv p \<and> descs_under p \<and> pr_prefix p = prefix"
proof (induction rule: prom_reachable.induct)
  case prom_new
  then show ?case by (simp add: NewPrometheusExporter_def prom_inv_def descs_under_def)
next
  case (prom_handle p e now device params r p' u')
  then show ?case using Handle_inv Handle_under Handle_prefix by blast
qed

lemma prom_inv_sample:
  assumes "prom_inv p" and "fmlookup (pr_metrics p) key = Some s"
  shows "key = prom_key (ps_sn s) (ps_name s) \<and> (\<exists>d. fmlookup (pr_descs p) (ps_name s) = Some d
     \<and> pd_name d = ps_name s \<and> length (pd_labels d) = 2)"
proof -
  from assms obtain d where "fmlookup (pr_descs p) (ps_name s) = Some d"
    unfolding prom_inv_def by blast
  moreover from this assms(1) have "pd_name d = ps_name s" "pd_labels d = [''device'', ''serial_number'']"
    unfolding prom_inv_def by blast+
  ultimately show ?thesis using assms unfolding prom_inv_def by auto
qed

text \<open>
  What the client library asks of a descriptor: a metric name, label names (which have no colon and do
  not begin with two underscores) and no label twice. Of the label values it asks that they are as many as
  the labels and valid UTF-8.
\<close>

definition label_name :: "gostring \<Rightarrow> bool" where
  "label_name l \<longleftrightarrow> prometheus_name l \<and> CHR '':'' \<notin> set l \<and> take 2 l \<noteq> ''__''"

definition desc_accepted :: "prom_desc \<Rightarrow> bool" where
  "desc_accepted d \<longleftrightarrow> prometheus_name (pd_name d) \<and> list_all label_name (pd_labels d) \<and> distinct (pd_labels d)"

lemma exporter_labels: "list_all label_name [''device'', ''serial_number'']" "distinct [''device'', ''serial_number'']"
  by (simp_all add: label_name_def prometheus_name_def name_char_def is_metric_name_rune_def code_def is_digit_def)

text \<open>A scrape never reports an invalid metric: in every state the exporter can get into,
  \<open>Collect\<close> finds a descriptor for each sample, with a valid metric name and as many labels as
  the sample has values, so that the client library builds every metric when the serial numbers and
  the names of the devices are valid UTF-8.\<close>
lemma Collect_valid:
  assumes "prom_reachable prefix p" and "prometheus_name prefix" and "range_order (pr_metrics p) ks"
    and "\<And>key s. fmlookup (pr_metrics p) key = Some s \<Longrightarrow> valid_utf8 (ps_device s) \<and> valid_utf8 (ps_sn s)"
    and "\<And>d v ls. desc_accepted d \<Longrightarrow> length ls = length (pd_labels d) \<Longrightarrow> list_all valid_utf8 ls \<Longrightarrow>
      \<exists>m. NewConstMetric (Some d) v ls = Inr m"
  shows "\<exists>ms. Collect_metrics NewConstMetric ks p = map Metric ms \<and> length ms = go_len (pr_metrics p)"
proof -
  have inv: "prom_inv p" "descs_under p" "pr_prefix p = prefix" using reachable_inv [OF assms(1)] by auto
  have "\<exists>m. c = Metric m" if c: "c \<in> set (Collect_metrics NewConstMetric ks p)" for c
  proof -
    from c obtain key where "key \<in> set ks" and
      ckey: "c = (case fmlookup (pr_metrics p) key of
            None \<Rightarrow> InvalidMetric None []
          | Some s \<Rightarrow>
              (let desc = fmlookup (pr_descs p) (ps_name s) in
               case NewConstMetric desc (ps_value s) [ps_device s, ps_sn s] of
                 Inl err \<Rightarrow> InvalidMetric desc err
               | Inr m \<Rightarrow> Metric m))"
      by (auto simp: Collect_metrics_def)
    then obtain s where s: "fmlookup (pr_metrics p) key = Some s"
      using assms(3) by (auto simp: range_order_mem)
    obtain d where d: "fmlookup (pr_descs p) (ps_name s) = Some d" "pd_name d = ps_name s"
      "length [ps_device s, ps_sn s] = length (pd_labels d)"
      using prom_inv_sample [OF inv(1) s] by auto
    have "pd_labels d = [''device'', ''serial_number'']" using inv(1) d(1) by (auto simp: prom_inv_def)
    moreover have "prometheus_name (pd_name d)"
      using inv d assms(2) name_under_valid by (auto simp: descs_under_def)
    ultimately have "desc_accepted d" using exporter_labels by (simp add: desc_accepted_def)
    from assms(5) [OF this d(3)] assms(4) [OF s]
    obtain m where "NewConstMetric (Some d) (ps_value s) [ps_device s, ps_sn s] = Inr m" by auto
    then show ?thesis using ckey s d by auto
  qed
  then have "\<forall>c \<in> set (Collect_metrics NewConstMetric ks p). \<exists>m. c = Metric m" by blast
  then have "\<exists>ms. Collect_metrics NewConstMetric ks p = map Metric ms" by (subst ex_map_conv)
  then obtain ms where ms: "Collect_metrics NewConstMetric ks p = map Metric ms" ..
  moreover have "length (Collect_metrics NewConstMetric ks p) = go_len (pr_metrics p)"
    using assms(3) by (simp add: Collect_metrics_def range_order_length)
  ultimately show ?thesis by (metis length_map)
qed

section \<open>What the entries come from\<close>

text \<open>
  An update explains a value under a name: that of the online gauge is its online flag, that of any
  other metric is the value of a numeric parameter with that metric name.
\<close>

definition explains :: "gostring \<Rightarrow> device_update \<Rightarrow> gostring \<Rightarrow> float64 \<Rightarrow> bool" where
  "explains prefix u name v \<longleftrightarrow>
     name = prefix @ ''_online'' \<and> v = f64_of_int (dev_Online (upd_device u))
     \<or> dev_Online (upd_device u) \<noteq> 0 \<and> (\<exists>T k raw d. fmlookup (upd_params u) k = Some raw \<and> toFloat raw = (v, True)
         \<and> generateMetricName T k prefix (dev_SN (upd_device u)) = Inr (name, d))"

definition shown :: "device_update set \<Rightarrow> prom \<Rightarrow> bool" where
  "shown us p \<longleftrightarrow> (\<forall>key s. fmlookup (pr_metrics p) key = Some s \<longrightarrow>
     (\<exists>u \<in> us. \<exists>name. key = prom_key (dev_SN (upd_device u)) name \<and> explains (pr_prefix p) u name (ps_value s))
     \<and> (\<exists>u \<in> us. ps_sn s = dev_SN (upd_device u) \<and> ps_device s = dev_Name (upd_device u)))"

lemma shown_mono: "shown us p \<Longrightarrow> us \<subseteq> us' \<Longrightarrow> shown us' p"
  unfolding shown_def by (meson subsetD)

lemma setLocked_shown:
  assumes "shown us p" and "u \<in> us" and "explains (pr_prefix p) u n v"
  shows "shown us (setLocked (upd_device u) param n v p)"
  unfolding shown_def
proof (intro allI impI)
  fix key s assume s: "fmlookup (pr_metrics (setLocked (upd_device u) param n v p)) key = Some s"
  show "(\<exists>u' \<in> us. \<exists>name. key = prom_key (dev_SN (upd_device u')) name
        \<and> explains (pr_prefix (setLocked (upd_device u) param n v p)) u' name (ps_value s))
     \<and> (\<exists>u \<in> us. ps_sn s = dev_SN (upd_device u) \<and> ps_device s = dev_Name (upd_device u))"
  proof (cases "key = prom_key (dev_SN (upd_device u)) n")
    case True
    have v: "ps_value s = v" using s True by (auto simp: setLocked_metrics split: option.splits)
    have "\<exists>u \<in> us. ps_sn s = dev_SN (upd_device u) \<and> ps_device s = dev_Name (upd_device u)"
    proof (cases "fmlookup (pr_metrics p) key")
      case None
      with s True assms(2) show ?thesis by (auto simp: setLocked_metrics)
    next
      case (Some s0)
      then have "s = s0\<lparr>ps_value := v\<rparr>" using s True by (simp add: setLocked_metrics)
      with Some assms(1) show ?thesis unfolding shown_def by fastforce
    qed
    with True v assms(2,3) show ?thesis by auto
  next
    case False
    then have "fmlookup (pr_metrics p) key = Some s" using s by (simp add: setLocked_metrics)
    with assms(1) show ?thesis unfolding shown_def by simp
  qed
qed

lemma set_samples_shown:
  assumes "shown us p" and "u \<in> us"
    and "\<And>s. s \<in> set ss \<Longrightarrow> smp_numeric s \<Longrightarrow> explains (pr_prefix p) u (smp_name s) (smp_value s)"
  shows "shown us (set_samples (upd_device u) ss p)"
  using assms(3)
proof (induction ss rule: rev_induct)
  case (snoc s ss)
  have "shown us (set_samples (upd_device u) ss p)" using snoc by simp
  with snoc(2) [of s] assms(2) show ?case
    by (simp add: set_samples_snoc setLocked_shown)
qed (simp add: assms(1))

lemma drop_series_shown:
  "shown us p \<Longrightarrow> shown us (p\<lparr>pr_metrics := fst (drop_series sn on ks (pr_metrics p, d))\<rparr>)"
  by (auto simp: shown_def drop_series_lookup split: option.splits if_splits)

lemma fresh_samples_explained:
  assumes "Samples T ks prefix u = (ss, u')" and "upd_samples u = fmempty" and "s \<in> set ss" and "smp_numeric s"
    and "dev_Online (upd_device u) \<noteq> 0"
  shows "explains prefix u (smp_name s) (smp_value s)"
proof -
  have "s \<in> set (collect_samples T prefix ks u)" using assms(1-3) by (auto simp: Samples_def Let_def)
  then obtain k raw where "fmlookup (upd_params u) k = Some raw"
    "sample_of T prefix (dev_SN (upd_device u)) k raw = Some s"
    by (auto simp: collect_samples_def set_map_filter_iff bind_eq_Some_conv)
  with assms(4,5) sample_of_fields [OF this(2)] show ?thesis
    by (auto simp: explains_def intro!: exI [of _ T] exI [of _ k])
qed

lemma Handle_shown:
  assumes "shown us p" and "upd_samples u = fmempty" and "Handle e p u = (r, p', u')"
  shows "shown (insert u us) p'"
proof -
  obtain ss u1 where S: "Samples (pe_tables e) (pe_params_order e) (pr_prefix p) u = (ss, u1)" by (metis surj_pair)
  have p: "shown (insert u us) p" by (rule shown_mono [OF assms(1)]) blast
  have on: "explains (pr_prefix p) u (pr_prefix p @ ''_online'') (f64_of_int (dev_Online (upd_device u)))"
    by (simp add: explains_def)
  have "shown (insert u us) (if dev_Online (upd_device u) = 0
      then p\<lparr>pr_metrics := fst (drop_series (dev_SN (upd_device u)) (pr_prefix p @ ''_online'') (pe_metrics_order e) (pr_metrics p, 0))\<rparr>
      else set_samples (upd_device u) ss p)"
    using p drop_series_shown [OF p] set_samples_shown [OF p, of u ss] fresh_samples_explained [OF S assms(2)] by simp
  from setLocked_shown [OF this, of u] on assms(3) S show ?thesis
    by (auto simp: Handle_def Let_def split: if_splits)
qed

text \<open>When serial numbers have no underscore, the update that explains an entry is one of its device.\<close>

lemma shown_sample:
  assumes "shown us p" and "prom_inv p" and "\<And>u. u \<in> us \<Longrightarrow> plain_sn (dev_SN (upd_device u))"
    and "fmlookup (pr_metrics p) key = Some s"
  shows "\<exists>u \<in> us. dev_SN (upd_device u) = ps_sn s \<and> explains (pr_prefix p) u (ps_name s) (ps_value s)"
    and "\<exists>u \<in> us. ps_sn s = dev_SN (upd_device u) \<and> ps_device s = dev_Name (upd_device u)"
proof -
  show d: "\<exists>u \<in> us. ps_sn s = dev_SN (upd_device u) \<and> ps_device s = dev_Name (upd_device u)"
    using assms(1,4) unfolding shown_def by blast
  from assms(1,4) obtain u name where u: "u \<in> us" "key = prom_key (dev_SN (upd_device u)) name"
    "explains (pr_prefix p) u name (ps_value s)" unfolding shown_def by blast
  from d assms(3) have "plain_sn (ps_sn s)" by auto
  moreover have "prom_key (dev_SN (upd_device u)) name = prom_key (ps_sn s) (ps_name s)"
    using u(2) prom_inv_sample [OF assms(2,4)] by simp
  ultimately have "dev_SN (upd_device u) = ps_sn s \<and> name = ps_name s"
    using assms(3) [OF u(1)] by (intro prom_key_inj)
  with u(1,3) show "\<exists>u \<in> us. dev_SN (upd_device u) = ps_sn s \<and> explains (pr_prefix p) u (ps_name s) (ps_value s)" by blast
qed

text \<open>C17: No series is exposed twice: in every state the exporter can get into, two different
  entries of the map differ in the serial number or in the metric name.\<close>
theorem collect_no_duplicates:
  assumes "prom_reachable prefix p" and "range_order (pr_metrics p) ks"
  shows "distinct (map (\<lambda>key. map_option (\<lambda>s. (ps_sn s, ps_name s)) (fmlookup (pr_metrics p) key)) ks)"
proof -
  have inv: "prom_inv p" using reachable_inv [OF assms(1)] by blast
  have "inj_on (\<lambda>key. map_option (\<lambda>s. (ps_sn s, ps_name s)) (fmlookup (pr_metrics p) key)) (set ks)"
  proof (rule inj_onI)
    fix a b assume "a \<in> set ks" "b \<in> set ks" and
      eq: "map_option (\<lambda>s. (ps_sn s, ps_name s)) (fmlookup (pr_metrics p) a) =
        map_option (\<lambda>s. (ps_sn s, ps_name s)) (fmlookup (pr_metrics p) b)"
    then obtain s t where "fmlookup (pr_metrics p) a = Some s" "fmlookup (pr_metrics p) b = Some t"
      using assms(2) by (auto simp: range_order_mem)
    with eq prom_inv_sample [OF inv, of a s] prom_inv_sample [OF inv, of b t] show "a = b" by simp
  qed
  then show ?thesis using assms(2) by (simp add: distinct_map range_order_distinct)
qed

section \<open>Witnesses\<close>

definition sample_device :: "gostring \<Rightarrow> int \<Rightarrow> ecoflow_device" where
  "sample_device sn online = \<lparr>dev_SN = sn, dev_Name = ''garage'', dev_Online = online\<rparr>"

definition sample_update :: "gostring \<Rightarrow> int \<Rightarrow> device_update" where
  "sample_update sn online =
     NewDeviceUpdate 0 (sample_device sn online) (fmupd ''soc'' (VFloat64 (Fin 80)) fmempty)"

definition sample_env :: "gostring list \<Rightarrow> prom_env" where
  "sample_env ks = \<lparr>pe_tables = sample_tables, pe_params_order = [''soc''], pe_metrics_order = ks\<rparr>"

text \<open>The state after one update of the device \<open>R1\<close>.\<close>

definition sample_prom :: prom where
  "sample_prom = fst (snd (Handle (sample_env []) (NewPrometheusExporter ''ecoflow'') (sample_update ''R1'' 1)))"

lemma soc_name: "generateMetricName T ''soc'' prefix sn = Inr (prefix @ ''_soc'', sn @ ''_'' @ prefix @ ''_soc'')"
proof -
  have "snake ''soc'' = ''soc''"
    by (simp add: snake_def char_image_def upper_char_def name_char_def is_metric_name_rune_def code_def)
  then have "ecoflowParamToPrometheusMetric T ''soc'' = Inr ''soc''"
    using snake_conversion [of "''soc''" T] by (simp add: ascii_def code_def)
  then show ?thesis by (simp add: generateMetricName_def Let_def)
qed

lemma sample_update_fields [simp]:
  "upd_device (sample_update sn n) = sample_device sn n" "upd_samples (sample_update sn n) = fmempty"
  "upd_params (sample_update sn n) = fmupd ''soc'' (VFloat64 (Fin 80)) fmempty"
  "dev_SN (sample_device sn n) = sn" "dev_Online (sample_device sn n) = n"
  "dev_Name (sample_device sn n) = ''garage''"
  by (simp_all add: sample_update_def NewDeviceUpdate_def sample_device_def)

lemma sample_samples:
  "fst (Samples T [''soc''] prefix (sample_update sn n)) =
    [\<lparr>smp_param = ''soc'', smp_name = prefix @ ''_soc'', smp_raw = VFloat64 (Fin 80), smp_value = Fin 80,
      smp_numeric = True\<rparr>]"
  by (simp add: Samples_def Let_def collect_samples_def map_filter_simps sample_of_def soc_name)

lemma sample_prom_eq:
  "sample_prom =
    \<lparr>pr_prefix = ''ecoflow'',
     pr_metrics = fmupd ''R1_ecoflow_online''
         \<lparr>ps_sn = ''R1'', ps_device = ''garage'', ps_name = ''ecoflow_online'', ps_value = Fin 1\<rparr>
       (fmupd ''R1_ecoflow_soc''
         \<lparr>ps_sn = ''R1'', ps_device = ''garage'', ps_name = ''ecoflow_soc'', ps_value = Fin 80\<rparr> fmempty),
     pr_descs = fmupd ''ecoflow_online''
         \<lparr>pd_name = ''ecoflow_online'', pd_param = ''online'', pd_labels = [''device'', ''serial_number'']\<rparr>
       (fmupd ''ecoflow_soc''
         \<lparr>pd_name = ''ecoflow_soc'', pd_param = ''soc'', pd_labels = [''device'', ''serial_number'']\<rparr> fmempty)\<rparr>"
  using sample_samples [of sample_tables "''ecoflow''" "''R1''" 1]
  by (auto simp: sample_prom_def Handle_def Let_def sample_env_def NewPrometheusExporter_def set_samples_def
      setLocked_def prom_key_def split: prod.split)

lemma sample_prom_reachable: "prom_reachable ''ecoflow'' sample_prom"
proof -
  obtain r p' u' where "Handle (sample_env []) (NewPrometheusExporter ''ecoflow'') (sample_update ''R1'' 1) = (r, p', u')"
    by (metis surj_pair)
  then show ?thesis
    using prom_handle [OF prom_new] by (simp add: sample_prom_def sample_update_def)
qed

lemma sample_prom_plain: "plain_state sample_prom" "prom_inv sample_prom"
  using reachable_inv [OF sample_prom_reachable]
  by (simp_all add: plain_state_def sample_prom_eq plain_sn_def)

lemma sample_prom_order: "range_order (pr_metrics sample_prom) [''R1_ecoflow_soc'', ''R1_ecoflow_online'']"
  by (auto simp: range_order_def sample_prom_eq)

theorem offline_update_keeps_only_online_witness:
  "series sample_prom ''R1'' ''ecoflow_soc'' = Some (Fin 80) \<and>
   (\<exists>r p' u'. Handle (sample_env [''R1_ecoflow_soc'', ''R1_ecoflow_online'']) sample_prom (sample_update ''R1'' 0) = (r, p', u')
      \<and> series p' ''R1'' ''ecoflow_soc'' = None)"
proof -
  obtain r p' u' where h: "Handle (sample_env [''R1_ecoflow_soc'', ''R1_ecoflow_online'']) sample_prom
      (sample_update ''R1'' 0) = (r, p', u')" by (metis surj_pair)
  have "series p' ''R1'' ''ecoflow_soc'' = None"
    using offline_update_keeps_only_online [of sample_prom "sample_update ''R1'' 0" _ r p' u' "''ecoflow_soc''", OF _ _ _ _ _ h]
      sample_prom_plain sample_prom_order
    by (simp add: plain_sn_def sample_env_def sample_prom_eq)
  moreover have "series sample_prom ''R1'' ''ecoflow_soc'' = Some (Fin 80)"
    by (simp add: series_def sample_prom_eq prom_key_def)
  ultimately show ?thesis using h by blast
qed

theorem update_isolation_witness:
  "\<exists>r p' u'. Handle (sample_env [''R1_ecoflow_soc'', ''R1_ecoflow_online'']) sample_prom (sample_update ''R2'' 0) = (r, p', u')
      \<and> series p' ''R1'' ''ecoflow_soc'' = Some (Fin 80)"
proof -
  obtain r p' u' where h: "Handle (sample_env [''R1_ecoflow_soc'', ''R1_ecoflow_online'']) sample_prom
      (sample_update ''R2'' 0) = (r, p', u')" by (metis surj_pair)
  have "series p' ''R1'' ''ecoflow_soc'' = series sample_prom ''R1'' ''ecoflow_soc''"
    using sample_prom_plain sample_prom_order
    by (intro update_isolation [OF _ _ _ _ _ _ h]) (simp_all add: plain_sn_def sample_env_def)
  then have "series p' ''R1'' ''ecoflow_soc'' = Some (Fin 80)"
    by (simp add: series_def sample_prom_eq prom_key_def)
  with h show ?thesis by blast
qed

theorem online_update_exposes_parameter_witness:
  "\<exists>r p' u'. Handle (sample_env []) (NewPrometheusExporter ''ecoflow'') (sample_update ''R1'' 1) = (r, p', u')
     \<and> series p' ''R1'' ''ecoflow_soc'' = Some (Fin 80)"
proof -
  obtain r p' u' where h: "Handle (sample_env []) (NewPrometheusExporter ''ecoflow'') (sample_update ''R1'' 1) = (r, p', u')"
    by (metis surj_pair)
  have "series p' (dev_SN (upd_device (sample_update ''R1'' 1))) ''ecoflow_soc'' = Some (Fin 80)"
    by (rule online_update_exposes_parameter [OF _ _ _ h,
          where k = "''soc''" and raw = "VFloat64 (Fin 80)" and d = "''R1_ecoflow_soc''"])
      (auto simp: sample_env_def range_order_def soc_name NewPrometheusExporter_def split: if_splits)
  with h show ?thesis by auto
qed

text \<open>A client library for the witness: it makes the checks of the law, and refuses everything else.\<close>

definition const_metric ::
  "prom_desc option \<Rightarrow> float64 \<Rightarrow> gostring list \<Rightarrow> gostring + gostring \<times> float64 \<times> gostring list" where
  "const_metric d v ls =
    (case d of None \<Rightarrow> Inl ''nil descriptor''
     | Some d \<Rightarrow> if desc_accepted d \<and> length ls = length (pd_labels d) \<and> list_all valid_utf8 ls
                 then Inr (pd_name d, v, ls) else Inl ''bad metric'')"

theorem collect_no_duplicates_witness:
  "distinct (map (\<lambda>key. map_option (\<lambda>s. (ps_sn s, ps_name s)) (fmlookup (pr_metrics sample_prom) key))
     [''R1_ecoflow_soc'', ''R1_ecoflow_online''])"
  by (rule collect_no_duplicates [OF sample_prom_reachable sample_prom_order])

end
