(* ===== verification/Http_Server.thy ===== *)
theory Http_Server
  imports Prelude
begin

text \<open>
  \<open>http_server.go\<close>: the server with the metrics and the health check. A health check is a function
  of the state \<open>'s\<close> of the rest of the program that returns the text of an error or nothing. The
  standard library's \<open>ServeMux\<close> finds the handler of a path that needs no cleaning; listening and
  the metrics handler are parameters. The goroutine that accepts connections
  is input and output only.

  The interface \<open>health_check\<close> is what the server and the watchdog rely on: a check that reports an
  error exactly when the exporter does not work.
\<close>

section \<open>State and operations\<close>

record http_reply =
  rp_status :: int
  rp_content_type :: gostring
  rp_body :: gostring

datatype route = RouteMetrics | RouteHealth

record 's http_server =
  hs_routes :: "(gostring \<times> route) list"
  hs_address :: gostring
  hs_read_header_timeout :: duration
  hs_health :: "('s \<Rightarrow> gostring option) option"
  hs_closed :: bool

text \<open>\<open>listen\<close> returns the error of \<open>net.Listen\<close>, if any.\<close>

definition NewHTTPServer :: "(gostring \<Rightarrow> gostring option) \<Rightarrow> gostring \<Rightarrow> gostring + 's http_server" where
  "NewHTTPServer listen port =
    (case listen ('':'' @ port) of
       Some err \<Rightarrow> Inl (''cannot listen on port '' @ port @ '': '' @ err)
     | None \<Rightarrow> Inr \<lparr>hs_routes = [(''/metrics'', RouteMetrics), (''/healthz'', RouteHealth)], hs_address = '':'' @ port,
                   hs_read_header_timeout = 10 * second, hs_health = None, hs_closed = False\<rparr>)"

definition SetHealthCheck :: "('s \<Rightarrow> gostring option) \<Rightarrow> 's http_server \<Rightarrow> 's http_server" where
  "SetHealthCheck check srv = srv\<lparr>hs_health := Some check\<rparr>"

text \<open>\<open>Shutdown\<close> closes the listener first; its error is only logged.\<close>

definition Close :: "'s http_server \<Rightarrow> 's http_server" where
  "Close srv = srv\<lparr>hs_closed := True\<rparr>"

definition text_reply :: "int \<Rightarrow> gostring \<Rightarrow> http_reply" where
  "text_reply status body =
     \<lparr>rp_status = status, rp_content_type = ''text/plain; charset=utf-8'', rp_body = body @ [CHR 0x0A]\<rparr>"

definition serveHealth :: "'s \<Rightarrow> 's http_server \<Rightarrow> http_reply" where
  "serveHealth st srv =
    (case hs_health srv of
       None \<Rightarrow> text_reply 200 ''ok''
     | Some check \<Rightarrow>
         (case check st of
            Some err \<Rightarrow> text_reply 503 (''unhealthy: '' @ err)
          | None \<Rightarrow> text_reply 200 ''ok''))"

definition serve_path :: "http_reply \<Rightarrow> gostring \<Rightarrow> 's \<Rightarrow> 's http_server \<Rightarrow> http_reply" where
  "serve_path metrics path st srv =
    (case map_of (hs_routes srv) path of
       None \<Rightarrow> text_reply 404 ''404 page not found''
     | Some RouteMetrics \<Rightarrow> metrics
     | Some RouteHealth \<Rightarrow> serveHealth st srv)"

section \<open>The interface of a health check\<close>

locale health_check =
  fixes health :: "'s \<Rightarrow> gostring option" and working :: "'s \<Rightarrow> bool"
  assumes health_working: "health s = None \<longleftrightarrow> working s"
begin

lemma healthz_status: "rp_status (serveHealth s (SetHealthCheck health srv)) = (if working s then 200 else 503)"
  using health_working [of s] by (auto simp: serveHealth_def SetHealthCheck_def text_reply_def split: option.split)

lemma healthz_path:
  assumes "NewHTTPServer listen port = Inr srv"
  shows "rp_status (serve_path metrics ''/healthz'' s (SetHealthCheck health srv)) = (if working s then 200 else 503)"
proof -
  have "map_of (hs_routes (SetHealthCheck health srv)) ''/healthz'' = Some RouteHealth"
    using assms by (auto simp: NewHTTPServer_def SetHealthCheck_def split: option.splits)
  then show ?thesis using healthz_status by (simp add: serve_path_def)
qed

end

end
