(* ===== verification/Main_App.thy ===== *)
theory Main_App
  imports Config Mqtt_Runs Rest_Exporter Prometheus Http_Server
begin

text \<open>
  \<open>main.go\<close>: the interface \<open>Exporter\<close> with its two implementations, the watchdog, the start and the
  end of the application and the command that Docker uses to check its health.

  The state that a health check looks at is a \<open>world\<close>: the exporter, the time, what the client
  library knows of the connections and the text of a duration. The registration with the
  Prometheus library, listening and HTTP requests are parameters, signals are in \<open>App_System\<close>; the texts that wrap errors are
  constructors of \<open>app_error\<close>.
\<close>

section \<open>The interface Exporter\<close>

datatype 'h exporter = MqttExporter "'h mqtt" | RestExporter "'h rest"

record 'h world =
  w_exporter :: "'h exporter"
  w_now :: time
  w_later :: time
  w_open :: "mqtt_client \<Rightarrow> bool"
  w_duration :: "duration \<Rightarrow> gostring"

definition exporter_Health :: "'h world \<Rightarrow> gostring option" where
  "exporter_Health w =
    (case w_exporter w of
       MqttExporter m \<Rightarrow>
         (case mqtt_Health (w_open w) m of
            None \<Rightarrow> None
          | Some NotLoggedIn \<Rightarrow> Some ''not logged in to EcoFlow yet''
          | Some NotConnected \<Rightarrow> Some ''not connected to the EcoFlow MQTT broker'')
     | RestExporter e \<Rightarrow>
         (case rest_Health (w_now w) (w_later w) e of
            None \<Rightarrow> None
          | Some d \<Rightarrow> Some (''no successful EcoFlow REST API call for '' @ w_duration w d)))"

text \<open>What it means that an exporter can collect data.\<close>

definition exporter_working :: "'h world \<Rightarrow> bool" where
  "exporter_working w =
    (case w_exporter w of
       MqttExporter m \<Rightarrow> (case mq_client m of None \<Rightarrow> False | Some c \<Rightarrow> w_open w c)
     | RestExporter e \<Rightarrow>
         time_sub (w_now w) (if re_lastSuccess e = 0 then re_started e else re_lastSuccess e)
           \<le> max (wrap64 (3 * re_interval e)) (2 * minute))"

interpretation exporter_check: health_check exporter_Health exporter_working
  by unfold_locales
    (auto simp: exporter_Health_def exporter_working_def mqtt_Health_def rest_Health_def Let_def
      split: exporter.splits option.splits if_splits mqtt_health_error.splits)

section \<open>The watchdog\<close>

definition shutdownTimeout :: duration where "shutdownTimeout = 10 * second"
definition unhealthyExitAfter :: duration where "unhealthyExitAfter = 30 * minute"
definition watchdogInterval :: duration where "watchdogInterval = minute"

text \<open>
  What happens to the watchdog: a tick, with the readings of the clock after the check and the
  result of the check, or cancellation.
\<close>

datatype watch_event = WatchTick time time "gostring option" | WatchCancel

datatype watch_result = Watching time | WatchCancelled | WatchFailed duration gostring

fun watchdog :: "duration \<Rightarrow> watch_event list \<Rightarrow> time \<Rightarrow> watch_result" where
  "watchdog limit [] failingSince = Watching failingSince"
| "watchdog limit (WatchCancel # events) failingSince = WatchCancelled"
| "watchdog limit (WatchTick now later err # events) failingSince =
    (case err of
       None \<Rightarrow> watchdog limit events 0
     | Some e \<Rightarrow>
         if failingSince = 0 then watchdog limit events now
         else if time_sub now failingSince > limit
         then WatchFailed (duration_round (time_sub later failingSince) second) e
         else watchdog limit events failingSince)"

section \<open>createExporter\<close>

definition createExporter :: "Config \<Rightarrow> telemetry_ptr \<Rightarrow> 'h list \<Rightarrow> mqtt_config_error + 'h exporter" where
  "createExporter cfg telemetry handlers =
    (if ExporterType cfg = ''mqtt'' then
       (case NewMqttMetricsExporter
          \<lparr>mc_Email = Email (Mqtt cfg), mc_Password = Password (Mqtt cfg), mc_Devices = Devices cfg,
           mc_OfflineThreshold = OfflineThreshold (Mqtt cfg), mc_PingInterval = PingInterval (Mqtt cfg),
           mc_StateRefreshInterval = StateRefreshInterval (Mqtt cfg), mc_ProtobufDebug = ProtobufDebug cfg,
           mc_Telemetry = telemetry\<rparr> handlers of
          Inl err \<Rightarrow> Inl err
        | Inr m \<Rightarrow> Inr (MqttExporter m))
     else
       Inr (RestExporter (NewRestMetricsExporter
         \<lparr>rc_Interval = Interval (Rest cfg), rc_Devices = Devices cfg, rc_Telemetry = telemetry\<rparr> handlers)))"

section \<open>run and main\<close>

datatype app_error =
    AppConfig "config_error list"
  | AppPrometheus gostring
  | AppExporter mqtt_config_error
  | AppListen gostring
  | AppUnhealthy duration gostring
  | AppCanceled

record app =
  app_config :: Config
  app_gatherers :: "unit gatherer list"
  app_exporter :: "prom exporter"
  app_server :: "prom world http_server"

text \<open>The first part of \<open>run\<close>, until the exporter runs.\<close>

definition start_app ::
  "unicode_tables \<Rightarrow> ((gostring, gostring) fmap \<Rightarrow> gostring list) \<Rightarrow> env \<Rightarrow> gostring \<Rightarrow> (prom \<Rightarrow> gostring option)
     \<Rightarrow> (gostring \<Rightarrow> gostring option) \<Rightarrow> app_error + app"
where
  "start_app T order e version register listen =
    (case LoadConfig T order e of
       Inl errs \<Rightarrow> Inl (AppConfig errs)
     | Inr cfg \<Rightarrow>
         (let telemetry = NewTelemetry (MetricPrefix cfg) version in
          case create_prometheus () register \<lparr>pc_Prefix = MetricPrefix cfg, pc_Gatherer = None\<rparr> of
            Inl err \<Rightarrow> Inl (AppPrometheus err)
          | Inr (prom, gatherers) \<Rightarrow>
              (case createExporter cfg telemetry [prom] of
                 Inl err \<Rightarrow> Inl (AppExporter err)
               | Inr ex \<Rightarrow>
                   (case NewHTTPServer listen (Port cfg) of
                      Inl err \<Rightarrow> Inl (AppListen err)
                    | Inr srv \<Rightarrow>
                        Inr \<lparr>app_config = cfg, app_gatherers = gatherers, app_exporter = ex,
                             app_server = SetHealthCheck exporter_Health srv\<rparr>))))"

text \<open>What a start that succeeds has gone through.\<close>

lemma start_app_parts:
  assumes "start_app T order e version register listen = Inr app"
  shows "LoadConfig T order e = Inr (app_config app)"
    "createExporter (app_config app) (NewTelemetry (MetricPrefix (app_config app)) version)
       [NewPrometheusExporter (MetricPrefix (app_config app))] = Inr (app_exporter app)"
    "\<exists>srv. NewHTTPServer listen (Port (app_config app)) = Inr srv \<and> app_server app = SetHealthCheck exporter_Health srv"
    "app_gatherers app = [Gatherer (), DeviceRegistry]"
  using assms by (auto simp: start_app_def create_prometheus_def Let_def split: sum.splits option.splits)

text \<open>
  The last part, when the exporter has returned \<open>err\<close>: \<open>signalled\<close> says whether the context of the
  signals is done, \<open>cause\<close> is the cause of the context of the exporter. A signal cancels it with
  \<open>context.Canceled\<close>, the watchdog with its error.
\<close>

definition run_end :: "bool \<Rightarrow> app_error option \<Rightarrow> app_error option \<Rightarrow> app_error option" where
  "run_end signalled cause err =
    (if signalled then err
     else (case cause of Some e \<Rightarrow> Some e | None \<Rightarrow> err))"

text \<open>\<open>runHealthcheck\<close>: \<open>get\<close> is the HTTP client.\<close>

definition runHealthcheck :: "(gostring \<Rightarrow> gostring + http_reply) \<Rightarrow> env \<Rightarrow> int" where
  "runHealthcheck get e =
    (case get (''http://127.0.0.1:'' @ env_str ''PROMETHEUS_PORT'' defaultPort e @ ''/healthz'') of
       Inl err \<Rightarrow> 1
     | Inr reply \<Rightarrow> if rp_status reply \<noteq> 200 then 1 else 0)"

text \<open>The exit code of \<open>main\<close>.\<close>

definition main_exit :: "gostring list \<Rightarrow> int \<Rightarrow> app_error option \<Rightarrow> int" where
  "main_exit args healthcheck run_error =
    (if length args > 1 \<and> args ! 1 = ''healthcheck'' then healthcheck
     else if run_error \<noteq> None then 1 else 0)"

section \<open>Outages\<close>

text \<open>
  Checks of the health: the reading of the clock after the check, that for the message, and the
  state that is checked. An outage is a run of checks that all fail; it is too long when more than
  the limit lies between the first and the last of them.
\<close>

context health_check
begin

definition ticks :: "(time \<times> time \<times> 's) list \<Rightarrow> watch_event list" where
  "ticks cs = map (\<lambda>(now, later, st). WatchTick now later (health st)) cs"

fun fails_for :: "duration \<Rightarrow> time \<Rightarrow> (time \<times> time \<times> 's) list \<Rightarrow> bool" where
  "fails_for limit since [] = False"
| "fails_for limit since ((now, later, st) # cs) =
    (\<not> working st \<and> (now - since > limit \<or> fails_for limit since cs))"

fun long_outage :: "duration \<Rightarrow> (time \<times> time \<times> 's) list \<Rightarrow> bool" where
  "long_outage limit [] = False"
| "long_outage limit ((now, later, st) # cs) =
    (\<not> working st \<and> fails_for limit now cs \<or> long_outage limit cs)"

lemma fails_for_mono: "fails_for limit since cs \<Longrightarrow> since' \<le> since \<Longrightarrow> fails_for limit since' cs"
  by (induction cs) auto

lemma fails_for_split:
  "fails_for limit since cs \<longleftrightarrow>
    (\<exists>ys zs. cs = ys @ zs \<and> ys \<noteq> [] \<and> (\<forall>(now, later, st) \<in> set ys. \<not> working st) \<and> fst (last ys) - since > limit)"
    (is "_ \<longleftrightarrow> (\<exists>ys zs. ?split cs ys zs)")
proof (induction cs)
  case (Cons c cs)
  obtain now later st where c: "c = (now, later, st)" by (cases c)
  show ?case
  proof
    assume "fails_for limit since (c # cs)"
    then have w: "\<not> working st" and "now - since > limit \<or> (\<exists>ys zs. ?split cs ys zs)"
      using Cons c by auto
    then consider "now - since > limit" | ys zs where "?split cs ys zs" by blast
    then show "\<exists>ys zs. ?split (c # cs) ys zs"
    proof cases
      case 1
      with w c show ?thesis by (intro exI [of _ "[c]"] exI [of _ cs]) simp
    next
      case 2
      with w c show ?thesis by (intro exI [of _ "c # ys"] exI [of _ zs]) auto
    qed
  next
    assume "\<exists>ys zs. ?split (c # cs) ys zs"
    then obtain ys zs where s: "?split (c # cs) ys zs" by blast
    then obtain ys' where ys: "ys = c # ys'" "cs = ys' @ zs" by (cases ys) auto
    show "fails_for limit since (c # cs)"
    proof (cases "ys' = []")
      case True
      with s ys c show ?thesis by simp
    next
      case False
      with s ys c have "?split cs ys' zs" by auto
      then have "fails_for limit since cs" using Cons by blast
      with s ys c show ?thesis by auto
    qed
  qed
qed simp

lemma long_outage_split:
  assumes "0 \<le> limit"
  shows "long_outage limit cs \<longleftrightarrow>
    (\<exists>xs ys zs. cs = xs @ ys @ zs \<and> ys \<noteq> [] \<and> (\<forall>(now, later, st) \<in> set ys. \<not> working st)
       \<and> fst (last ys) - fst (hd ys) > limit)" (is "_ \<longleftrightarrow> (\<exists>xs ys zs. ?split cs xs ys zs)")
proof (induction cs)
  case (Cons c cs)
  obtain now later st where c: "c = (now, later, st)" by (cases c)
  show ?case
  proof
    assume "long_outage limit (c # cs)"
    then consider "\<not> working st" "fails_for limit now cs" | xs ys zs where "?split cs xs ys zs"
      using Cons c by auto
    then show "\<exists>xs ys zs. ?split (c # cs) xs ys zs"
    proof cases
      case 1
      then obtain ys zs where "cs = ys @ zs" "ys \<noteq> []" "\<forall>(now, later, st) \<in> set ys. \<not> working st"
        "fst (last ys) - now > limit" unfolding fails_for_split by blast
      with 1(1) c show ?thesis by (intro exI [of _ "[]"] exI [of _ "c # ys"] exI [of _ zs]) auto
    next
      case 2
      then show ?thesis by (intro exI [of _ "c # xs"] exI [of _ ys] exI [of _ zs]) simp
    qed
  next
    assume "\<exists>xs ys zs. ?split (c # cs) xs ys zs"
    then obtain xs ys zs where s: "?split (c # cs) xs ys zs" by blast
    show "long_outage limit (c # cs)"
    proof (cases xs)
      case Nil
      with s obtain ys' where ys: "ys = c # ys'" "cs = ys' @ zs" by (cases ys) auto
      with s assms c have "ys' \<noteq> []" by auto
      with s ys c have "fails_for limit now cs" unfolding fails_for_split
        by (intro exI [of _ ys'] exI [of _ zs]) auto
      with s ys c show ?thesis by auto
    next
      case (Cons x xs')
      with s have "?split cs xs' ys zs" by simp
      then show ?thesis using \<open>long_outage limit cs \<longleftrightarrow> _\<close> c by auto
    qed
  qed
qed simp

text \<open>The watchdog gives up exactly when it has seen an outage that is too long.\<close>

lemma watchdog_fails_iff:
  assumes "0 \<le> limit" "limit < 2 ^ 63 - 1" and "sorted (map fst cs)" and "\<forall>c \<in> set cs. 0 < fst c"
    and "since = 0 \<or> (0 < since \<and> (\<forall>c \<in> set cs. since \<le> fst c))"
  shows "(\<exists>d e. watchdog limit (ticks cs) since = WatchFailed d e) \<longleftrightarrow>
    long_outage limit cs \<or> since \<noteq> 0 \<and> fails_for limit since cs"
  using assms(3-5)
proof (induction cs arbitrary: since)
  case Nil
  then show ?case by (simp add: ticks_def)
next
  case (Cons c cs)
  obtain now later st where c: "c = (now, later, st)" by (cases c)
  have prems: "sorted (map fst cs)" "\<forall>c \<in> set cs. 0 < fst c" "\<forall>c \<in> set cs. now \<le> fst c" "0 < now"
    using Cons.prems c by auto
  note IH = Cons.IH [OF prems(1,2)]
  have gt: "time_sub now since > limit \<longleftrightarrow> now - since > limit"
    using assms(1,2) by (intro time_sub_gt_iff) auto
  show ?case
  proof (cases "health st")
    case None
    then have "working st" using health_working by blast
    with None c IH [of 0] show ?thesis by (simp add: ticks_def)
  next
    case (Some e)
    then have w: "\<not> working st" using health_working by force
    show ?thesis
    proof (cases "since = 0")
      case True
      with Some c w IH [of now] prems(3,4) show ?thesis by (auto simp: ticks_def)
    next
      case False
      with Cons.prems c have since: "0 < since" "since \<le> now" "\<forall>c \<in> set cs. since \<le> fst c" by auto
      show ?thesis
      proof (cases "now - since > limit")
        case True
        with Some c w False gt show ?thesis by (simp add: ticks_def)
      next
        case f: False
        have "fails_for limit now cs \<Longrightarrow> fails_for limit since cs" using since(2) fails_for_mono by blast
        with f Some c w False gt IH [of since] since show ?thesis by (auto simp: ticks_def)
      qed
    qed
  qed
qed

lemma watchdog_outage:
  assumes "0 \<le> limit" "limit < 2 ^ 63 - 1" and "sorted (map fst cs)" and "\<forall>c \<in> set cs. 0 < fst c"
  shows "(\<exists>d e. watchdog limit (ticks cs) 0 = WatchFailed d e) \<longleftrightarrow>
    (\<exists>xs ys zs. cs = xs @ ys @ zs \<and> ys \<noteq> [] \<and> (\<forall>(now, later, st) \<in> set ys. \<not> working st)
       \<and> fst (last ys) - fst (hd ys) > limit)"
  using watchdog_fails_iff [OF assms, of 0] long_outage_split [OF assms(1)] by simp

end

section \<open>Properties\<close>

text \<open>C26: The watchdog stops the exporter exactly when it has seen it fail for too long: some run of
  consecutive checks, of which none found the exporter able to collect data, lasts longer than
  thirty minutes from its first to its last check. A single successful check in between prevents it.\<close>
theorem watchdog_stops_after_outage:
  assumes "sorted (map fst cs)" and "\<forall>c \<in> set cs. 0 < fst c"
  shows "(\<exists>d e. watchdog unhealthyExitAfter
            (map (\<lambda>(now, later, w). WatchTick now later (exporter_Health w)) cs) 0 = WatchFailed d e) \<longleftrightarrow>
    (\<exists>xs ys zs. cs = xs @ ys @ zs \<and> ys \<noteq> [] \<and> (\<forall>(now, later, w) \<in> set ys. \<not> exporter_working w)
       \<and> fst (last ys) - fst (hd ys) > 30 * minute)"
  using exporter_check.watchdog_outage [OF _ _ assms, of unhealthyExitAfter]
  by (simp add: exporter_check.ticks_def unhealthyExitAfter_def)

text \<open>C27: The health check of the container agrees with the exporter: when the application has
  started and the requests to the local address reach its server, \<open>healthcheck\<close> exits with 0
  exactly when the exporter can collect data, whatever port is configured.\<close>
theorem healthcheck_agrees:
  assumes "start_app T order e version register listen = Inr app"
    and "\<And>path. get (''http://127.0.0.1'' @ hs_address (app_server app) @ path) =
      Inr (serve_path metrics path w (app_server app))"
  shows "runHealthcheck get e = (if exporter_working w then 0 else 1)"
proof -
  note load = start_app_parts(1) [OF assms(1)]
  obtain srv where srv: "NewHTTPServer listen (Port (app_config app)) = Inr srv"
    and app: "app_server app = SetHealthCheck exporter_Health srv"
    using start_app_parts(3) [OF assms(1)] by blast
  have address: "hs_address (app_server app) = '':'' @ env_str ''PROMETHEUS_PORT'' defaultPort e"
    using srv LoadConfig_port [OF load] app by (auto simp: NewHTTPServer_def SetHealthCheck_def split: option.splits)
  have "get (''http://127.0.0.1:'' @ env_str ''PROMETHEUS_PORT'' defaultPort e @ ''/healthz'') =
      Inr (serve_path metrics ''/healthz'' w (app_server app))"
    using assms(2) [of "''/healthz''"] by (simp add: address)
  then show ?thesis
    using exporter_check.healthz_path [OF srv, of metrics w] by (simp add: runHealthcheck_def app)
qed

text \<open>C28: Every configuration that loads starts an exporter, unless a number of seconds which the
  environment states for one of the three MQTT durations is so big that the duration overflows (only
  then: that the numbers are positive is what loading has checked): the checks of the
  configuration and of the constructor agree.\<close>
theorem loaded_config_starts_exporter:
  assumes "LoadConfig T order e = Inr cfg" and "handlers \<noteq> []"
    and "ExporterType cfg = ''mqtt'' \<Longrightarrow>
      stated_fits ''MQTT_DEVICE_OFFLINE_THRESHOLD_SECONDS'' defaultOfflineThresholdSeconds e
      \<and> stated_fits ''MQTT_PING_INTERVAL_SECONDS'' defaultPingIntervalSeconds e
      \<and> stated_fits ''MQTT_STATE_REFRESH_INTERVAL_SECONDS'' defaultStateRefreshIntervalSeconds e"
  shows "\<exists>ex. createExporter cfg telemetry handlers = Inr ex"
  using LoadConfig_valid_aux [OF assms(1)] assms(2,3)
  by (auto simp: createExporter_def NewMqttMetricsExporter_def config_valid_def mqtt_durations_def go_len_zero_iff
      not_le duration_from_pos dest!: duration_from_pos)

text \<open>C29: A huge number of seconds passes the validation of the configuration and then ends the
  program with a panic: it loads as a negative interval, for which \<open>Run\<close> of the REST exporter
  cannot make its ticker.\<close>
theorem overflowing_interval_panics:
  "\<exists>cfg rcfg s. LoadConfig T order (rest_env ''9223372037'') = Inr cfg
     \<and> createExporter cfg telemetry handlers = Inr (RestExporter (NewRestMetricsExporter rcfg handlers))
     \<and> rest_reachable H rcfg handlers s \<and> rs_pc s = RestPanicked"
proof -
  obtain cfg where cfg: "LoadConfig T order (rest_env ''9223372037'') = Inr cfg"
    "Interval (Rest cfg) = - 9223372036709551616" "ExporterType cfg = ''rest''"
    using overflow_load [of T order] by blast
  let ?r = "\<lparr>rc_Interval = Interval (Rest cfg), rc_Devices = Devices cfg, rc_Telemetry = telemetry\<rparr>"
  have "createExporter cfg telemetry handlers = Inr (RestExporter (NewRestMetricsExporter ?r handlers))"
    using cfg(3) by (simp add: createExporter_def)
  moreover have "\<exists>s. rest_reachable H ?r handlers s \<and> rs_pc s = RestPanicked"
    using cfg(2) by (simp add: rest_panics)
  ultimately show ?thesis using cfg(1) by blast
qed

section \<open>Witnesses\<close>

definition sample_world :: "bool \<Rightarrow> unit world" where
  "sample_world up =
     \<lparr>w_exporter = MqttExporter sample_mqtt, w_now = 0, w_later = 0, w_open = (\<lambda>c. up), w_duration = (\<lambda>d. [])\<rparr>"

lemma sample_working: "exporter_working (sample_world up) \<longleftrightarrow> up"
  by (simp add: exporter_working_def sample_world_def sample_mqtt_def)

theorem watchdog_stops_after_outage_witness:
  "\<exists>d e. watchdog unhealthyExitAfter
     (map (\<lambda>(now, later, w). WatchTick now later (exporter_Health w))
        [(minute, minute, sample_world True), (2 * minute, 2 * minute, sample_world False),
         (40 * minute, 40 * minute, sample_world False)]) 0 = WatchFailed d e"
proof -
  let ?cs = "[(minute, minute, sample_world True), (2 * minute, 2 * minute, sample_world False),
         (40 * minute, 40 * minute, sample_world False)]"
  have "\<exists>xs ys zs. ?cs = xs @ ys @ zs \<and> ys \<noteq> [] \<and> (\<forall>(now, later, w) \<in> set ys. \<not> exporter_working w)
       \<and> fst (last ys) - fst (hd ys) > 30 * minute"
    by (intro exI [of _ "take 1 ?cs"] exI [of _ "drop 1 ?cs"] exI [of _ "[]"]) (simp add: sample_working)
  moreover have "sorted (map fst ?cs)" "\<forall>c \<in> set ?cs. 0 < fst c" by simp_all
  ultimately show ?thesis using watchdog_stops_after_outage [of ?cs] by blast
qed

definition sample_app_world :: "prom world" where
  "sample_app_world =
     \<lparr>w_exporter = RestExporter (NewRestMetricsExporter
        \<lparr>rc_Interval = 30 * second, rc_Devices = fmempty, rc_Telemetry = None\<rparr> [NewPrometheusExporter ''ecoflow'']),
      w_now = minute, w_later = minute, w_open = (\<lambda>c. False), w_duration = (\<lambda>d. [])\<rparr>"

theorem healthcheck_agrees_witness:
  "\<exists>app. start_app sample_tables (\<lambda>m. []) (rest_env ''30'') ''dev'' (\<lambda>p. None) (\<lambda>a. None) = Inr app
     \<and> runHealthcheck (\<lambda>url. Inr (serve_path (text_reply 200 ''m'') (drop (length (''http://127.0.0.1'' @ hs_address (app_server app))) url)
          sample_app_world (app_server app))) (rest_env ''30'') = 0"
proof -
  obtain cfg where cfg: "LoadConfig sample_tables (\<lambda>m. []) (rest_env ''30'') = Inr cfg" "ExporterType cfg = ''rest''"
    using rest_env_load [OF interval_30(1) _ interval_30(2), of sample_tables "\<lambda>m. []"] by auto
  then obtain app where app: "start_app sample_tables (\<lambda>m. []) (rest_env ''30'') ''dev'' (\<lambda>p. None) (\<lambda>a. None) = Inr app"
    by (auto simp: start_app_def create_prometheus_def Let_def createExporter_def NewHTTPServer_def)
  have "exporter_working sample_app_world"
    by (simp add: exporter_working_def sample_app_world_def NewRestMetricsExporter_def time_sub_def)
  then have "runHealthcheck (\<lambda>url. Inr (serve_path (text_reply 200 ''m'') (drop (length (''http://127.0.0.1'' @ hs_address (app_server app))) url)
          sample_app_world (app_server app))) (rest_env ''30'') = 0"
    by (subst healthcheck_agrees [OF app, where metrics = "text_reply 200 ''m''" and w = sample_app_world]) simp_all
  with app show ?thesis by blast
qed

theorem loaded_config_starts_exporter_witness:
  "\<exists>cfg m. LoadConfig sample_tables (\<lambda>m. []) (mqtt_env ''R1'' ''30'') = Inr cfg
     \<and> createExporter cfg None [()] = Inr (MqttExporter m) \<and> mq_devices m = fmupd ''R1'' ''R1'' fmempty"
proof -
  let ?e = "mqtt_env ''R1'' ''30''"
  have "trim_space ''R1'' = ''R1''" by (simp add: trim_plain code_def)
  then obtain cfg where cfg: "LoadConfig sample_tables (\<lambda>m. []) ?e = Inr cfg" "ExporterType cfg = ''mqtt''"
    "Devices cfg = fmupd ''R1'' ''R1'' fmempty"
    using mqtt_env_load [OF _ _ _ interval_30(1) _ interval_30(2), of "''R1''" sample_tables "\<lambda>m. []"] by auto
  have fits: "stated_fits ''MQTT_DEVICE_OFFLINE_THRESHOLD_SECONDS'' defaultOfflineThresholdSeconds ?e"
    "stated_fits ''MQTT_PING_INTERVAL_SECONDS'' defaultPingIntervalSeconds ?e"
    "stated_fits ''MQTT_STATE_REFRESH_INTERVAL_SECONDS'' defaultStateRefreshIntervalSeconds ?e"
    by (simp_all add: stated_fits_def stated_seconds_def mqtt_env_def newEnv_def interval_30
        defaultOfflineThresholdSeconds_def defaultStateRefreshIntervalSeconds_def)
  have "\<exists>ex. createExporter cfg None [()] = Inr ex"
    by (rule loaded_config_starts_exporter [OF cfg(1)]) (simp_all add: fits)
  with cfg show ?thesis
    by (auto simp: createExporter_def NewMqttMetricsExporter_def split: if_splits)
qed

end
