(* ===== verification/App_System.thy ===== *)
theory App_System
  imports Main_App
begin

text \<open>
  \<open>main.go\<close>, the running application: the exporter, the watchdog and the signals run concurrently
  once \<open>start_app\<close> has succeeded, and end when the exporter returns. A signal cancels the context
  \<open>ctx\<close> and with it \<open>runCtx\<close>, the watchdog cancels only \<open>runCtx\<close>; the first of them is its cause.

  The exporter does the steps of its own theory, except that only the application cancels it. What
  the watchdog has checked is kept in \<open>ar_checks\<close>, oldest first.
\<close>

section \<open>The running exporter\<close>

datatype exporter_run = RunMqtt "prom mqtt_system" | RunRest "prom rest_system"

fun exporter_Run :: "time \<Rightarrow> prom exporter \<Rightarrow> exporter_run" where
  "exporter_Run now (MqttExporter m) = RunMqtt (mqtt_Run now m)"
| "exporter_Run now (RestExporter e) = RunRest (rest_Run now e)"

fun run_exporter :: "exporter_run \<Rightarrow> prom exporter" where
  "run_exporter (RunMqtt s) = MqttExporter (sys_mqtt s)"
| "run_exporter (RunRest s) = RestExporter (rs_rest s)"

fun run_handlers :: "exporter_run \<Rightarrow> prom list" where
  "run_handlers (RunMqtt s) = mq_handlers (sys_mqtt s)"
| "run_handlers (RunRest s) = re_handlers (rs_rest s)"

fun run_now :: "exporter_run \<Rightarrow> time" where
  "run_now (RunMqtt s) = sys_now s"
| "run_now (RunRest s) = rs_now s"

fun run_cancelled :: "exporter_run \<Rightarrow> bool" where
  "run_cancelled (RunMqtt s) = sys_cancelled s"
| "run_cancelled (RunRest s) = rs_cancelled s"

fun cancel_run :: "exporter_run \<Rightarrow> exporter_run" where
  "cancel_run (RunMqtt s) = RunMqtt (s\<lparr>sys_cancelled := True\<rparr>)"
| "cancel_run (RunRest s) = RunRest (s\<lparr>rs_cancelled := True\<rparr>)"

text \<open>\<open>Run\<close> has returned; both exporters return no error.\<close>

fun run_returned :: "exporter_run \<Rightarrow> bool" where
  "run_returned (RunMqtt s) = (sys_session s = SesDone)"
| "run_returned (RunRest s) = (rs_pc s = RestDone)"

text \<open>
  A panic of one of its goroutines ends the program: a nil client or a ticker that cannot be made, after
  which no step follows, or a call on the metrics of the exporter that is refused, which the
  telemetry remembers.
\<close>

fun run_crashed :: "exporter_run \<Rightarrow> bool" where
  "run_crashed (RunMqtt s) = sys_crashed s"
| "run_crashed (RunRest s) = (rs_pc s = RestPanicked)"

fun run_telemetry :: "exporter_run \<Rightarrow> telemetry_ptr" where
  "run_telemetry (RunMqtt s) = mq_telemetry (sys_mqtt s)"
| "run_telemetry (RunRest s) = re_telemetry (rs_rest s)"

definition run_panicked :: "exporter_run \<Rightarrow> bool" where
  "run_panicked ex \<longleftrightarrow> run_crashed ex \<or> telemetry_panicked (run_telemetry ex)"

inductive exporter_step :: "exporter_run \<Rightarrow> exporter_run \<Rightarrow> bool" where
  mqtt_goes: "mqtt_step Handle s t \<Longrightarrow> exporter_step (RunMqtt s) (RunMqtt t)"
| rest_goes: "rest_step Handle s t \<Longrightarrow> exporter_step (RunRest s) (RunRest t)"

section \<open>The running application\<close>

text \<open>
  Where the goroutine of the watchdog is: at its \<open>select\<close>, between the check and the reading of the
  clock, between the end of \<open>watchdog\<close> and the cancellation, or at its end.
\<close>

datatype watch_pc =
    WatchSelect time
  | WatchChecked time "prom world"
  | WatchError app_error
  | WatchEnd

record app_run =
  ar_exporter :: exporter_run
  ar_signalled :: bool
  ar_cause :: "app_error option"
  ar_ticker :: ticker
  ar_watch :: watch_pc
  ar_checks :: "(time \<times> time \<times> prom world) list"
  ar_server :: "prom world http_server"
  ar_result :: "app_error option option"

definition app_Run :: "time \<Rightarrow> app \<Rightarrow> app_run" where
  "app_Run now app =
     \<lparr>ar_exporter = exporter_Run now (app_exporter app), ar_signalled = False, ar_cause = None,
      ar_ticker = NewTicker now watchdogInterval, ar_watch = WatchSelect 0, ar_checks = [],
      ar_server = app_server app, ar_result = None\<rparr>"

text \<open>\<open>cancel(cause)\<close>: only the first cause is kept.\<close>

definition cancel_cause :: "app_error \<Rightarrow> app_run \<Rightarrow> app_run" where
  "cancel_cause err s =
     s\<lparr>ar_cause := (case ar_cause s of None \<Rightarrow> Some err | Some e \<Rightarrow> Some e),
       ar_exporter := cancel_run (ar_exporter s)\<rparr>"

text \<open>One round of the loop of \<open>watchdog\<close>, after the check.\<close>

definition watch_round :: "time \<Rightarrow> time \<Rightarrow> time \<Rightarrow> gostring option \<Rightarrow> watch_pc" where
  "watch_round now later since err =
     (case watchdog unhealthyExitAfter [WatchTick now later err] since of
        Watching t \<Rightarrow> WatchSelect t
      | WatchFailed d e \<Rightarrow> WatchError (AppUnhealthy d e)
      | WatchCancelled \<Rightarrow> WatchEnd)"

inductive app_action :: "app_run \<Rightarrow> app_run \<Rightarrow> bool" where
  exporter_goes:
    "exporter_step (ar_exporter s) ex \<Longrightarrow> run_cancelled ex = run_cancelled (ar_exporter s) \<Longrightarrow>
     app_action s (s\<lparr>ar_exporter := ex\<rparr>)"
| signal:
    "app_action s (cancel_cause AppCanceled (s\<lparr>ar_signalled := True\<rparr>))"
| watch_ticker_fires:
    "tk_next (ar_ticker s) \<le> run_now (ar_exporter s) \<Longrightarrow>
     app_action s (s\<lparr>ar_ticker := ticker_fire (ar_ticker s)\<rparr>)"
| watch_check:
    "ar_watch s = WatchSelect since \<Longrightarrow> tk_pending (ar_ticker s) \<Longrightarrow>
     w_exporter w = run_exporter (ar_exporter s) \<Longrightarrow> w_now w = run_now (ar_exporter s) \<Longrightarrow> w_now w \<le> w_later w \<Longrightarrow>
     app_action s (s\<lparr>ar_ticker := ticker_take (ar_ticker s), ar_watch := WatchChecked since w\<rparr>)"
| watch_decide:
    "ar_watch s = WatchChecked since w \<Longrightarrow> run_now (ar_exporter s) \<le> later \<Longrightarrow>
     app_action s
       (s\<lparr>ar_watch := watch_round (run_now (ar_exporter s)) later since (exporter_Health w),
          ar_checks := ar_checks s @ [(run_now (ar_exporter s), later, w)]\<rparr>)"
| watch_cancelled:
    "ar_watch s = WatchSelect since \<Longrightarrow> run_cancelled (ar_exporter s) \<Longrightarrow>
     app_action s (s\<lparr>ar_watch := WatchEnd\<rparr>)"
| watch_cancels:
    "ar_watch s = WatchError err \<Longrightarrow> app_action s (cancel_cause err (s\<lparr>ar_watch := WatchEnd\<rparr>))"
| run_returns:
    "run_returned (ar_exporter s) \<Longrightarrow>
     app_action s
       (s\<lparr>ar_result := Some (run_end (ar_signalled s) (ar_cause s) None), ar_server := Close (ar_server s)\<rparr>)"

text \<open>Nothing happens after \<open>run\<close> has returned or a goroutine has crashed.\<close>

definition app_step :: "app_run \<Rightarrow> app_run \<Rightarrow> bool" where
  "app_step s t \<longleftrightarrow> ar_result s = None \<and> \<not> run_crashed (ar_exporter s) \<and> app_action s t"

definition app_reachable :: "app \<Rightarrow> app_run \<Rightarrow> bool" where
  "app_reachable app s \<longleftrightarrow> (\<exists>now. 0 < now \<and> app_step\<^sup>*\<^sup>* (app_Run now app) s)"

section \<open>What the application relies on\<close>

text \<open>
  The contract of \<open>Run\<close>: time does not go back, a cancelled context stays cancelled, \<open>Run\<close> returns
  only when it is cancelled and can always return then, and it does not crash.
\<close>

locale runnable =
  fixes step :: "'s \<Rightarrow> 's \<Rightarrow> bool" and now :: "'s \<Rightarrow> time" and cancelled returned panicked :: "'s \<Rightarrow> bool"
    and cancel :: "'s \<Rightarrow> 's" and inv :: "'s \<Rightarrow> bool"
  assumes step_inv: "inv s \<Longrightarrow> step s t \<Longrightarrow> inv t"
    and step_now: "step s t \<Longrightarrow> now s \<le> now t"
    and step_cancelled: "step s t \<Longrightarrow> cancelled s \<Longrightarrow> cancelled t"
    and cancel_step: "inv s \<Longrightarrow> step s (cancel s)"
    and cancel_cancelled: "cancelled (cancel s)" "now (cancel s) = now s"
    and returned_cancelled: "inv s \<Longrightarrow> returned s \<Longrightarrow> cancelled s"
    and not_panicked: "inv s \<Longrightarrow> \<not> panicked s"
    and can_return: "inv s \<Longrightarrow> cancelled s \<Longrightarrow> \<exists>t. step\<^sup>*\<^sup>* s t \<and> returned t"
begin

lemma cancel_inv: "inv s \<Longrightarrow> inv (cancel s)"
  using step_inv cancel_step by blast

text \<open>It returns without being cancelled again.\<close>

lemma returns_quietly:
  assumes "inv s" and "cancelled s"
  shows "\<exists>t. (\<lambda>s t. step s t \<and> cancelled t = cancelled s)\<^sup>*\<^sup>* s t \<and> returned t \<and> inv t"
proof -
  obtain t where "step\<^sup>*\<^sup>* s t" "returned t" using can_return [OF assms] by blast
  moreover from this(1) assms have "(\<lambda>s t. step s t \<and> cancelled t = cancelled s)\<^sup>*\<^sup>* s t \<and> inv t \<and> cancelled t"
  proof (induction rule: rtranclp_induct)
    case (step y z)
    then have y: "inv y" "cancelled y" "(\<lambda>s t. step s t \<and> cancelled t = cancelled s)\<^sup>*\<^sup>* s y" by blast+
    then have "step y z \<and> cancelled z = cancelled y" using step.hyps(2) step_cancelled by blast
    with y show ?case using step_inv rtranclp.rtrancl_into_rtrancl [OF y(3)] by blast
  qed simp
  ultimately show ?thesis by blast
qed

end

text \<open>The MQTT exporter.\<close>

lemma mqtt_step_frame:
  assumes "mqtt_step H s t"
  shows "sys_now s \<le> sys_now t \<and> (sys_cancelled s \<longrightarrow> sys_cancelled t)
    \<and> (sys_session t = SesDone \<longrightarrow> sys_session s = SesDone \<or> sys_cancelled s)"
  using assms
proof (cases rule: mqtt_step.cases)
  case session
  from session(2) show ?thesis by (cases rule: session_step.cases) (auto simp: sys_do_def)
next
  case monitor
  from monitor(2) show ?thesis by (cases rule: monitor_step.cases) (auto simp: sys_do_def elim!: forceReconnect.cases)
next
  case ping
  from ping(2) show ?thesis by (cases rule: ping_step.cases) (auto simp: sys_do_def)
next
  case other
  from other(2) show ?thesis by (cases rule: other_step.cases) (auto simp: sys_do_def)
qed

lemma mqtt_steps_star: "mqtt_steps H s t \<Longrightarrow> (mqtt_step H)\<^sup>*\<^sup>* s t"
  by (induction rule: mqtt_steps.induct) auto

interpretation mqtt_run: runnable "mqtt_step H" sys_now sys_cancelled "\<lambda>s. sys_session s = SesDone" sys_crashed
  "\<lambda>s. s\<lparr>sys_cancelled := True\<rparr>"
  "\<lambda>s. sys_inv devices s \<and> (sys_session s = SesDone \<longrightarrow> sys_cancelled s)"
  for H :: "('e, 'h) handler" and devices
proof (unfold_locales, goal_cases)
  case (1 s t)
  then show ?case using mqtt_step_inv mqtt_step_frame by blast
next
  case (4 s)
  then show ?case by (auto simp: sys_inv_def core_inv_def intro: mqtt_step.other other_step.cancel)
next
  case (9 s)
  then show ?case using everything_finishes mqtt_steps_star by metis
qed (auto simp: sys_inv_def core_inv_def dest: mqtt_step_frame)

text \<open>The REST exporter, whose interval must be positive.\<close>

lemma rest_step_frame:
  assumes "rest_step H s t"
  shows "rs_now s \<le> rs_now t \<and> (rs_cancelled s \<longrightarrow> rs_cancelled t)
    \<and> (rs_pc t = RestDone \<longrightarrow> rs_pc s = RestDone \<or> rs_cancelled s)"
  using assms by (cases rule: rest_step.cases) auto

lemma rest_steps_star: "rest_steps H s t \<Longrightarrow> (rest_step H)\<^sup>*\<^sup>* s t"
  by (induction rule: rest_steps.induct) auto

interpretation rest_run: runnable "rest_step H" rs_now rs_cancelled "\<lambda>s. rs_pc s = RestDone" "\<lambda>s. rs_pc s = RestPanicked"
  "\<lambda>s. s\<lparr>rs_cancelled := True\<rparr>"
  "\<lambda>s. rest_inv cfg s \<and> 0 < rc_Interval cfg \<and> (rs_pc s = RestDone \<longrightarrow> rs_cancelled s)"
  for H :: "('e, 'h) handler" and cfg
proof (unfold_locales, goal_cases)
  case (1 s t)
  then show ?case using rest_step_inv rest_step_frame by blast
next
  case (4 s)
  show ?case by (rule rest_step.cancel)
next
  case (8 s)
  then show ?case by (auto simp: rest_inv_def)
next
  case (9 s)
  then have "\<exists>t. rest_steps H s t \<and> rs_pc t = RestDone" by (intro rest_can_finish) (auto simp: rest_inv_def)
  then show ?case using rest_steps_star by metis
qed (auto dest: rest_step_frame)

text \<open>Either of them.\<close>

fun exporter_inv :: "(gostring, gostring) fmap \<Rightarrow> RestExporterConfig \<Rightarrow> exporter_run \<Rightarrow> bool" where
  "exporter_inv devices cfg (RunMqtt s) = (sys_inv devices s \<and> (sys_session s = SesDone \<longrightarrow> sys_cancelled s))"
| "exporter_inv devices cfg (RunRest s) =
     (rest_inv cfg s \<and> 0 < rc_Interval cfg \<and> (rs_pc s = RestDone \<longrightarrow> rs_cancelled s))"

lemma mqtt_goes_star: "(mqtt_step Handle)\<^sup>*\<^sup>* s t \<Longrightarrow> exporter_step\<^sup>*\<^sup>* (RunMqtt s) (RunMqtt t)"
  by (induction rule: rtranclp_induct) (auto intro: rtranclp.rtrancl_into_rtrancl mqtt_goes)

lemma rest_goes_star: "(rest_step Handle)\<^sup>*\<^sup>* s t \<Longrightarrow> exporter_step\<^sup>*\<^sup>* (RunRest s) (RunRest t)"
  by (induction rule: rtranclp_induct) (auto intro: rtranclp.rtrancl_into_rtrancl rest_goes)

interpretation exporter: runnable exporter_step run_now run_cancelled run_returned run_crashed cancel_run
  "exporter_inv devices cfg" for devices cfg
proof (unfold_locales, goal_cases)
  case (1 s t)
  from 1(2,1) show ?case
  proof (induction rule: exporter_step.induct)
    case (mqtt_goes s t)
    then show ?case using mqtt_run.step_inv [of devices s Handle t] by simp
  next
    case (rest_goes s t)
    then show ?case using rest_run.step_inv [of cfg s Handle t] by simp
  qed
next
  case (4 s)
  show ?case
  proof (cases s)
    case (RunMqtt m)
    with 4 show ?thesis using mqtt_goes [OF mqtt_run.cancel_step [of devices m]] by simp
  next
    case (RunRest r)
    with 4 show ?thesis using rest_goes [OF rest_run.cancel_step [of cfg r]] by simp
  qed
next
  case (7 s)
  then show ?case by (cases s) auto
next
  case (8 s)
  then show ?case using mqtt_run.not_panicked rest_run.not_panicked by (cases s) auto
next
  case (9 s)
  show ?case
  proof (cases s)
    case (RunMqtt m)
    with 9 obtain t where "(mqtt_step Handle)\<^sup>*\<^sup>* m t" "sys_session t = SesDone"
      using mqtt_run.can_return by fastforce
    with RunMqtt show ?thesis using mqtt_goes_star by fastforce
  next
    case (RunRest r)
    with 9 obtain t where "(rest_step Handle)\<^sup>*\<^sup>* r t" "rs_pc t = RestDone"
      using rest_run.can_return by fastforce
    with RunRest show ?thesis using rest_goes_star by fastforce
  qed
next
  case (5 s)
  show ?case by (cases s) simp_all
next
  case (6 s)
  show ?case by (cases s) simp_all
qed (auto elim!: exporter_step.cases dest: mqtt_step_frame rest_step_frame)

section \<open>The invariant of the application\<close>

definition checks_result :: "(time \<times> time \<times> prom world) list \<Rightarrow> watch_result" where
  "checks_result cs =
     watchdog unhealthyExitAfter (map (\<lambda>(now, later, w). WatchTick now later (exporter_Health w)) cs) 0"

lemma watchdog_append:
  "watchdog limit (xs @ ys) since =
     (case watchdog limit xs since of Watching t \<Rightarrow> watchdog limit ys t | r \<Rightarrow> r)"
  by (induction limit xs since rule: watchdog.induct) (auto split: option.splits)

lemma checks_result_snoc:
  "checks_result (cs @ [(now, later, w)]) =
     (case checks_result cs of
        Watching t \<Rightarrow> watchdog unhealthyExitAfter [WatchTick now later (exporter_Health w)] t
      | r \<Rightarrow> r)"
  by (simp add: checks_result_def watchdog_append)

text \<open>The watchdog ended with this error.\<close>

definition failed_with :: "(time \<times> time \<times> prom world) list \<Rightarrow> app_error \<Rightarrow> bool" where
  "failed_with cs err \<longleftrightarrow> (\<exists>d e. err = AppUnhealthy d e \<and> checks_result cs = WatchFailed d e)"

fun watch_ok :: "(time \<times> time \<times> prom world) list \<Rightarrow> watch_pc \<Rightarrow> bool" where
  "watch_ok cs (WatchSelect since) = (checks_result cs = Watching since)"
| "watch_ok cs (WatchChecked since w) = (checks_result cs = Watching since)"
| "watch_ok cs (WatchError err) = failed_with cs err"
| "watch_ok cs WatchEnd = True"

definition checks_ok :: "time \<Rightarrow> (time \<times> time \<times> prom world) list \<Rightarrow> bool" where
  "checks_ok now cs \<longleftrightarrow> 0 < now \<and> sorted (map fst cs) \<and> (\<forall>c \<in> set cs. 0 < fst c \<and> fst c \<le> now)"

definition cause_ok :: "app_run \<Rightarrow> bool" where
  "cause_ok s \<longleftrightarrow>
     (run_cancelled (ar_exporter s) \<longleftrightarrow> ar_cause s \<noteq> None) \<and> (ar_signalled s \<longrightarrow> ar_cause s \<noteq> None)
     \<and> (\<forall>err. ar_cause s = Some err \<longrightarrow> ar_signalled s \<or> failed_with (ar_checks s) err)"

definition result_ok :: "app_run \<Rightarrow> bool" where
  "result_ok s \<longleftrightarrow> (hs_closed (ar_server s) \<longleftrightarrow> ar_result s \<noteq> None) \<and> (\<forall>r. ar_result s = Some r \<longrightarrow>
     ar_signalled s \<and> r = None \<or> (\<exists>err. r = Some err \<and> failed_with (ar_checks s) err))"

definition app_inv :: "(gostring, gostring) fmap \<Rightarrow> RestExporterConfig \<Rightarrow> app_run \<Rightarrow> bool" where
  "app_inv devices cfg s \<longleftrightarrow>
     exporter_inv devices cfg (ar_exporter s) \<and> checks_ok (run_now (ar_exporter s)) (ar_checks s)
     \<and> watch_ok (ar_checks s) (ar_watch s) \<and> cause_ok s \<and> result_ok s"

lemma checks_ok_later: "checks_ok now cs \<Longrightarrow> now \<le> now' \<Longrightarrow> checks_ok now' cs"
  by (auto simp: checks_ok_def intro: order_trans)

lemma checks_ok_snoc: "checks_ok now cs \<Longrightarrow> checks_ok now (cs @ [(now, later, w)])"
  by (auto simp: checks_ok_def sorted_append)

lemma watch_round_ok:
  assumes "checks_result cs = Watching since"
  shows "watch_ok (cs @ [(now, later, w)]) (watch_round now later since (exporter_Health w))"
  using assms by (auto simp: watch_round_def checks_result_snoc failed_with_def split: watch_result.splits)

lemma cancel_cause_inv:
  assumes "app_inv devices cfg s" and "ar_result s = None"
    and "ar_signalled s \<or> failed_with (ar_checks s) err"
  shows "app_inv devices cfg (cancel_cause err s)"
  using assms exporter.cancel_inv
  by (auto simp: app_inv_def cancel_cause_def cause_ok_def result_ok_def exporter.cancel_cancelled split: option.splits)

lemma app_step_inv:
  assumes "app_step s t" and inv: "app_inv devices cfg s"
  shows "app_inv devices cfg t"
proof -
  from assms(1) have none: "ar_result s = None" and act: "app_action s t" by (simp_all add: app_step_def)
  from act none inv show ?thesis
  proof (induction rule: app_action.induct)
    case (exporter_goes s ex)
    then show ?case
      using exporter.step_inv exporter.step_now [OF exporter_goes(1)]
      by (auto simp: app_inv_def cause_ok_def result_ok_def intro: checks_ok_later)
  next
    case (signal s)
    have "app_inv devices cfg (s\<lparr>ar_signalled := True\<rparr>)" if "ar_cause s \<noteq> None"
      using signal that by (auto simp: app_inv_def cause_ok_def result_ok_def)
    then show ?case using signal exporter.cancel_inv
      by (auto simp: app_inv_def cancel_cause_def cause_ok_def result_ok_def exporter.cancel_cancelled split: option.splits)
  next
    case (watch_decide s since w later)
    then have w: "checks_result (ar_checks s) = Watching since" by (simp add: app_inv_def)
    then have "\<not> failed_with (ar_checks s) err" for err by (simp add: failed_with_def)
    with watch_decide show ?case
      using watch_round_ok [OF w] checks_ok_snoc by (auto simp: app_inv_def cause_ok_def result_ok_def)
  next
    case (watch_cancels s err)
    then have "app_inv devices cfg (s\<lparr>ar_watch := WatchEnd\<rparr>)" and f: "failed_with (ar_checks s) err"
      by (auto simp: app_inv_def cause_ok_def result_ok_def)
    from cancel_cause_inv [OF this(1)] f watch_cancels(2) show ?case by simp
  next
    case (run_returns s)
    then have "run_cancelled (ar_exporter s)" using exporter.returned_cancelled by (auto simp: app_inv_def)
    with run_returns obtain err where "ar_cause s = Some err" "ar_signalled s \<or> failed_with (ar_checks s) err"
      by (auto simp: app_inv_def cause_ok_def)
    with run_returns show ?case by (auto simp: app_inv_def result_ok_def cause_ok_def run_end_def Close_def)
  qed (auto simp: app_inv_def cause_ok_def result_ok_def)
qed

lemma createExporter_cases:
  assumes "createExporter cfg telemetry hs = Inr ex"
  obtains (mqtt) m mc where "ex = MqttExporter m" "ExporterType cfg = ''mqtt''" "mc_Devices mc = Devices cfg"
      "NewMqttMetricsExporter mc hs = Inr m" "mc_Telemetry mc = telemetry"
    | (rest) rc where "ex = RestExporter (NewRestMetricsExporter rc hs)" "ExporterType cfg \<noteq> ''mqtt''"
      "rc_Devices rc = Devices cfg" "rc_Interval rc = Interval (Rest cfg)" "rc_Telemetry rc = telemetry"
proof (cases "ExporterType cfg = ''mqtt''")
  case True
  let ?mc = "\<lparr>mc_Email = Email (Mqtt cfg), mc_Password = Password (Mqtt cfg), mc_Devices = Devices cfg,
           mc_OfflineThreshold = OfflineThreshold (Mqtt cfg), mc_PingInterval = PingInterval (Mqtt cfg),
           mc_StateRefreshInterval = StateRefreshInterval (Mqtt cfg), mc_ProtobufDebug = ProtobufDebug cfg,
           mc_Telemetry = telemetry\<rparr>"
  from assms True obtain m where "ex = MqttExporter m" "NewMqttMetricsExporter ?mc hs = Inr m"
    by (auto simp: createExporter_def split: sum.splits)
  then show thesis using True by (intro mqtt [of m ?mc]) simp_all
next
  case False
  let ?rc = "\<lparr>rc_Interval = Interval (Rest cfg), rc_Devices = Devices cfg, rc_Telemetry = telemetry\<rparr>"
  from assms False show thesis by (intro rest [of ?rc]) (simp_all add: createExporter_def)
qed

text \<open>The start, of an application whose intervals are positive.\<close>

definition interval_positive :: "app \<Rightarrow> bool" where
  "interval_positive app \<longleftrightarrow> (ExporterType (app_config app) = ''rest'' \<longrightarrow> 0 < Interval (Rest (app_config app)))"

lemma app_Run_inv:
  assumes "start_app T order e version register listen = Inr app" and "interval_positive app" and "0 < now"
  shows "\<exists>devices cfg. app_inv devices cfg (app_Run now app)"
proof -
  note parts = start_app_parts [OF assms(1)]
  have "\<exists>devices rc. exporter_inv devices rc (exporter_Run now (app_exporter app))"
  proof (rule createExporter_cases [OF parts(2)], goal_cases)
    case (1 m mc)
    from mqtt_Run_inv [OF 1(4), of now] show ?case
      by (intro exI [of _ "mc_Devices mc"]) (simp add: 1 mqtt_Run_def)
  next
    case (2 rc)
    have "0 < rc_Interval rc" using LoadConfig_valid_aux [OF parts(1)] 2 assms(2)
      by (auto simp: interval_positive_def config_valid_def)
    then show ?case using rest_Run_inv [of rc now "[NewPrometheusExporter (MetricPrefix (app_config app))]"]
      by (intro exI [of _ fmempty] exI [of _ rc]) (simp add: 2 rest_Run_def)
  qed
  moreover have "\<not> hs_closed (app_server app)"
    using start_app_parts(3) [OF assms(1)] by (auto simp: NewHTTPServer_def SetHealthCheck_def split: option.splits)
  moreover have "run_now (exporter_Run now ex) = now" "\<not> run_cancelled (exporter_Run now ex)" for ex
    by (cases ex; simp add: mqtt_Run_def rest_Run_def)+
  ultimately show ?thesis using assms(3)
    by (auto simp: app_inv_def app_Run_def checks_ok_def cause_ok_def result_ok_def checks_result_def)
qed

lemma app_reachable_inv:
  assumes "start_app T order e version register listen = Inr app" and "interval_positive app"
    and "app_reachable app s"
  shows "\<exists>devices cfg. app_inv devices cfg s"
proof -
  obtain now where "0 < now" "app_step\<^sup>*\<^sup>* (app_Run now app) s" using assms(3) by (auto simp: app_reachable_def)
  from this(2) app_Run_inv [OF assms(1,2) this(1)] show ?thesis
    by (induction rule: rtranclp_induct) (auto intro: app_step_inv)
qed

section \<open>Runs of the application\<close>

text \<open>The exporter returns within the application, then \<open>run\<close> does.\<close>

lemma app_goes_star:
  assumes "(\<lambda>s t. exporter_step s t \<and> run_cancelled t = run_cancelled s)\<^sup>*\<^sup>* (ar_exporter s) ex"
    and "exporter_inv devices cfg (ar_exporter s)" and "ar_result s = None"
  shows "app_step\<^sup>*\<^sup>* s (s\<lparr>ar_exporter := ex\<rparr>) \<and> exporter_inv devices cfg ex"
  using assms(1)
proof (induction rule: rtranclp_induct)
  case base
  then show ?case using assms(2) by simp
next
  case (step y z)
  have "app_action (s\<lparr>ar_exporter := y\<rparr>) (s\<lparr>ar_exporter := z\<rparr>)"
    using exporter_goes [of "s\<lparr>ar_exporter := y\<rparr>" z] step(2) by simp
  then have "app_step (s\<lparr>ar_exporter := y\<rparr>) (s\<lparr>ar_exporter := z\<rparr>)"
    using step(3) assms(3) exporter.not_panicked by (auto simp: app_step_def)
  with step show ?case using exporter.step_inv by (meson rtranclp.rtrancl_into_rtrancl)
qed

lemma app_ends:
  assumes "app_inv devices cfg s" and "ar_result s = None" and "ar_cause s \<noteq> None"
  shows "\<exists>t. app_step\<^sup>*\<^sup>* s t \<and> ar_result t = Some (run_end (ar_signalled s) (ar_cause s) None)"
proof -
  have inv: "exporter_inv devices cfg (ar_exporter s)" "run_cancelled (ar_exporter s)"
    using assms(1,3) by (auto simp: app_inv_def cause_ok_def)
  from exporter.returns_quietly [OF this] obtain ex where
    ex: "(\<lambda>s t. exporter_step s t \<and> run_cancelled t = run_cancelled s)\<^sup>*\<^sup>* (ar_exporter s) ex" "run_returned ex"
    by blast
  from app_goes_star [OF ex(1) inv(1) assms(2)]
  have star: "app_step\<^sup>*\<^sup>* s (s\<lparr>ar_exporter := ex\<rparr>)" "\<not> run_crashed ex" using exporter.not_panicked by blast+
  have "app_step (s\<lparr>ar_exporter := ex\<rparr>)
      (s\<lparr>ar_exporter := ex, ar_result := Some (run_end (ar_signalled s) (ar_cause s) None),
         ar_server := Close (ar_server s)\<rparr>)"
    using run_returns [of "s\<lparr>ar_exporter := ex\<rparr>"] ex(2) assms(2) star(2) by (simp add: app_step_def)
  from rtranclp.rtrancl_into_rtrancl [OF star(1) this] show ?thesis by (intro exI conjI) (assumption, simp)
qed

lemma watchdog_ends:
  assumes inv: "app_inv devices cfg s" and none: "ar_result s = None"
    and e: "ar_watch s = WatchError err" "\<not> ar_signalled s"
  shows "\<exists>t. app_step\<^sup>*\<^sup>* s t \<and> ar_result t = Some (Some err)"
proof -
  let ?s = "cancel_cause err (s\<lparr>ar_watch := WatchEnd\<rparr>)"
  have s: "app_step s ?s" using watch_cancels [OF e(1)] inv none exporter.not_panicked
    by (auto simp: app_step_def app_inv_def)
  have f: "failed_with (ar_checks s) err" using inv e(1) by (simp add: app_inv_def)
  have "ar_cause s = Some err'  \<Longrightarrow> err' = err" for err'
    using inv e(2) f by (fastforce simp: app_inv_def cause_ok_def failed_with_def)
  then have c: "ar_cause ?s = Some err" "ar_signalled ?s = False" "ar_result ?s = None"
    using e(2) none by (auto simp: cancel_cause_def split: option.splits)
  from app_ends [OF app_step_inv [OF s inv] c(3)] c obtain t where "app_step\<^sup>*\<^sup>* ?s t" "ar_result t = Some (Some err)"
    by (auto simp: run_end_def)
  with s show ?thesis by (meson converse_rtranclp_into_rtranclp)
qed

text \<open>The exporter of a running application is one that runs on its own.\<close>

lemma app_step_exporter:
  assumes "app_step s t" and "app_inv devices cfg s"
  shows "exporter_step\<^sup>*\<^sup>* (ar_exporter s) (ar_exporter t)"
proof -
  have cancel: "exporter_step (ar_exporter s) (cancel_run (ar_exporter s))"
    using assms(2) exporter.cancel_step by (auto simp: app_inv_def)
  from assms(1) have "app_action s t" by (simp add: app_step_def)
  then show ?thesis using cancel by cases (auto simp: cancel_cause_def)
qed

lemma app_exporter_steps:
  assumes "start_app T order e version register listen = Inr app" and "interval_positive app"
    and "app_reachable app s"
  shows "\<exists>now. exporter_step\<^sup>*\<^sup>* (exporter_Run now (app_exporter app)) (ar_exporter s)"
proof -
  obtain now where now: "0 < now" "app_step\<^sup>*\<^sup>* (app_Run now app) s" using assms(3) by (auto simp: app_reachable_def)
  from now(2) have "exporter_step\<^sup>*\<^sup>* (exporter_Run now (app_exporter app)) (ar_exporter s)"
  proof (induction rule: rtranclp_induct)
    case base
    then show ?case by (simp add: app_Run_def)
  next
    case (step y z)
    then have "app_reachable app y" using now(1) by (auto simp: app_reachable_def)
    with app_reachable_inv [OF assms(1,2)] app_step_exporter [OF step(2)] step(3) show ?case
      by (meson rtranclp_trans)
  qed
  then show ?thesis by blast
qed

lemma mqtt_run_steps:
  "exporter_step\<^sup>*\<^sup>* ex ex' \<Longrightarrow> ex = RunMqtt s \<Longrightarrow> \<exists>t. ex' = RunMqtt t \<and> mqtt_steps Handle s t"
  by (induction rule: rtranclp_induct) (auto elim!: exporter_step.cases intro: mqtt_steps.intros)

lemma rest_run_steps:
  "exporter_step\<^sup>*\<^sup>* ex ex' \<Longrightarrow> ex = RunRest s \<Longrightarrow> \<exists>t. ex' = RunRest t \<and> rest_steps Handle s t"
  by (induction rule: rtranclp_induct) (auto elim!: exporter_step.cases intro: rest_steps.intros)

lemma app_exporter_reachable:
  assumes "start_app T order e version register listen = Inr app" and "interval_positive app"
    and "app_reachable app s"
  shows "let hs = [NewPrometheusExporter (MetricPrefix (app_config app))]; t = NewTelemetry (MetricPrefix (app_config app)) version
    in (\<exists>m mc. ar_exporter s = RunMqtt m \<and> mc_Devices mc = Devices (app_config app) \<and> mc_Telemetry mc = t
          \<and> mqtt_reachable Handle mc hs m)
      \<or> (\<exists>r rc. ar_exporter s = RunRest r \<and> rc_Devices rc = Devices (app_config app) \<and> rc_Telemetry rc = t
          \<and> rest_reachable Handle rc hs r)"
proof -
  let ?hs = "[NewPrometheusExporter (MetricPrefix (app_config app))]"
  obtain now where now: "exporter_step\<^sup>*\<^sup>* (exporter_Run now (app_exporter app)) (ar_exporter s)"
    using app_exporter_steps [OF assms] by blast
  show ?thesis
  proof (rule createExporter_cases [OF start_app_parts(2) [OF assms(1)]], goal_cases)
    case (1 m mc)
    from mqtt_run_steps [OF now] 1(1) obtain t where
      "ar_exporter s = RunMqtt t" "mqtt_steps Handle (mqtt_Run now m) t" by auto
    with 1 show ?case unfolding mqtt_reachable_def Let_def by blast
  next
    case (2 rc)
    from rest_run_steps [OF now] 2(1) obtain t where
      "ar_exporter s = RunRest t" "rest_steps Handle (rest_Run now (NewRestMetricsExporter rc ?hs)) t" by auto
    with 2 show ?case unfolding rest_reachable_def Let_def by blast
  qed
qed

section \<open>The metrics of the exporter\<close>

text \<open>The serial numbers of the answers of the REST API can be label values.\<close>

fun answers_utf8 :: "exporter_run \<Rightarrow> bool" where
  "answers_utf8 (RunMqtt s) = True"
| "answers_utf8 (RunRest s) = list_all (valid_utf8 \<circ> di_SN \<circ> fst) (rs_answers s)"

lemma app_telemetry_ok:
  assumes "start_app T order e version register listen = Inr app" and "interval_positive app"
    and "app_reachable app s"
    and "valid_utf8 version" and "utf8_mapping (Devices (app_config app))" and "answers_utf8 (ar_exporter s)"
  shows "telemetry_ok (run_telemetry (ar_exporter s))"
proof -
  let ?t = "NewTelemetry (MetricPrefix (app_config app)) version"
  have t: "telemetry_ok ?t" by (rule telemetry_ok_new [OF assms(4)])
  consider m mc hs where "ar_exporter s = RunMqtt m" "mc_Devices mc = Devices (app_config app)" "mc_Telemetry mc = ?t"
      "mqtt_reachable Handle mc hs m"
    | r rc hs where "ar_exporter s = RunRest r" "rc_Devices rc = Devices (app_config app)" "rc_Telemetry rc = ?t"
      "rest_reachable Handle rc hs r"
    using app_exporter_reachable [OF assms(1-3)] unfolding Let_def by blast
  then show ?thesis
  proof cases
    case 1
    with telemetry_reachable [OF 1(4)] t assms(5) show ?thesis by (simp add: telemetry_inv_def)
  next
    case 2
    with rest_reachable_inv [OF 2(4)] t assms(5,6) show ?thesis by (simp add: rest_inv_def)
  qed
qed

text \<open>What the MQTT exporter can do on its own without being cancelled, it can do in the application.\<close>

lemma mqtt_steps_uncancelled:
  assumes "mqtt_steps Handle s t" and "\<not> sys_cancelled t"
  shows "\<not> sys_cancelled s
    \<and> (\<lambda>s t. exporter_step s t \<and> run_cancelled t = run_cancelled s)\<^sup>*\<^sup>* (RunMqtt s) (RunMqtt t)"
  using assms
proof (induction rule: mqtt_steps.induct)
  case (more s t u)
  then have t: "\<not> sys_cancelled t" using mqtt_step_frame [OF more.hyps(2)] by blast
  let ?R = "\<lambda>s t. exporter_step s t \<and> run_cancelled t = run_cancelled s"
  from more t have "?R (RunMqtt t) (RunMqtt u)" by (simp add: mqtt_goes)
  with more.IH [OF t] show ?case
    using rtranclp.rtrancl_into_rtrancl [of ?R "RunMqtt s" "RunMqtt t" "RunMqtt u"] by simp
qed simp

lemma app_reaches_mqtt:
  assumes "start_app T order e version register listen = Inr app" and "app_exporter app = MqttExporter m"
    and "mqtt_steps Handle (mqtt_Run now m) t" and "\<not> sys_cancelled t" and "0 < now"
  shows "\<exists>s. app_reachable app s \<and> ar_exporter s = RunMqtt t \<and> \<not> ar_signalled s \<and> ar_result s = None"
proof -
  let ?s = "app_Run now app"
  obtain mc hs where "NewMqttMetricsExporter mc hs = Inr m"
    using createExporter_cases [OF start_app_parts(2) [OF assms(1)]] assms(2) by (metis exporter.inject(1) exporter.distinct(1))
  then have "exporter_inv (mc_Devices mc) undefined (ar_exporter ?s)"
    using mqtt_Run_inv [of mc hs m now] by (simp add: app_Run_def assms(2)) (simp add: mqtt_Run_def)
  moreover have "(\<lambda>s t. exporter_step s t \<and> run_cancelled t = run_cancelled s)\<^sup>*\<^sup>* (ar_exporter ?s) (RunMqtt t)"
    using mqtt_steps_uncancelled [OF assms(3,4)] by (simp add: app_Run_def assms(2))
  ultimately have "app_step\<^sup>*\<^sup>* ?s (?s\<lparr>ar_exporter := RunMqtt t\<rparr>)"
    using app_goes_star [of ?s "RunMqtt t"] by (simp add: app_Run_def)
  then have "app_reachable app (?s\<lparr>ar_exporter := RunMqtt t\<rparr>)"
    unfolding app_reachable_def using assms(5) by blast
  then show ?thesis by (intro exI [of _ "?s\<lparr>ar_exporter := RunMqtt t\<rparr>"]) (simp add: app_Run_def)
qed

text \<open>The application for the environment \<open>mqtt_env\<close>.\<close>

lemma mqtt_app:
  assumes "trim_space sn = sn" and "sn \<noteq> []" and "CHR '','' \<notin> set sn"
  shows "\<exists>app m. start_app T order (mqtt_env sn ''30'') version (\<lambda>p. None) (\<lambda>a. None) = Inr app
    \<and> interval_positive app \<and> Devices (app_config app) = fmupd sn sn fmempty
    \<and> app_exporter app = MqttExporter m \<and> mq_devices m = fmupd sn sn fmempty
    \<and> mq_telemetry m = NewTelemetry ''ecoflow'' version
    \<and> mq_handlers m = [NewPrometheusExporter ''ecoflow''] \<and> mq_deviceState m = fmempty"
proof -
  have "wrap64 (30 * second) = 30 * second" by (simp add: wrap64_small)
  with mqtt_env_load [OF assms interval_30(1) _ interval_30(2), of T order] show ?thesis
    by (simp add: start_app_def create_prometheus_def Let_def createExporter_def NewHTTPServer_def interval_positive_def
        NewMqttMetricsExporter_def go_len_zero_iff)
qed

section \<open>Properties\<close>

text \<open>C11: The application ends for two reasons only: with exit code 0 after a signal, or with exit code 1
  because the watchdog found the exporter unable to collect data in every check of a period of more
  than thirty minutes. The server is closed then.\<close>
theorem application_exit:
  assumes "start_app T order e version register listen = Inr app" and "interval_positive app"
    and "app_reachable app s" and "ar_result s = Some r"
  shows "hs_closed (ar_server s) \<and> (main_exit [prog] healthcheck r = 0 \<and> ar_signalled s
    \<or> main_exit [prog] healthcheck r = 1 \<and> (\<exists>d e. r = Some (AppUnhealthy d e))
      \<and> (\<exists>xs ys zs. ar_checks s = xs @ ys @ zs \<and> ys \<noteq> [] \<and> (\<forall>(now, later, w) \<in> set ys. \<not> exporter_working w)
           \<and> fst (last ys) - fst (hd ys) > 30 * minute))"
proof -
  obtain devices cfg where inv: "app_inv devices cfg s" using app_reachable_inv [OF assms(1-3)] by blast
  then have "sorted (map fst (ar_checks s))" "\<forall>c \<in> set (ar_checks s). 0 < fst c"
    by (auto simp: app_inv_def checks_ok_def)
  note outage = exporter_check.watchdog_outage [OF _ _ this, of unhealthyExitAfter]
  have closed: "hs_closed (ar_server s)" using inv assms(4) by (simp add: app_inv_def result_ok_def)
  from inv assms(4) consider "ar_signalled s" "r = None" | err where "r = Some err" "failed_with (ar_checks s) err"
    by (auto simp: app_inv_def result_ok_def)
  then show ?thesis
  proof cases
    case 1
    with closed show ?thesis by (simp add: main_exit_def)
  next
    case 2
    then show ?thesis using outage closed
      by (auto simp: main_exit_def failed_with_def checks_result_def exporter_check.ticks_def unhealthyExitAfter_def)
  qed
qed

text \<open>C12: The application can always end. Whatever it is doing, after a signal \<open>run\<close> can return without an
  error, and once the watchdog has given up it can return the watchdog's error.\<close>
theorem application_stops:
  assumes "start_app T order e version register listen = Inr app" and "interval_positive app"
    and "app_reachable app s" and "ar_result s = None"
  shows "(ar_signalled s \<longrightarrow> (\<exists>t. app_step\<^sup>*\<^sup>* s t \<and> ar_result t = Some None))
    \<and> (\<forall>err. ar_watch s = WatchError err \<and> \<not> ar_signalled s \<longrightarrow> (\<exists>t. app_step\<^sup>*\<^sup>* s t \<and> ar_result t = Some (Some err)))"
proof -
  obtain devices cfg where inv: "app_inv devices cfg s" using app_reachable_inv [OF assms(1-3)] by blast
  have "\<exists>t. app_step\<^sup>*\<^sup>* s t \<and> ar_result t = Some None" if "ar_signalled s"
    using app_ends [OF inv assms(4)] that inv by (auto simp: app_inv_def cause_ok_def run_end_def)
  moreover have "\<exists>t. app_step\<^sup>*\<^sup>* s t \<and> ar_result t = Some (Some err)"
    if "ar_watch s = WatchError err" "\<not> ar_signalled s" for err
    by (rule watchdog_ends [OF inv assms(4) that])
  ultimately show ?thesis by blast
qed


text \<open>C30: A serial number that is not valid UTF-8 passes the validation of the configuration and then
  ends the program with a panic: when the MQTT exporter has connected and requests the state of the
  device, the counter of the pings refuses it as a label value.\<close>
theorem non_utf8_serial_panics:
  "\<exists>app s. start_app T order (mqtt_env [CHR 0xFF] ''30'') version (\<lambda>p. None) (\<lambda>a. None) = Inr app
     \<and> app_reachable app s \<and> \<not> ar_signalled s \<and> run_panicked (ar_exporter s)"
proof -
  let ?sn = "[CHR 0xFF]"
  have sn: "trim_space ?sn = ?sn"
    by (simp add: trim_space_def trim_left.simps trim_right.simps decode_last_rune_def decode_rune.simps(2)
        in_range_def code_def is_space_def rune_error_def)
  obtain app m where app: "start_app T order (mqtt_env ?sn ''30'') version (\<lambda>p. None) (\<lambda>a. None) = Inr app"
    "app_exporter app = MqttExporter m" "mq_devices m = fmupd ?sn ?sn fmempty"
    "mq_telemetry m = NewTelemetry ''ecoflow'' version"
    using mqtt_app [OF sn, of T order version] by (auto simp: code_def)
  have "range_order (mq_devices m) [?sn]" by (simp add: app(3) range_order_def)
  from requesting_steps [OF this, of Handle minute] obtain t where t: "mqtt_steps Handle (mqtt_Run minute m) t"
    "\<not> sys_cancelled t" "mq_telemetry (sys_mqtt t) = MqttPing ?sn ''state_refresh'' (None :: request_error option)
       (SetMqttConnected True (NewTelemetry ''ecoflow'' version))" by (auto simp: app(4))
  have "\<not> valid_utf8 ?sn" by (rule not_valid_utf8) (simp add: code_def)
  then have "telemetry_panicked (mq_telemetry (sys_mqtt t))"
    unfolding t(3) MqttPing_def
    by (intro telemetry_refused) (simp_all add: telemetry_defs NewTelemetry_def)
  then have "run_panicked (RunMqtt t)" by (simp add: run_panicked_def)
  with app_reaches_mqtt [OF app(1,2) t(1,2)] app(1) show ?thesis by fastforce
qed

section \<open>Witnesses\<close>

text \<open>An application with a REST exporter that never gets a first scrape done, checked after ten and fifty minutes.\<close>

definition sample_rest :: "prom rest" where
  "sample_rest = NewRestMetricsExporter
     \<lparr>rc_Interval = 30 * second, rc_Devices = fmempty, rc_Telemetry = NewTelemetry ''ecoflow'' ''dev''\<rparr>
     [NewPrometheusExporter ''ecoflow'']"

lemma sample_app:
  "\<exists>app. start_app sample_tables (\<lambda>m. []) (rest_env ''30'') ''dev'' (\<lambda>p. None) (\<lambda>a. None) = Inr app
     \<and> interval_positive app \<and> app_exporter app = RestExporter sample_rest"
proof -
  note load = rest_env_load [OF interval_30(1) _ interval_30(2), of sample_tables "\<lambda>m. []"]
  have "wrap64 (30 * second) = 30 * second" by (simp add: wrap64_small)
  with load show ?thesis
    by (simp add: start_app_def create_prometheus_def Let_def createExporter_def NewHTTPServer_def interval_positive_def sample_rest_def)
qed

definition sample_check :: "time \<Rightarrow> prom world" where
  "sample_check now = \<lparr>w_exporter = RestExporter sample_rest, w_now = now, w_later = now, w_open = (\<lambda>c. False), w_duration = (\<lambda>d. [])\<rparr>"

lemma sample_check_fails:
  assumes "2 * minute < now" and "now < 60 * minute"
  shows "exporter_Health (sample_check now) \<noteq> None"
proof -
  have "wrap64 (90 * second) = 90 * second" by (simp add: wrap64_small)
  then show ?thesis using assms
    by (simp add: exporter_Health_def sample_check_def rest_Health_def sample_rest_def NewRestMetricsExporter_def time_sub_def)
qed

lemma sample_check_steps:
  assumes "ar_exporter s = RunRest r" "rs_rest r = sample_rest" "rs_now r \<le> now" "ar_watch s = WatchSelect since"
    "tk_next (ar_ticker s) \<le> now" "ar_result s = None" "rs_pc r = RestStart"
  shows "app_step\<^sup>*\<^sup>* s
    (s\<lparr>ar_exporter := RunRest (r\<lparr>rs_now := now\<rparr>), ar_ticker := ticker_take (ticker_fire (ar_ticker s)),
       ar_watch := watch_round now now since (exporter_Health (sample_check now)),
       ar_checks := ar_checks s @ [(now, now, sample_check now)]\<rparr>)"
proof -
  let ?s1 = "s\<lparr>ar_exporter := RunRest (r\<lparr>rs_now := now\<rparr>)\<rparr>"
  let ?s2 = "?s1\<lparr>ar_ticker := ticker_fire (ar_ticker s)\<rparr>"
  let ?s3 = "?s2\<lparr>ar_ticker := ticker_take (ar_ticker ?s2), ar_watch := WatchChecked since (sample_check now)\<rparr>"
  have "exporter_step (RunRest r) (RunRest (r\<lparr>rs_now := now\<rparr>))"
    by (intro rest_goes rest_step.time_passes assms)
  then have 1: "app_step s ?s1" using exporter_goes [of s "RunRest (r\<lparr>rs_now := now\<rparr>)"] assms by (simp add: app_step_def)
  have 2: "app_step ?s1 ?s2" using watch_ticker_fires [of ?s1] assms by (simp add: app_step_def)
  have "app_action ?s2 ?s3"
    by (rule watch_check) (use assms in \<open>simp_all add: sample_check_def ticker_fire_def\<close>)
  then have 3: "app_step ?s2 ?s3" using assms by (simp add: app_step_def)
  let ?s4 = "?s3\<lparr>ar_watch := watch_round now now since (exporter_Health (sample_check now)),
      ar_checks := ar_checks s @ [(now, now, sample_check now)]\<rparr>"
  have 4: "app_step ?s3 ?s4"
    using watch_decide [of ?s3 since "sample_check now" now] assms by (simp add: app_step_def)
  note stars = converse_rtranclp_into_rtranclp [of app_step]
  from stars [OF 1 stars [OF 2 stars [OF 3 stars [OF 4 rtranclp.rtrancl_refl]]]] show ?thesis by simp
qed

definition sample_checks :: "(time \<times> time \<times> prom world) list" where
  "sample_checks = map (\<lambda>n. (n, n, sample_check n)) [10 * minute, 50 * minute]"

lemma sample_outage:
  "\<exists>app s d e. start_app sample_tables (\<lambda>m. []) (rest_env ''30'') ''dev'' (\<lambda>p. None) (\<lambda>a. None) = Inr app
     \<and> interval_positive app \<and> app_reachable app s \<and> ar_result s = None \<and> \<not> ar_signalled s
     \<and> ar_watch s = WatchError (AppUnhealthy d e) \<and> ar_checks s = sample_checks"
proof -
  obtain app where app: "start_app sample_tables (\<lambda>m. []) (rest_env ''30'') ''dev'' (\<lambda>p. None) (\<lambda>a. None) = Inr app"
    "interval_positive app" "app_exporter app = RestExporter sample_rest" using sample_app by blast
  obtain e1 where e1: "exporter_Health (sample_check (10 * minute)) = Some e1"
    using sample_check_fails [of "10 * minute"] by force
  obtain e2 where e2: "exporter_Health (sample_check (50 * minute)) = Some e2"
    using sample_check_fails [of "50 * minute"] by force
  let ?s0 = "app_Run minute app"
  let ?r = "rest_Run minute sample_rest"
  let ?s1 = "?s0\<lparr>ar_exporter := RunRest (?r\<lparr>rs_now := 10 * minute\<rparr>), ar_ticker := ticker_take (ticker_fire (ar_ticker ?s0)),
       ar_watch := WatchSelect (10 * minute), ar_checks := [(10 * minute, 10 * minute, sample_check (10 * minute))]\<rparr>"
  have "watch_round (10 * minute) (10 * minute) 0 (Some e1) = WatchSelect (10 * minute)"
    by (simp add: watch_round_def)
  with sample_check_steps [of ?s0 ?r "10 * minute" 0] e1 have 1: "app_step\<^sup>*\<^sup>* ?s0 ?s1"
    by (simp add: app_Run_def app(3) rest_Run_def NewTicker_def watchdogInterval_def)
  have "\<exists>d. watch_round (50 * minute) (50 * minute) (10 * minute) (Some e2) = WatchError (AppUnhealthy d e2)"
    by (simp add: watch_round_def unhealthyExitAfter_def time_sub_def)
  then obtain d where "watch_round (50 * minute) (50 * minute) (10 * minute) (Some e2) = WatchError (AppUnhealthy d e2)" by blast
  with sample_check_steps [of ?s1 "?r\<lparr>rs_now := 10 * minute\<rparr>" "50 * minute" "10 * minute"] e2
  obtain s where s: "app_step\<^sup>*\<^sup>* ?s1 s" "ar_watch s = WatchError (AppUnhealthy d e2)" "ar_checks s = sample_checks"
    "ar_result s = None" "\<not> ar_signalled s"
    by (simp add: app_Run_def app(3) rest_Run_def NewTicker_def watchdogInterval_def ticker_take_def ticker_fire_def sample_checks_def)
  have "app_step\<^sup>*\<^sup>* ?s0 s" using 1 s(1) by (rule rtranclp_trans)
  then have "app_reachable app s" unfolding app_reachable_def by (intro exI [of _ minute]) simp
  with app s show ?thesis by blast
qed

lemma app_reachable_steps: "app_reachable app s \<Longrightarrow> app_step\<^sup>*\<^sup>* s t \<Longrightarrow> app_reachable app t"
  unfolding app_reachable_def by (meson rtranclp_trans)

theorem application_exit_witness:
  "\<exists>app s r. start_app sample_tables (\<lambda>m. []) (rest_env ''30'') ''dev'' (\<lambda>p. None) (\<lambda>a. None) = Inr app
     \<and> app_reachable app s \<and> ar_result s = Some r \<and> main_exit [''exporter''] 0 r = 1
     \<and> (\<exists>xs ys zs. ar_checks s = xs @ ys @ zs \<and> ys \<noteq> [] \<and> (\<forall>(now, later, w) \<in> set ys. \<not> exporter_working w)
           \<and> fst (last ys) - fst (hd ys) > 30 * minute)"
proof -
  obtain app s d e where app: "start_app sample_tables (\<lambda>m. []) (rest_env ''30'') ''dev'' (\<lambda>p. None) (\<lambda>a. None) = Inr app"
    "interval_positive app" and s: "app_reachable app s" "ar_result s = None" "\<not> ar_signalled s"
    "ar_watch s = WatchError (AppUnhealthy d e)"
    using sample_outage by blast
  obtain devices cfg where "app_inv devices cfg s" using app_reachable_inv [OF app s(1)] by blast
  from watchdog_ends [OF this s(2,4,3)] obtain t where
    t: "app_step\<^sup>*\<^sup>* s t" "ar_result t = Some (Some (AppUnhealthy d e))" by blast
  note r = app_reachable_steps [OF s(1) t(1)]
  have "main_exit [''exporter''] 0 (Some (AppUnhealthy d e)) \<noteq> 0" by (simp add: main_exit_def)
  with application_exit [OF app r t(2), of "''exporter''" 0] app(1) r t(2) show ?thesis by metis
qed

theorem application_stops_witness:
  "\<exists>app s t d e. app_reachable app s \<and> ar_checks s = sample_checks \<and> app_step\<^sup>*\<^sup>* s t
     \<and> ar_result t = Some (Some (AppUnhealthy d e))"
proof -
  obtain app s d e where app: "start_app sample_tables (\<lambda>m. []) (rest_env ''30'') ''dev'' (\<lambda>p. None) (\<lambda>a. None) = Inr app"
    "interval_positive app" and s: "app_reachable app s" "ar_result s = None" "\<not> ar_signalled s"
    "ar_watch s = WatchError (AppUnhealthy d e)" "ar_checks s = sample_checks"
    using sample_outage by blast
  from application_stops [OF app s(1,2)] s show ?thesis by blast
qed


end
