(* ===== verification/Mqtt_Login.thy ===== *)
theory Mqtt_Login
  imports Mqtt_Runs
begin

text \<open>
  \<open>mqtt_exporter.go\<close>: \<open>runSession\<close> logs in with \<open>retryWithBackoff(ctx, ..., 0, loginRetryDelay, maxLoginDelay, ...)\<close>.
  In \<open>Mqtt_System\<close> this loop is cut into steps, between which the other goroutines run; here these
  steps are shown to do what the loop of \<open>retry.go\<close> does.
\<close>

section \<open>The login phase\<close>

fun logging_in :: "session_pc \<Rightarrow> bool" where
  "logging_in (SesLogin d) = True"
| "logging_in (SesLoginWait d t) = True"
| "logging_in _ = False"

text \<open>The delay that a step hands to \<open>time.After\<close>.\<close>

fun new_wait :: "session_pc \<Rightarrow> session_pc \<Rightarrow> duration list" where
  "new_wait (SesLogin d) (SesLoginWait d' t) = [d']"
| "new_wait _ _ = []"

text \<open>
  A login phase from its start in \<open>s\<close> to \<open>t\<close>: any steps of the system as long as the session is
  logging in, with the delays it has handed to \<open>time.After\<close>.
\<close>

inductive login_run :: "('e, 'h) handler \<Rightarrow> 'h mqtt_system \<Rightarrow> duration list \<Rightarrow> 'h mqtt_system \<Rightarrow> bool" for H s where
  login_starts: "sys_session s = SesLogin loginRetryDelay \<Longrightarrow> login_run H s [] s"
| login_goes_on:
    "login_run H s waits t \<Longrightarrow> logging_in (sys_session t) \<Longrightarrow> mqtt_step H t t' \<Longrightarrow>
     login_run H s (waits @ new_wait (sys_session t) (sys_session t')) t'"

text \<open>The other goroutines leave the session where it is, and time does not run backwards.\<close>

lemma forceReconnect_session: "forceReconnect t t' \<Longrightarrow> sys_session t' = sys_session t \<and> sys_now t' = sys_now t"
  by (induction rule: forceReconnect.induct) (simp_all add: sys_do_def)

lemma monitor_step_session: "monitor_step H t t' \<Longrightarrow> sys_session t' = sys_session t \<and> sys_now t' = sys_now t"
  by (induction rule: monitor_step.induct) (simp_all add: sys_do_def forceReconnect_session)

lemma ping_step_session: "ping_step t t' \<Longrightarrow> sys_session t' = sys_session t \<and> sys_now t' = sys_now t"
  by (induction rule: ping_step.induct) (simp_all add: sys_do_def)

lemma other_step_session: "other_step H t t' \<Longrightarrow> sys_session t' = sys_session t \<and> sys_now t \<le> sys_now t'"
  by (induction rule: other_step.induct) (simp_all add: sys_do_def)

lemma mqtt_step_login:
  assumes "mqtt_step H t t'"
  obtains "session_step t t'" | "sys_session t' = sys_session t" "sys_now t \<le> sys_now t'"
  using assms monitor_step_session ping_step_session other_step_session by (cases rule: mqtt_step.cases) fastforce+

section \<open>Its invariant\<close>

abbreviation login_backoff :: "nat \<Rightarrow> duration" where
  "login_backoff \<equiv> backoff loginRetryDelay maxLoginDelay"

text \<open>
  After \<open>n\<close> failures the session has waited, or is waiting, for the first \<open>n\<close> delays of the schedule.
\<close>

definition login_phase :: "time \<Rightarrow> duration list \<Rightarrow> 'h mqtt_system \<Rightarrow> bool" where
  "login_phase start waits t \<longleftrightarrow> waits = map login_backoff [0..<length waits] \<and>
     (case sys_session t of
        SesLogin d \<Rightarrow> d = login_backoff (length waits) \<and> start + sum_list waits \<le> sys_now t
      | SesLoginWait d until \<Rightarrow> waits \<noteq> [] \<and> d = login_backoff (length waits - 1) \<and> start + sum_list waits \<le> until
      | SesStore c \<Rightarrow> start + sum_list waits \<le> sys_now t
      | SesAfter \<Rightarrow> waits \<noteq> [] \<and> sys_cancelled t
      | _ \<Rightarrow> False)"

lemma session_step_phase:
  assumes "session_step t t'" and "logging_in (sys_session t)" and "login_phase start waits t"
  shows "login_phase start (waits @ new_wait (sys_session t) (sys_session t')) t'"
  using assms
proof (induction rule: session_step.induct)
  case (login_again t d until)
  have "min (wrap64 (2 * d)) maxLoginDelay = login_backoff (length waits)"
    using login_again backoff_Suc [OF login_backoff_ok, of "length waits - 1"]
    by (simp add: login_phase_def)
  with login_again show ?case by (simp add: login_phase_def)
qed (auto simp: login_phase_def)

lemma login_run_phase: "login_run H s waits t \<Longrightarrow> login_phase (sys_now s) waits t"
proof (induction rule: login_run.induct)
  case login_starts
  then show ?case by (simp add: login_phase_def)
next
  case (login_goes_on waits t t')
  from login_goes_on.hyps(3) show ?case
  proof (cases rule: mqtt_step_login)
    case 1
    then show ?thesis using session_step_phase login_goes_on by blast
  next
    case 2
    then show ?thesis using login_goes_on by (cases "sys_session t") (auto simp: login_phase_def)
  qed
qed

section \<open>Property\<close>

text \<open>C35: The login of a session is \<open>retryWithBackoff\<close> without a limit of attempts, whatever the other
  goroutines do meanwhile. When the session stores its client after \<open>n\<close> failed logins, the loop of
  \<open>retry.go\<close>, whose first \<open>n\<close> calls fail, succeeds and has waited for the same delays, which have passed; when
  the session is cancelled, the loop is cancelled in the same wait. While the session logs in, the next
  delay is that of the schedule.\<close>
theorem login_follows_retry:
  assumes "login_run H s waits t"
  shows "case sys_session t of
      SesLogin d \<Rightarrow> waits @ [d] = map (backoff loginRetryDelay maxLoginDelay) [0..<Suc (length waits)]
    | SesLoginWait d until \<Rightarrow> waits = map (backoff loginRetryDelay maxLoginDelay) [0..<length waits]
        \<and> waits \<noteq> [] \<and> d = last waits
    | SesStore c \<Rightarrow> retryWithBackoff 0 loginRetryDelay maxLoginDelay
          (\<lambda>i. if i \<le> length waits then Some err else None) (\<lambda>i. None) = Some (RetryOk, waits)
        \<and> sys_now s + sum_list waits \<le> sys_now t
    | SesAfter \<Rightarrow> sys_cancelled t \<and> retryWithBackoff 0 loginRetryDelay maxLoginDelay
          (\<lambda>i. Some err) (\<lambda>i. if i = length waits then Some cause else None) = Some (RetryCancelled cause, waits)
    | _ \<Rightarrow> False"
proof -
  have phase: "login_phase (sys_now s) waits t" by (rule login_run_phase [OF assms])
  then have sched: "waits = map login_backoff [0..<length waits]" by (simp add: login_phase_def)
  have ok: "retryWithBackoff 0 loginRetryDelay maxLoginDelay
      (\<lambda>i. if i \<le> length waits then Some err else None) (\<lambda>i. None) = Some (RetryOk, waits)"
    using sched by (simp add: retry_loop_steps [OF login_backoff_ok, where n = "length waits"]
        retry_loop.simps [of _ _ _ _ "Suc (length waits)"])
  have cancelled: "retryWithBackoff 0 loginRetryDelay maxLoginDelay
      (\<lambda>i. Some err) (\<lambda>i. if i = length waits then Some cause else None) = Some (RetryCancelled cause, waits)"
    if "waits \<noteq> []"
  proof -
    from that obtain n where "length waits = Suc n" by (cases waits) auto
    with sched show ?thesis
      by (simp add: retry_loop_steps [OF login_backoff_ok, where n = n] retry_loop.simps [of _ _ _ _ "Suc n"])
  qed
  have "last waits = login_backoff (length waits - 1)" if "waits \<noteq> []"
    using that arg_cong [OF sched, of "\<lambda>ws. ws ! (length waits - 1)"] by (simp add: last_conv_nth)
  with phase sched ok cancelled show ?thesis
    by (auto simp: login_phase_def split: session_pc.split)
qed

section \<open>Witness\<close>

text \<open>A login that fails once.\<close>

theorem login_follows_retry_witness:
  "\<exists>t. login_run idle_handler (mqtt_Run minute sample_fresh) [5 * second] t \<and> sys_session t = SesStore 1
     \<and> retryWithBackoff 0 loginRetryDelay maxLoginDelay (\<lambda>i. if i \<le> 1 then Some ''refused'' else None) (\<lambda>i. None)
        = Some (RetryOk, [5 * second])
     \<and> minute + 5 * second \<le> sys_now t"
proof -
  let ?s0 = "mqtt_Run minute sample_fresh"
  let ?s1 = "?s0\<lparr>sys_session := SesLoginWait (5 * second) (minute + 5 * second)\<rparr>"
  let ?s2 = "?s1\<lparr>sys_now := minute + 5 * second\<rparr>"
  let ?s3 = "?s2\<lparr>sys_session := SesLogin (10 * second)\<rparr>"
  let ?s4 = "?s3\<lparr>sys_mqtt := sample_fresh\<lparr>mq_userId := ''u7''\<rparr>, sys_session := SesStore 1\<rparr>"
  have "session_step ?s0 (?s0\<lparr>sys_mqtt := sample_fresh, sys_session := SesLoginWait loginRetryDelay (sys_now ?s0 + loginRetryDelay)\<rparr>)"
    by (rule login_failed [where http_post = "\<lambda>b. HttpFailed ''refused''" and new_client = "\<lambda>e p. Inr 1"])
      (simp_all add: mqtt_Run_def mqtt_login_def getUserId_def)
  then have 1: "mqtt_step idle_handler ?s0 ?s1"
    by (intro session) (simp_all add: mqtt_Run_def loginRetryDelay_def)
  have 2: "mqtt_step idle_handler ?s1 ?s2"
    by (intro other time_passes) (simp_all add: mqtt_Run_def)
  have 3: "mqtt_step idle_handler ?s2 ?s3"
    using login_again [of ?s2 "5 * second" "minute + 5 * second"]
    by (intro session) (simp_all add: mqtt_Run_def maxLoginDelay_def wrap64_small)
  have 4: "mqtt_step idle_handler ?s3 ?s4"
    by (rule session, simp add: mqtt_Run_def,
        rule login_ok [where d = "10 * second" and http_post = sample_post and new_client = "\<lambda>e p. Inr 1"])
      (simp_all add: mqtt_Run_def sample_login_any [simplified])
  have "login_run idle_handler ?s0 [] ?s0" by (rule login_starts) (simp add: mqtt_Run_def)
  from login_goes_on [OF login_goes_on [OF login_goes_on [OF login_goes_on [OF this _ 1] _ 2] _ 3] _ 4]
  have run: "login_run idle_handler ?s0 [5 * second] ?s4" by (simp add: mqtt_Run_def)
  from login_follows_retry [OF this, of "''refused''"] show ?thesis
    by (intro exI [of _ ?s4] conjI run) (simp_all add: mqtt_Run_def)
qed

end
