(* ===== verification/Mqtt_History.thy ===== *)
theory Mqtt_History
  imports Mqtt_Runs
begin

text \<open>
  The history of a run of the MQTT exporter, \<open>sys_effects\<close>, explains its state: what is cached for a
  device, what a callback carries with it and what an online update contains are values that have
  been decoded from messages of that device, and the handlers are in the state in which the updates
  of the history, in their order, have put them.
\<close>

section \<open>Values that were received\<close>

definition received_value :: "mqtt_effect list \<Rightarrow> gostring \<Rightarrow> gostring \<Rightarrow> goval \<Rightarrow> bool" where
  "received_value es sn k v \<longleftrightarrow> (\<exists>ps. EffDecoded sn ps \<in> set es \<and> fmlookup ps k = Some v)"

definition all_received :: "mqtt_effect list \<Rightarrow> gostring \<Rightarrow> params \<Rightarrow> bool" where
  "all_received es sn ps \<longleftrightarrow> (\<forall>k v. fmlookup ps k = Some v \<longrightarrow> received_value es sn k v)"

fun callback_received :: "mqtt_effect list \<Rightarrow> callback \<Rightarrow> bool" where
  "callback_received es (MsgMerge sn ps) = all_received es sn ps"
| "callback_received es (MsgDispatch sn full) = all_received es sn full"
| "callback_received es _ = True"

fun effect_received :: "mqtt_effect list \<Rightarrow> mqtt_effect \<Rightarrow> bool" where
  "effect_received es (EffUpdate u) =
    (if dev_Online (upd_device u) = 0 then upd_params u = fmempty
     else dev_Online (upd_device u) = 1 \<and> all_received es (dev_SN (upd_device u)) (upd_params u))"
| "effect_received es _ = True"

definition history_inv :: "'h mqtt_system \<Rightarrow> bool" where
  "history_inv s \<longleftrightarrow>
     (\<forall>sn full. fmlookup (mq_deviceState (sys_mqtt s)) sn = Some full \<longrightarrow> all_received (sys_effects s) sn full)
     \<and> list_all (callback_received (sys_effects s)) (sys_callbacks s)
     \<and> list_all (effect_received (sys_effects s)) (sys_effects s)"

lemma all_received_empty [simp]: "all_received es sn fmempty"
  by (simp add: all_received_def)

lemma all_received_now: "EffDecoded sn ps \<in> set es \<Longrightarrow> all_received es sn ps"
  by (auto simp: all_received_def received_value_def)

lemma all_received_add: "all_received es sn ps \<Longrightarrow> all_received es sn ps' \<Longrightarrow> all_received es sn (ps ++\<^sub>f ps')"
  by (auto simp: all_received_def split: if_splits)

lemma all_received_mono: "all_received es sn ps \<Longrightarrow> all_received (es @ es') sn ps"
  by (fastforce simp: all_received_def received_value_def)

lemma callback_received_mono: "callback_received es cb \<Longrightarrow> callback_received (es @ es') cb"
  by (cases cb) (auto intro: all_received_mono)

lemma effect_received_mono: "effect_received es e \<Longrightarrow> effect_received (es @ es') e"
  by (cases e) (auto intro: all_received_mono split: if_splits)

lemma history_do:
  assumes "history_inv s" and "list_all (effect_received (sys_effects s @ es)) es"
    and "list_all (callback_received (sys_effects s @ es)) new" and "sys_callbacks s = before @ cbs @ after"
    and "\<And>sn full. fmlookup (mq_deviceState m) sn = Some full \<Longrightarrow>
      fmlookup (mq_deviceState (sys_mqtt s)) sn = Some full \<or> all_received (sys_effects s @ es) sn full"
  shows "history_inv (sys_do m es (s\<lparr>sys_callbacks := before @ new @ after\<rparr>))"
proof -
  have "all_received (sys_effects s @ es) sn full" if "fmlookup (mq_deviceState m) sn = Some full" for sn full
    using assms(1) assms(5) [OF that] all_received_mono unfolding history_inv_def by blast
  then show ?thesis
    using assms(1-4)
    by (auto simp: history_inv_def sys_do_def list_all_iff
        intro: callback_received_mono effect_received_mono)
qed

text \<open>Steps that change neither the cached states nor the callbacks and send no update.\<close>

lemma history_same:
  assumes "history_inv s" and "mq_deviceState (sys_mqtt t) = mq_deviceState (sys_mqtt s)"
    and "sys_callbacks t = sys_callbacks s" and "sys_effects t = sys_effects s @ es"
    and "list_all (effect_received (sys_effects s @ es)) es"
  shows "history_inv t"
  using assms
  by (auto simp: history_inv_def list_all_iff
      intro: all_received_mono callback_received_mono effect_received_mono)

lemma same_state:
  "mqtt_login post new_client m = (r, m') \<Longrightarrow> mq_deviceState m' = mq_deviceState m"
  "reconnectDue now m = (b, m') \<Longrightarrow> mq_deviceState m' = mq_deviceState m"
  "reloginDue m = (b, m') \<Longrightarrow> mq_deviceState m' = mq_deviceState m"
  "offlineUpdatesDue now offline m = (due, m') \<Longrightarrow> mq_deviceState m' = mq_deviceState m"
  "ping_device refresh now c publish sn m = (msg, m') \<Longrightarrow> mq_deviceState m' = mq_deviceState m"
  "requestLatestQuotas now publish sn m = (err, msg, m') \<Longrightarrow> mq_deviceState m' = mq_deviceState m"
  "call_handlers H envs u m = (errs, m') \<Longrightarrow> mq_deviceState m' = mq_deviceState m"
  "markReceived now sn m = (b, m') \<Longrightarrow> mq_deviceState m' = mq_deviceState m"
  "decode_message env sn payload m = (res, m') \<Longrightarrow> mq_deviceState m' = mq_deviceState m"
  by (auto simp: mqtt_login_def reconnectDue_def reloginDue_def Let_def offlineUpdatesDue_def markReceived_def
      decode_message_def split: if_splits sum.splits prod.splits option.splits
      dest!: ping_device_same request_same same_but_pings_fields(7) call_handlers_frame)

lemma same_state_send:
  "send_offline H envs now sn m = (u, m') \<Longrightarrow> mq_deviceState m' = mq_deviceState m \<and> effect_received es (EffUpdate u)"
  by (auto simp: send_offline_def Let_def NewDeviceUpdate_def offline_device_def
      intro!: same_state(7) prod.collapse [symmetric])

lemma same_state_dispatch:
  "dispatch_state H env sn full m = (outcome, effects, m') \<Longrightarrow> mq_deviceState m' = mq_deviceState m"
  by (auto simp: dispatch_state_def Let_def split: if_splits prod.splits dest!: same_state(7))

lemma dispatched_received:
  assumes "dispatch_state H env sn full m = (outcome, effects, m')" and "all_received es sn full"
  shows "list_all (effect_received (es @ effects)) effects"
  using dispatch_state_effects [OF assms(1)] assms(2)
  by (auto simp: NewDeviceUpdate_def intro: all_received_mono)

lemma merged_received:
  assumes "merge_state sn ps m = (full, m')"
    and "\<And>sn full. fmlookup (mq_deviceState m) sn = Some full \<Longrightarrow> all_received es sn full" and "all_received es sn ps"
  shows "all_received es sn full"
  using assms by (auto simp: merge_state_def Let_def intro!: all_received_add split: option.splits)

lemma merged_state: "merge_state sn ps m = (full, m') \<Longrightarrow> mq_deviceState m' = fmupd sn full (mq_deviceState m)"
  by (auto simp: merge_state_def Let_def)

lemma callback_step_history:
  assumes "callback_step H now cb m effects new m'" and "callback_received es cb"
    and "\<And>sn full. fmlookup (mq_deviceState m) sn = Some full \<Longrightarrow> all_received es sn full"
  shows "list_all (effect_received (es @ effects)) effects \<and> list_all (callback_received (es @ effects)) new
    \<and> (\<forall>sn full. fmlookup (mq_deviceState m') sn = Some full \<longrightarrow>
        fmlookup (mq_deviceState m) sn = Some full \<or> all_received (es @ effects) sn full)"
  using assms
proof (induction rule: callback_step.induct)
  case (msg_decoded env sn payload m ps m')
  then show ?case by (auto dest: same_state(9) intro: all_received_now)
next
  case (msg_merged ps sn m full m')
  have "all_received es sn full"
    by (rule merged_received [OF msg_merged(2)]) (use msg_merged(3,4) in auto)
  then show ?case by (simp add: merged_state [OF msg_merged(2)])
next
  case (msg_dispatched env sn full m outcome effects m')
  then show ?case using dispatched_received [OF msg_dispatched(1)] same_state_dispatch [OF msg_dispatched(1)] by auto
qed (auto simp: initDeviceStatuses_def OnConnectionLost_def OnReconnect_def sent_def split: option.splits
    dest!: same_state(6,8,9))

lemma mqtt_step_history:
  assumes "mqtt_step H s t" and "history_inv s"
  shows "history_inv t"
  using assms(1)
proof cases
  case session
  from session(2) show ?thesis
    by cases (auto intro!: history_same [OF assms(2)] simp: sys_do_def dest: same_state(1))
next
  case monitor
  from monitor(2) show ?thesis
  proof cases
    case (monitor_send offline sn due envs u m)
    then show ?thesis using same_state_send [OF monitor_send(3)]
      by (intro history_same [OF assms(2), of _ "[EffUpdate u]"]) (auto simp: sys_do_def)
  next
    case monitor_force
    then show ?thesis by cases (auto intro!: history_same [OF assms(2)] simp: sys_do_def)
  qed (auto intro!: history_same [OF assms(2), of _ "[]"] simp: requestRelogin_def dest: same_state)
next
  case ping
  from ping(2) show ?thesis
    by cases (auto intro!: history_same [OF assms(2)] simp: sys_do_def sent_def split: option.split dest: same_state(5))
next
  case other
  from other(2) show ?thesis
  proof cases
    case (client_calls c cb)
    then show ?thesis using assms(2) by (cases cb) (auto simp: history_inv_def)
  next
    case (callback before cb after effects new m)
    have "callback_received (sys_effects s) cb" using assms(2) callback(2) by (auto simp: history_inv_def)
    moreover have "\<And>sn full. fmlookup (mq_deviceState (sys_mqtt s)) sn = Some full \<Longrightarrow> all_received (sys_effects s) sn full"
      using assms(2) by (simp add: history_inv_def)
    ultimately show ?thesis
      using callback_step_history [OF callback(3)] history_do [OF assms(2), of effects new before "[cb]" after m] callback(1,2)
      by auto
  qed (auto intro!: history_same [OF assms(2), of _ "[]"])
qed

lemma reachable_history:
  assumes "mqtt_reachable H cfg hs s"
  shows "history_inv s"
proof -
  obtain m now where m: "NewMqttMetricsExporter cfg hs = Inr m" "mqtt_steps H (mqtt_Run now m) s"
    using assms by (auto simp: mqtt_reachable_def)
  have "history_inv (mqtt_Run now m)"
    using m(1) by (auto simp: history_inv_def mqtt_Run_def NewMqttMetricsExporter_def split: if_splits)
  with m(2) show ?thesis by (induction rule: mqtt_steps.induct) (auto intro: mqtt_step_history)
qed

section \<open>The handlers\<close>

text \<open>The updates of a history, in the order in which they were dispatched.\<close>

definition delivered :: "mqtt_effect list \<Rightarrow> device_update list" where
  "delivered es = List.map_filter (\<lambda>e. case e of EffUpdate u \<Rightarrow> Some u | _ \<Rightarrow> None) es"

lemma delivered_simps [simp]:
  "delivered [] = []" "delivered (EffUpdate u # es) = u # delivered es"
  "delivered (EffDecoded sn ps # es) = delivered es" "delivered (EffRequest sn # es) = delivered es"
  "delivered (EffConnect c # es) = delivered es" "delivered (EffDisconnect c # es) = delivered es"
  "delivered (EffSubscribe c sn # es) = delivered es" "delivered (sent msg) = []"
  "delivered (es @ es') = delivered es @ delivered es'"
  by (simp_all add: delivered_def List.map_filter_simps sent_def split: option.split)
    (simp add: List.map_filter_def)

lemma delivered_iff: "u \<in> set (delivered es) \<longleftrightarrow> EffUpdate u \<in> set es"
proof -
  have "(case e of EffUpdate u \<Rightarrow> Some u | _ \<Rightarrow> None) = Some u \<longleftrightarrow> e = EffUpdate u" for e by (cases e) auto
  then show ?thesis by (simp add: delivered_def set_map_filter_iff)
qed

definition handlers_inv :: "('e, 'h) handler \<Rightarrow> 'h list \<Rightarrow> 'h mqtt_system \<Rightarrow> bool" where
  "handlers_inv H hs0 s \<longleftrightarrow> handled H hs0 (delivered (sys_effects s)) (mq_handlers (sys_mqtt s))"

lemma handlers_same:
  "handlers_inv H hs0 s \<Longrightarrow> mq_handlers (sys_mqtt t) = mq_handlers (sys_mqtt s) \<Longrightarrow>
   sys_effects t = sys_effects s @ es \<Longrightarrow> delivered es = [] \<Longrightarrow> handlers_inv H hs0 t"
  by (simp add: handlers_inv_def)

lemma handled_call:
  "handled H hs0 us (mq_handlers m) \<Longrightarrow> call_handlers H envs u m = (errs, m') \<Longrightarrow>
   handled H hs0 (us @ [u]) (mq_handlers m')"
  by (auto simp: call_handlers_def split: prod.splits intro: handled_more)

lemma handled_send:
  "handled H hs0 us (mq_handlers m) \<Longrightarrow> send_offline H envs now sn m = (u, m') \<Longrightarrow>
   handled H hs0 (us @ [u]) (mq_handlers m')"
  by (auto simp: send_offline_def Let_def intro!: handled_call prod.collapse [symmetric])

lemma same_handlers_callback:
  "requestLatestQuotas now publish sn m = (err, msg, m') \<Longrightarrow> mq_handlers m' = mq_handlers m"
  "markReceived now sn m = (b, m') \<Longrightarrow> mq_handlers m' = mq_handlers m"
  "decode_message env sn payload m = (res, m') \<Longrightarrow> mq_handlers m' = mq_handlers m"
  "merge_state sn ps m = (full, m') \<Longrightarrow> mq_handlers m' = mq_handlers m"
  by (auto simp: markReceived_def decode_message_def merge_state_def Let_def split: prod.splits option.splits
      dest!: request_same same_but_pings_fields(6))

lemma callback_step_handled:
  assumes "callback_step H now cb m effects new m'" and "handled H hs0 us (mq_handlers m)"
  shows "handled H hs0 (us @ delivered effects) (mq_handlers m')"
  using assms
proof (induction rule: callback_step.induct)
  case (msg_dispatched env sn full m outcome effects m')
  then show ?case
    by (auto simp: dispatch_state_def Let_def split: if_splits prod.splits) (erule handled_call [rotated], simp)
qed (auto simp: initDeviceStatuses_def OnConnectionLost_def OnReconnect_def dest: same_handlers_callback)

lemma mqtt_step_handled:
  assumes "mqtt_step H s t" and "handlers_inv H hs0 s"
  shows "handlers_inv H hs0 t"
  using assms(1)
proof cases
  case session
  from session(2) show ?thesis
    by cases (auto intro!: handlers_same [OF assms(2)] simp: sys_do_def dest: same_handlers(1))
next
  case monitor
  from monitor(2) show ?thesis
  proof cases
    case (monitor_send offline sn due envs u m)
    then show ?thesis using handled_send [OF _ monitor_send(3)] assms(2) by (simp add: handlers_inv_def sys_do_def)
  next
    case monitor_force
    then show ?thesis by cases (auto intro!: handlers_same [OF assms(2)] simp: sys_do_def)
  qed (auto intro!: handlers_same [OF assms(2), of _ "[]"] simp: requestRelogin_def dest: same_handlers)
next
  case ping
  from ping(2) show ?thesis
    by cases (auto intro!: handlers_same [OF assms(2)] simp: sys_do_def dest: same_handlers(5))
next
  case other
  from other(2) show ?thesis
  proof cases
    case (callback before cb after effects new m)
    then show ?thesis using callback_step_handled [OF callback(3)] assms(2) by (simp add: handlers_inv_def sys_do_def)
  qed (auto intro!: handlers_same [OF assms(2), of _ "[]"])
qed

lemma reachable_handled:
  assumes "mqtt_reachable H cfg hs s"
  shows "handled H hs (delivered (sys_effects s)) (mq_handlers (sys_mqtt s))"
proof -
  obtain m now where m: "NewMqttMetricsExporter cfg hs = Inr m" "mqtt_steps H (mqtt_Run now m) s"
    using assms by (auto simp: mqtt_reachable_def)
  have "handlers_inv H hs (mqtt_Run now m)"
    using m(1) by (auto simp: handlers_inv_def mqtt_Run_def NewMqttMetricsExporter_def handled_none split: if_splits)
  with m(2) have "handlers_inv H hs s" by (induction rule: mqtt_steps.induct) (auto intro: mqtt_step_handled)
  then show ?thesis by (simp add: handlers_inv_def)
qed

text \<open>What a reachable history says of an update.\<close>

lemma reachable_update:
  assumes "mqtt_reachable H cfg hs s" and "EffUpdate u \<in> set (sys_effects s)"
  shows "effect_received (sys_effects s) (EffUpdate u)" "update_ok (mc_Devices cfg) u"
proof -
  show "effect_received (sys_effects s) (EffUpdate u)"
    using reachable_history [OF assms(1)] assms(2) unfolding history_inv_def list_all_iff by blast
  show "update_ok (mc_Devices cfg) u"
    using reachable_config(6) [OF assms(1)] assms(2) unfolding list_all_iff by fastforce
qed

section \<open>Properties\<close>

text \<open>C7: Nothing is made up and nothing is mixed up: in every run, whatever the messages and however
  the goroutines interleave, every parameter of every online update was decoded, with that value,
  from a message of the very device that the update is about; offline updates have no parameters,
  and there are no other updates.\<close>
theorem updates_were_received:
  assumes "mqtt_reachable H cfg hs s" and "EffUpdate u \<in> set (sys_effects s)"
  shows "(dev_Online (upd_device u) = 0 \<and> upd_params u = fmempty)
    \<or> (dev_Online (upd_device u) = 1 \<and> (\<forall>k v. fmlookup (upd_params u) k = Some v \<longrightarrow>
         (\<exists>ps. EffDecoded (dev_SN (upd_device u)) ps \<in> set (sys_effects s) \<and> fmlookup ps k = Some v)))"
  using reachable_update(1) [OF assms] by (simp add: all_received_def received_value_def split: if_splits)

text \<open>The handlers see every update exactly once and in one order: in every run their states are
  those that the updates of the history, dispatched one after the other, lead to.\<close>
theorem handlers_see_history:
  assumes "mqtt_reachable H cfg hs s"
  shows "handled H hs (delivered (sys_effects s)) (mq_handlers (sys_mqtt s))"
  by (rule reachable_handled [OF assms])

section \<open>Witnesses\<close>

theorem updates_were_received_witness:
  "\<exists>s u. mqtt_reachable idle_handler sample_mqtt_config [()] s \<and> EffUpdate u \<in> set (sys_effects s)
     \<and> upd_device u = \<lparr>dev_SN = ''R1'', dev_Name = ''garage'', dev_Online = 0\<rparr> \<and> upd_params u = fmempty"
proof -
  obtain s before u v where s: "mqtt_steps idle_handler sample_silent s" "sys_effects s = before @ [EffUpdate u, EffUpdate v]"
    "upd_device v = \<lparr>dev_SN = ''R1'', dev_Name = ''garage'', dev_Online = 0\<rparr>"
    using sample_race by blast
  have r: "mqtt_reachable idle_handler sample_mqtt_config [()] s" by (rule reachable_steps [OF sample_silent_reachable s(1)])
  moreover have v: "EffUpdate v \<in> set (sys_effects s)" by (simp add: s(2))
  ultimately show ?thesis using updates_were_received [OF r v] s(3) by auto
qed

theorem handlers_see_history_witness:
  "handled idle_handler [()] (delivered (sys_effects sample_silent)) (mq_handlers (sys_mqtt sample_silent))"
  by (rule handlers_see_history [OF sample_silent_reachable])

end
