(* ===== verification/Prom_History.thy ===== *)
theory Prom_History
  imports Prometheus "HOL-Library.Char_ord" "HOL-Library.List_Lexorder"
begin

text \<open>
  \<open>prometheus.go\<close> as the handler of a history of updates: what Prometheus shows of each device. The
  range loops of \<open>Handle\<close> run in an order that Go leaves open; \<open>Handle_ordered\<close> is \<open>Handle\<close> with
  orders that visit each key once, whatever the environment of the call proposes. An update exposes its
  device, and a later update of another device leaves this alone.
\<close>

section \<open>The handler\<close>

definition go_order :: "(gostring, 'v) fmap \<Rightarrow> gostring list \<Rightarrow> gostring list" where
  "go_order m ks = (if range_order m ks then ks else sorted_list_of_fset (fmdom m))"

definition Handle_ordered :: "unicode_tables \<Rightarrow> (gostring list \<times> gostring list, prom) handler" where
  "Handle_ordered T orders p u =
     Handle \<lparr>pe_tables = T, pe_params_order = go_order (upd_params u) (fst orders),
       pe_metrics_order = go_order (pr_metrics p) (snd orders)\<rparr> p u"

lemma go_order_range [simp]: "range_order m (go_order m ks)"
proof -
  have "distinct (sorted_list_of_fset (fmdom m))" by (simp add: sorted_list_of_fset.rep_eq)
  then show ?thesis by (simp add: go_order_def range_order_def)
qed

text \<open>Every order that the runtime can choose is one of these.\<close>

lemma Handle_ordered_any:
  "range_order (upd_params u) (pe_params_order e) \<Longrightarrow> range_order (pr_metrics p) (pe_metrics_order e) \<Longrightarrow>
   Handle_ordered (pe_tables e) (pe_params_order e, pe_metrics_order e) p u = Handle e p u"
  by (cases e) (simp add: Handle_ordered_def go_order_def)

section \<open>What an update exposes\<close>

text \<open>
  The update gives the metric \<open>name\<close> the value \<open>v\<close>: it is the value of a numeric parameter with this
  metric name, no other numeric parameter has it, and it is not the name of the online gauge.
\<close>

definition gives :: "unicode_tables \<Rightarrow> gostring \<Rightarrow> device_update \<Rightarrow> gostring \<Rightarrow> float64 \<Rightarrow> bool" where
  "gives T prefix u name v \<longleftrightarrow> name \<noteq> prefix @ ''_online''
     \<and> (\<exists>k raw d. fmlookup (upd_params u) k = Some raw \<and> toFloat raw = (v, True)
          \<and> generateMetricName T k prefix (dev_SN (upd_device u)) = Inr (name, d)
          \<and> (\<forall>k' raw' d'. fmlookup (upd_params u) k' = Some raw' \<longrightarrow> snd (toFloat raw') \<longrightarrow>
               generateMetricName T k' prefix (dev_SN (upd_device u)) = Inr (name, d') \<longrightarrow> k' = k))"

text \<open>
  The device of the update is shown as the update says: the online gauge has the flag; an offline device
  has no other series, and an online one shows what the update gives.
\<close>

definition exposed :: "unicode_tables \<Rightarrow> prom \<Rightarrow> device_update \<Rightarrow> bool" where
  "exposed T p u \<longleftrightarrow>
     series p (dev_SN (upd_device u)) (pr_prefix p @ ''_online'') = Some (f64_of_int (dev_Online (upd_device u)))
     \<and> (\<forall>name. if dev_Online (upd_device u) = 0
          then name \<noteq> pr_prefix p @ ''_online'' \<longrightarrow> series p (dev_SN (upd_device u)) name = None
          else \<forall>v. gives T (pr_prefix p) u name v \<longrightarrow> series p (dev_SN (upd_device u)) name = Some v)"

lemma Handle_ordered_exposes:
  assumes "prom_inv p" and "plain_state p" and "plain_sn (dev_SN (upd_device u))"
    and "upd_samples u = fmempty" and "Handle_ordered T orders p u = (r, p', u')"
  shows "exposed T p' u"
proof -
  note h = assms(5) [unfolded Handle_ordered_def]
  have prefix: "pr_prefix p' = pr_prefix p" using Handle_prefix [OF h] .
  have off: "series p' (dev_SN (upd_device u)) name = None"
    if "dev_Online (upd_device u) = 0" "name \<noteq> pr_prefix p @ ''_online''" for name
    using Handle_offline [OF assms(1-3) _ that(1) h, of name] that(2) by simp
  have on: "series p' (dev_SN (upd_device u)) name = Some v"
    if "dev_Online (upd_device u) \<noteq> 0" "gives T (pr_prefix p) u name v" for name v
  proof -
    from that(2) obtain k raw d where "fmlookup (upd_params u) k = Some raw" "toFloat raw = (v, True)"
      "generateMetricName T k (pr_prefix p) (dev_SN (upd_device u)) = Inr (name, d)" "name \<noteq> pr_prefix p @ ''_online''"
      and only: "\<forall>k' raw' d'. fmlookup (upd_params u) k' = Some raw' \<longrightarrow> snd (toFloat raw') \<longrightarrow>
        generateMetricName T k' (pr_prefix p) (dev_SN (upd_device u)) = Inr (name, d') \<longrightarrow> k' = k"
      unfolding gives_def by blast
    then show ?thesis
      by (intro Handle_exposes [OF _ assms(4) that(1) h, unfolded prom_env.simps, where k = k and raw = raw and d = d,
            OF go_order_range _ _ _ _ only [rule_format]])
  qed
  show ?thesis
    using Handle_online_value [OF h] off on by (simp add: exposed_def prefix)
qed

lemma Handle_ordered_keeps:
  assumes "prom_inv p" and "plain_state p" and "plain_sn (dev_SN (upd_device u))"
    and "Handle_ordered T orders p u = (r, p', u')" and "exposed T p v"
    and "plain_sn (dev_SN (upd_device v))" and "dev_SN (upd_device v) \<noteq> dev_SN (upd_device u)"
  shows "exposed T p' v"
proof -
  note h = assms(4) [unfolded Handle_ordered_def]
  have "series p' (dev_SN (upd_device v)) name = series p (dev_SN (upd_device v)) name" for name
    by (rule Handle_other_device [OF assms(1-3) _ assms(6,7) h]) simp
  then show ?thesis using assms(5) Handle_prefix [OF h] by (simp add: exposed_def)
qed

text \<open>After a history, every device is shown as its last update says.\<close>

lemma handled_exposes:
  assumes "handled (Handle_ordered T) [NewPrometheusExporter prefix] history hs"
    and "\<And>u. u \<in> set history \<Longrightarrow> upd_samples u = fmempty \<and> plain_sn (dev_SN (upd_device u))"
  shows "\<exists>p. hs = [p] \<and> pr_prefix p = prefix \<and> prom_inv p \<and> plain_state p
    \<and> (\<forall>before u later. history = before @ u # later \<longrightarrow>
         (\<forall>v \<in> set later. dev_SN (upd_device v) \<noteq> dev_SN (upd_device u)) \<longrightarrow> exposed T p u)"
  using assms
proof (induction rule: handled.induct)
  case handled_none
  then show ?case by (simp add: NewPrometheusExporter_def prom_inv_def plain_state_def)
next
  case (handled_more history hs envs w hs' w' errs)
  then obtain p where p: "hs = [p]" "pr_prefix p = prefix" "prom_inv p" "plain_state p"
    and old: "\<forall>before u later. history = before @ u # later \<longrightarrow>
         (\<forall>v \<in> set later. dev_SN (upd_device v) \<noteq> dev_SN (upd_device u)) \<longrightarrow> exposed T p u"
    by (metis UnI1 set_append)
  have w: "upd_samples w = fmempty" "plain_sn (dev_SN (upd_device w))" using handled_more.prems by simp_all
  obtain r p' x where h: "Handle_ordered T (envs 0) p w = (r, p', x)" by (metis surj_pair)
  note h' = h [unfolded Handle_ordered_def]
  have hs': "hs' = [p']" using handled_more.hyps(2) p(1) single_dispatch [of "Handle_ordered T" envs p w] h by simp
  have "exposed T p' u"
    if "history @ [w] = before @ u # later" "\<forall>v \<in> set later. dev_SN (upd_device v) \<noteq> dev_SN (upd_device u)"
    for before u later
  proof (cases later rule: rev_cases)
    case Nil
    with that(1) have "u = w" by simp
    then show ?thesis using Handle_ordered_exposes [OF p(3,4) w(2,1) h] by simp
  next
    case (snoc rest v)
    with that(1) have split: "history = before @ u # rest" and v: "v = w" by simp_all
    have "exposed T p u" using old split that(2) snoc by simp
    moreover have "plain_sn (dev_SN (upd_device u))" using handled_more.prems [of u] split by simp
    moreover have "dev_SN (upd_device u) \<noteq> dev_SN (upd_device w)" using that(2) snoc v by auto
    ultimately show ?thesis using Handle_ordered_keeps [OF p(3,4) w(2) h] by blast
  qed
  moreover have "pr_prefix p' = prefix" "prom_inv p'" "plain_state p'"
    using Handle_prefix [OF h'] Handle_inv [OF p(3) h'] Handle_plain [OF p(4) w(2) h'] p(2) by simp_all
  ultimately show ?case using hs' by blast
qed

section \<open>A sample update\<close>

lemma bms_name: "generateMetricName T ''bms.3.num'' prefix sn = Inr (prefix @ ''_bms_3_num'', sn @ ''_'' @ prefix @ ''_bms_3_num'')"
proof -
  have "snake ''bms.3.num'' = ''bms_3_num''" by code_simp
  moreover have "ascii ''bms.3.num''" by (simp add: ascii_def code_def)
  ultimately show ?thesis
    using snake_conversion [of "''bms.3.num''" T] by (simp add: generateMetricName_def Let_def)
qed

lemma sample_exposed:
  assumes "exposed T p \<lparr>upd_device = \<lparr>dev_SN = ''R1'', dev_Name = name, dev_Online = 1\<rparr>, upd_time = now,
      upd_params = fmupd ''bms.3.num'' (VFloat64 (Fin 3)) fmempty, upd_samples = cache\<rparr>"
    and "pr_prefix p = ''ecoflow''"
  shows "series p ''R1'' ''ecoflow_online'' = Some (Fin 1) \<and> series p ''R1'' ''ecoflow_bms_3_num'' = Some (Fin 3)"
proof -
  let ?u = "\<lparr>upd_device = \<lparr>dev_SN = ''R1'', dev_Name = name, dev_Online = 1\<rparr>, upd_time = now,
      upd_params = fmupd ''bms.3.num'' (VFloat64 (Fin 3)) fmempty, upd_samples = cache\<rparr>"
  have "gives T ''ecoflow'' ?u ''ecoflow_bms_3_num'' (Fin 3)"
    by (auto simp: gives_def bms_name)
  with assms show ?thesis by (auto simp: exposed_def)
qed

end
