(* ===== verification/Mqtt_Exposed.thy ===== *)
theory Mqtt_Exposed
  imports Mqtt_History Prom_History
begin

text \<open>
  \<open>mqtt_exporter.go\<close> with the Prometheus exporter as its handler: in every run Prometheus shows each
  device as its last update says, and a round of the monitor makes a silent device one that is
  shown as offline.
\<close>

section \<open>The last update of a device\<close>

text \<open>In every run the handler shows each device as its last update says.\<close>

lemma reachable_exposed:
  assumes "mqtt_reachable (Handle_ordered T) cfg [NewPrometheusExporter prefix] s"
    and "\<And>sn. sn |\<in>| fmdom (mc_Devices cfg) \<Longrightarrow> plain_sn sn"
    and "delivered (sys_effects s) = before @ u # later"
    and "\<And>v. v \<in> set later \<Longrightarrow> dev_SN (upd_device v) \<noteq> dev_SN (upd_device u)"
  obtains p where "mq_handlers (sys_mqtt s) = [p]" "pr_prefix p = prefix" "exposed T p u"
proof -
  have "upd_samples v = fmempty \<and> plain_sn (dev_SN (upd_device v))" if "v \<in> set (delivered (sys_effects s))" for v
    using reachable_update(2) [OF assms(1), of v] that assms(2) by (auto simp: delivered_iff update_ok_def fmlookup_dom_iff)
  from handled_exposes [OF reachable_handled [OF assms(1)] this] assms(3,4) that show ?thesis by blast
qed

section \<open>The monitor, undisturbed\<close>

text \<open>
  Steps of the monitor while nothing but time passes. (What happens when a message arrives in between
  is shown in \<open>stale_offline_update\<close>.)
\<close>

inductive monitor_alone :: "('e, 'h) handler \<Rightarrow> 'h mqtt_system \<Rightarrow> 'h mqtt_system \<Rightarrow> bool" for H s where
  alone_none: "monitor_alone H s s"
| alone_step: "monitor_alone H s t \<Longrightarrow> monitor_step H t t' \<Longrightarrow> monitor_alone H s t'"
| alone_time: "monitor_alone H s t \<Longrightarrow> sys_now t \<le> now \<Longrightarrow> monitor_alone H s (t\<lparr>sys_now := now\<rparr>)"

lemma monitor_alone_reachable:
  assumes "monitor_alone H s t" and "mqtt_reachable H cfg hs s"
  shows "mqtt_reachable H cfg hs t"
  using assms
proof (induction rule: monitor_alone.induct)
  case (alone_step t t')
  then show ?case
    using reachable_steps [OF _ step_monitor [OF _ _ mqtt_steps.none]] reachable_config(4) by blast
next
  case (alone_time t now)
  then show ?case
    using reachable_steps [OF _ step_other [OF time_passes _ mqtt_steps.none]] reachable_config(4) by blast
qed

text \<open>The last update of a device says that it is offline.\<close>

definition last_offline :: "gostring \<Rightarrow> device_update list \<Rightarrow> bool" where
  "last_offline sn us \<longleftrightarrow> (\<exists>before u later. us = before @ u # later \<and> dev_SN (upd_device u) = sn
     \<and> dev_Online (upd_device u) = 0 \<and> (\<forall>v \<in> set later. dev_SN (upd_device v) \<noteq> sn))"

lemma last_offline_more:
  assumes "last_offline sn us \<or> dev_SN (upd_device u) = sn" and "dev_Online (upd_device u) = 0"
  shows "last_offline sn (us @ [u])"
proof (cases "dev_SN (upd_device u) = sn")
  case True
  with assms(2) show ?thesis unfolding last_offline_def by (intro exI [of _ us] exI [of _ u] exI [of _ "[]"]) simp
next
  case False
  with assms(1) obtain before v later where "us = before @ v # later" "dev_SN (upd_device v) = sn"
    "dev_Online (upd_device v) = 0" "\<forall>w \<in> set later. dev_SN (upd_device w) \<noteq> sn"
    unfolding last_offline_def by blast
  with False show ?thesis
    unfolding last_offline_def by (intro exI [of _ before] exI [of _ v] exI [of _ "later @ [u]"]) auto
qed

text \<open>The device \<open>sn\<close> has been silent for too long, and no offline update of it was sent lately.\<close>

definition silent :: "gostring \<Rightarrow> time \<Rightarrow> 'h mqtt \<Rightarrow> bool" where
  "silent sn now m \<longleftrightarrow> (\<exists>t. fmlookup (mq_lastReceived m) sn = Some t \<and> time_sub now t > mq_offlineThreshold m)
     \<and> update_due now (mq_offlineThreshold m) (mq_offlineSent m) sn"

lemma silent_later: "silent sn now m \<Longrightarrow> now \<le> later \<Longrightarrow> silent sn later m"
proof -
  assume s: "silent sn now m" and "now \<le> later"
  then have "time_sub now t \<le> time_sub later t" for t by (simp add: time_sub_mono)
  with s show ?thesis
    unfolding silent_def update_due_def by (auto split: option.splits intro: less_le_trans order_trans)
qed

lemma updates_due_Cons:
  "updates_due now t (x # sns) marks =
    (if update_due now t marks x
     then (case updates_due now t sns (fmupd x now marks) of (due, marks') \<Rightarrow> (x # due, marks'))
     else updates_due now t sns marks)"
  by (simp add: update_due_def split: option.split)

lemma update_due_included:
  assumes "sn \<in> set sns" and "update_due now t marks sn" and "updates_due now t sns marks = (due, marks')"
  shows "sn \<in> set due"
  using assms
proof (induction sns arbitrary: marks due marks')
  case (Cons x sns)
  show ?case
  proof (cases "x = sn")
    case True
    with Cons.prems(2,3) show ?thesis by (auto simp: updates_due_Cons simp del: updates_due.simps split: prod.splits)
  next
    case False
    then have "update_due now t (fmupd x now marks) sn" and sn: "sn \<in> set sns"
      using Cons.prems(1,2) by (simp_all add: update_due_def)
    with Cons.IH [OF sn] Cons.prems(2,3) show ?thesis
      by (auto simp: updates_due_Cons simp del: updates_due.simps split: prod.splits if_splits)
  qed
qed simp

text \<open>What is left to do for the device, or done.\<close>

fun on_its_way :: "gostring \<Rightarrow> time \<Rightarrow> 'h mqtt \<Rightarrow> monitor_pc \<Rightarrow> bool" where
  "on_its_way sn now m MonCheck = silent sn now m"
| "on_its_way sn now m (MonOffline offline) = (sn \<in> set offline \<and> silent sn now m)"
| "on_its_way sn now m (MonSend offline due) = (sn \<in> set due)"
| "on_its_way sn now m _ = False"

definition reported :: "gostring \<Rightarrow> 'h mqtt_system \<Rightarrow> bool" where
  "reported sn s \<longleftrightarrow> last_offline sn (delivered (sys_effects s)) \<or> on_its_way sn (sys_now s) (sys_mqtt s) (sys_monitor s)"

lemma monitor_step_reported:
  assumes "monitor_step H s t" and "reported sn s"
  shows "reported sn t"
  using assms
proof (induction rule: monitor_step.induct)
  case (monitor_offline s ks)
  then show ?case
    by (auto simp: reported_def silent_def offlineDevices_def range_order_mem split: option.splits)
next
  case (monitor_due s offline due m)
  then show ?case
    by (auto simp: reported_def silent_def offlineUpdatesDue_def intro: update_due_included split: prod.splits)
next
  case (monitor_send s offline sn' due envs u m)
  then have u: "dev_SN (upd_device u) = sn'" "dev_Online (upd_device u) = 0"
    by (auto simp: send_offline_def Let_def NewDeviceUpdate_def offline_device_def)
  show ?case
    using monitor_send(1,3) u last_offline_more [of sn "delivered (sys_effects s)" u]
    by (auto simp: reported_def sys_do_def)
next
  case (monitor_force s t)
  then show ?case by (induction rule: forceReconnect.induct) (auto simp: reported_def sys_do_def)
qed (auto simp: reported_def)

lemma monitor_alone_reported: "monitor_alone H s t \<Longrightarrow> reported sn s \<Longrightarrow> reported sn t"
proof (induction rule: monitor_alone.induct)
  case (alone_time t now)
  then show ?case
    by (cases "sys_monitor t") (auto simp: reported_def intro: silent_later)
qed (auto intro: monitor_step_reported)

text \<open>The monitor can always finish its round.\<close>

lemma monitor_round_exists:
  assumes "sys_monitor s = MonCheck"
  shows "\<exists>t offline. monitor_alone H s t \<and> sys_monitor t = MonDecide offline"
proof -
  have send: "\<exists>t. monitor_alone H s t \<and> sys_monitor t = MonDecide offline"
    if "monitor_alone H s u" "sys_monitor u = MonSend offline due" for u offline due
    using that
  proof (induction due arbitrary: u)
    case Nil
    then show ?case using alone_step [OF Nil(1) monitor_sent [OF Nil(2)]] by fastforce
  next
    case (Cons sn due)
    obtain v m where "send_offline H (\<lambda>i. undefined) (sys_now u) sn (sys_mqtt u) = (v, m)" by (metis surj_pair)
    from Cons.IH [OF alone_step [OF Cons.prems(1) monitor_send [OF Cons.prems(2) this]]]
    show ?case by (simp add: sys_do_def)
  qed
  obtain ks where "range_order (mq_lastReceived (sys_mqtt s)) ks" using range_order_exists by blast
  from alone_step [OF alone_none monitor_offline [OF assms this]]
  have 1: "monitor_alone H s (s\<lparr>sys_monitor := MonOffline (offlineDevices (sys_now s) ks (sys_mqtt s))\<rparr>)" .
  obtain due m where "offlineUpdatesDue (sys_now s) (offlineDevices (sys_now s) ks (sys_mqtt s)) (sys_mqtt s) = (due, m)"
    by (metis surj_pair)
  with alone_step [OF 1 monitor_due [of _ "offlineDevices (sys_now s) ks (sys_mqtt s)" due m]]
  have "monitor_alone H s (s\<lparr>sys_mqtt := m, sys_monitor := MonSend (offlineDevices (sys_now s) ks (sys_mqtt s)) due\<rparr>)"
    by simp
  from send [OF this] show ?thesis by auto
qed

section \<open>Properties\<close>

text \<open>C4: Prometheus shows the latest state of every device: in every run of the MQTT exporter, with
  serial numbers that contain no underscore, a device is exposed as its last update says, whatever was
  exposed before and however the updates of other devices interleave: the online gauge is 1 for an
  update with the state of the device and 0 for an offline update, after which the device has no other
  series, and each numeric parameter of an online update has a series with its value, unless its metric
  name is that of another parameter or of the gauge. An online update has no other parameters than
  those that the device has sent.\<close>
theorem latest_update_exposed:
  assumes "mqtt_reachable (Handle_ordered T) cfg [NewPrometheusExporter prefix] s"
    and "\<And>sn. sn |\<in>| fmdom (mc_Devices cfg) \<Longrightarrow> plain_sn sn"
    and "delivered (sys_effects s) = before @ u # later"
    and "\<And>v. v \<in> set later \<Longrightarrow> dev_SN (upd_device v) \<noteq> dev_SN (upd_device u)"
  shows "\<exists>p. mq_handlers (sys_mqtt s) = [p] \<and> pr_prefix p = prefix \<and> exposed T p u
    \<and> series p (dev_SN (upd_device u)) (prefix @ ''_online'') = Some (if dev_Online (upd_device u) = 0 then Fin 0 else Fin 1)
    \<and> (\<forall>k v. fmlookup (upd_params u) k = Some v \<longrightarrow>
         (\<exists>ps. EffDecoded (dev_SN (upd_device u)) ps \<in> set (sys_effects s) \<and> fmlookup ps k = Some v))"
proof -
  obtain p where p: "mq_handlers (sys_mqtt s) = [p]" "pr_prefix p = prefix" "exposed T p u"
    using reachable_exposed [OF assms] by blast
  have u: "effect_received (sys_effects s) (EffUpdate u)"
    using reachable_update(1) [OF assms(1)] assms(3) by (simp add: delivered_iff [symmetric])
  then have "f64_of_int (dev_Online (upd_device u)) = (if dev_Online (upd_device u) = 0 then Fin 0 else Fin 1)"
    by (auto split: if_splits)
  moreover have "\<exists>ps. EffDecoded (dev_SN (upd_device u)) ps \<in> set (sys_effects s) \<and> fmlookup ps k = Some v"
    if "fmlookup (upd_params u) k = Some v" for k v
    using u that by (auto simp: all_received_def received_value_def split: if_splits)
  ultimately show ?thesis using p by (auto simp: exposed_def)
qed

text \<open>C6: A silent device is reported offline: when a check of the monitor begins, a device has been silent for
  longer than the threshold and no offline update was sent to it for a threshold, then the monitor,
  undisturbed, comes to the end of this part of its round, and whenever it does, Prometheus shows the online
  gauge of the device with the value 0 and no other series of it.\<close>
theorem silent_device_shown_offline:
  assumes "mqtt_reachable (Handle_ordered T) cfg [NewPrometheusExporter prefix] s"
    and "\<And>sn. sn |\<in>| fmdom (mc_Devices cfg) \<Longrightarrow> plain_sn sn"
    and "sys_monitor s = MonCheck" and "silent sn (sys_now s) (sys_mqtt s)"
  shows "(\<exists>t offline. monitor_alone (Handle_ordered T) s t \<and> sys_monitor t = MonDecide offline)
    \<and> (\<forall>t offline. monitor_alone (Handle_ordered T) s t \<longrightarrow> sys_monitor t = MonDecide offline \<longrightarrow>
         (\<exists>p. mq_handlers (sys_mqtt t) = [p]
            \<and> (\<forall>name. series p sn name = (if name = prefix @ ''_online'' then Some (Fin 0) else None))))"
proof (intro conjI allI impI)
  show "\<exists>t offline. monitor_alone (Handle_ordered T) s t \<and> sys_monitor t = MonDecide offline"
    by (rule monitor_round_exists [OF assms(3)])
next
  fix t offline
  assume t: "monitor_alone (Handle_ordered T) s t" "sys_monitor t = MonDecide offline"
  have "reported sn s" using assms(3,4) by (simp add: reported_def)
  from monitor_alone_reported [OF t(1) this] t(2) have "last_offline sn (delivered (sys_effects t))"
    by (simp add: reported_def)
  then obtain before u later where u: "delivered (sys_effects t) = before @ u # later" "dev_SN (upd_device u) = sn"
    "dev_Online (upd_device u) = 0" "\<forall>v \<in> set later. dev_SN (upd_device v) \<noteq> sn"
    unfolding last_offline_def by blast
  obtain p where "mq_handlers (sys_mqtt t) = [p]" "pr_prefix p = prefix" "exposed T p u"
    by (rule reachable_exposed [OF monitor_alone_reachable [OF t(1) assms(1)] assms(2) u(1)]) (use u(2,4) in auto)
  with u(2,3) show "\<exists>p. mq_handlers (sys_mqtt t) = [p]
      \<and> (\<forall>name. series p sn name = (if name = prefix @ ''_online'' then Some (Fin 0) else None))"
    by (auto simp: exposed_def)
qed

section \<open>Witnesses\<close>

text \<open>A run in which the sample message is received and dispatched.\<close>

lemma message_effects:
  assumes "getSnFromTopic topic = sn" and "sn \<noteq> []" and "fmlookup (mq_devices m) sn = Some name"
    and "fst (decode_payload env sn payload (mq_decoder m)) = Some ps" and "ps \<noteq> fmempty"
    and "mq_offlineSent m = fmempty" and "mq_deviceState m = fmempty"
    and "MessageHandler H env topic payload m = (outcome, effects, m')"
  shows "effects = [EffDecoded sn ps, EffUpdate (NewDeviceUpdate (me_update env) \<lparr>dev_SN = sn, dev_Name = name, dev_Online = 1\<rparr> ps)]"
    and "mq_lastReceived m' = fmupd sn (me_received env) (mq_lastReceived m)" and "mq_offlineSent m' = fmempty"
    and "mq_offlineThreshold m' = mq_offlineThreshold m" and "mq_client m' = mq_client m"
proof -
  obtain d where d: "decode_payload env sn payload (mq_decoder m) = (Some ps, d)"
    using assms(4) by (metis prod.collapse)
  have ne: "go_len ps \<noteq> 0" using assms(5) by (simp add: go_len_zero_iff)
  have name: "getDeviceName (mq_devices m) sn = name" using assms(3) by (simp add: getDeviceName_def)
  show "effects = [EffDecoded sn ps, EffUpdate (NewDeviceUpdate (me_update env) \<lparr>dev_SN = sn, dev_Name = name, dev_Online = 1\<rparr> ps)]"
    and "mq_lastReceived m' = fmupd sn (me_received env) (mq_lastReceived m)" and "mq_offlineSent m' = fmempty"
    and "mq_offlineThreshold m' = mq_offlineThreshold m" and "mq_client m' = mq_client m"
    using assms(1-3,6-8) d ne
    by (auto simp: MessageHandler_defs Let_def markReceived_def deliver_defs merge_state_def call_handlers_def name split: prod.splits)
qed

abbreviation sample_handler :: "(gostring list \<times> gostring list, prom) handler" where
  "sample_handler \<equiv> Handle_ordered sample_tables"

definition received_update :: device_update where
  "received_update = NewDeviceUpdate (unix_epoch + 2) \<lparr>dev_SN = ''R1'', dev_Name = ''garage'', dev_Online = 1\<rparr>
     (fmupd ''bms.3.num'' (VFloat64 (Fin 3)) fmempty)"

lemma sample_message_run:
  "\<exists>s before. mqtt_reachable sample_handler sample_mqtt_config [NewPrometheusExporter ''ecoflow''] s
     \<and> delivered (sys_effects s) = before @ [received_update] \<and> sys_now s = unix_epoch
     \<and> fmlookup (mq_lastReceived (sys_mqtt s)) ''R1'' = Some unix_epoch \<and> mq_offlineSent (sys_mqtt s) = fmempty
     \<and> mq_offlineThreshold (sys_mqtt s) = 2 * minute \<and> mq_client (sys_mqtt s) = Some 1 \<and> sys_monitor s = MonIdle
     \<and> sys_monitor_ticker s = NewTicker unix_epoch (30 * second)"
proof -
  let ?H = "sample_handler" and ?hs = "[NewPrometheusExporter ''ecoflow'']"
  let ?env = "\<lparr>me_received = unix_epoch, me_seen = unix_epoch + 1, me_update = unix_epoch + 2, me_lib = one_header_lib,
      me_device_params = (\<lambda>b. None), me_handlers = (\<lambda>i. ([], []))\<rparr>"
  let ?ps = "fmupd ''bms.3.num'' (VFloat64 (Fin 3)) fmempty"
  obtain m where m: "NewMqttMetricsExporter sample_mqtt_config ?hs = Inr m"
    by (auto simp: NewMqttMetricsExporter_def sample_mqtt_config_def go_len_zero_iff)
  obtain s where s: "mqtt_reachable ?H sample_mqtt_config ?hs s" "EffConnect 1 \<in> set (sys_effects s)"
    "sys_now s = unix_epoch" "sys_mqtt s = m\<lparr>mq_userId := ''u7'', mq_client := Some 1\<rparr>" "\<not> sys_crashed s" "sys_callbacks s = []"
    "sys_monitor s = MonIdle" "sys_monitor_ticker s = NewTicker unix_epoch (monitor_interval m)"
    using connecting_reachable [OF m, of ?H unix_epoch] by blast
  have ms: "mq_devices (sys_mqtt s) = fmupd ''R1'' ''garage'' fmempty" "mq_deviceState (sys_mqtt s) = fmempty"
    "mq_offlineSent (sys_mqtt s) = fmempty" "mq_offlineThreshold (sys_mqtt s) = 2 * minute"
    "monitor_interval m = 30 * second"
    using m s(4) by (auto simp: NewMqttMetricsExporter_def sample_mqtt_config_def monitor_interval_def split: if_splits)
  obtain d' where "DecodeProtobufMessage one_header_lib [3] (LogFirstProtobufMessage ''R1'' (mq_decoder (sys_mqtt s))) = (DecodeOk ?ps, d')"
    using one_header_result by (metis prod.collapse)
  then have dec: "fst (decode_payload ?env ''R1'' [3] (mq_decoder (sys_mqtt s))) = Some ?ps"
    by (simp add: decode_payload_def one_header_detected)
  have ne: "?ps \<noteq> fmempty" by (metis fmupd_lookup fmempty_lookup option.distinct(1))
  obtain outcome effects m' where h: "MessageHandler ?H ?env sample_topic [3] (sys_mqtt s) = (outcome, effects, m')"
    by (metis surj_pair)
  have dev: "''R1'' \<noteq> []" "fmlookup (mq_devices (sys_mqtt s)) ''R1'' = Some ''garage''" by (simp_all add: ms(1))
  note msg = message_effects [OF sample_topic_sn dev dec ne ms(3,2) h]
  have "callback_runs ?H (sys_now s) [MsgArrived sample_topic [3]] (sys_mqtt s) effects (starts effects) m'"
    using handler_runs_arrived [OF h] s(3) by simp
  from reachable_steps [OF s(1) call_steps [OF this _ s(2,5)]]
  have r: "mqtt_reachable ?H sample_mqtt_config ?hs (sys_do m' effects (s\<lparr>sys_callbacks := starts effects\<rparr>))"
    by (simp add: s(6))
  have "mq_offlineThreshold m' = 2 * minute" "mq_client m' = Some 1" using msg(4,5) ms(4) s(4) by simp_all
  then show ?thesis
    by (intro exI [of _ "sys_do m' effects (s\<lparr>sys_callbacks := starts effects\<rparr>)"] exI [of _ "delivered (sys_effects s)"] conjI r)
      (simp_all add: sys_do_def msg(1-3) received_update_def s(3,7,8) ms(5))
qed

lemma sample_config_plain: "sn |\<in>| fmdom (mc_Devices sample_mqtt_config) \<Longrightarrow> plain_sn sn"
  by (auto simp: sample_mqtt_config_def plain_sn_def)

theorem latest_update_exposed_witness:
  "\<exists>s p. mqtt_reachable sample_handler sample_mqtt_config [NewPrometheusExporter ''ecoflow''] s
     \<and> mq_handlers (sys_mqtt s) = [p]
     \<and> series p ''R1'' ''ecoflow_online'' = Some (Fin 1) \<and> series p ''R1'' ''ecoflow_bms_3_num'' = Some (Fin 3)"
proof -
  obtain s before where s: "mqtt_reachable sample_handler sample_mqtt_config [NewPrometheusExporter ''ecoflow''] s"
    "delivered (sys_effects s) = before @ received_update # []"
    using sample_message_run by auto
  from latest_update_exposed [OF s(1) sample_config_plain s(2)] obtain p where
    p: "mq_handlers (sys_mqtt s) = [p]" "pr_prefix p = ''ecoflow''" "exposed sample_tables p received_update" by auto
  with sample_exposed [OF p(3) [unfolded received_update_def NewDeviceUpdate_def] p(2)] s(1) show ?thesis by blast
qed

text \<open>Three minutes later the monitor checks.\<close>

theorem silent_device_shown_offline_witness:
  "\<exists>s t p. mqtt_reachable sample_handler sample_mqtt_config [NewPrometheusExporter ''ecoflow''] s \<and> sys_monitor s = MonCheck
     \<and> monitor_alone sample_handler s t \<and> mq_handlers (sys_mqtt t) = [p]
     \<and> series p ''R1'' ''ecoflow_online'' = Some (Fin 0) \<and> series p ''R1'' ''ecoflow_bms_3_num'' = None"
proof -
  obtain s before where s: "mqtt_reachable sample_handler sample_mqtt_config [NewPrometheusExporter ''ecoflow''] s"
    "sys_now s = unix_epoch" "fmlookup (mq_lastReceived (sys_mqtt s)) ''R1'' = Some unix_epoch"
    "mq_offlineSent (sys_mqtt s) = fmempty" "mq_offlineThreshold (sys_mqtt s) = 2 * minute" "sys_monitor s = MonIdle"
    "sys_monitor_ticker s = NewTicker unix_epoch (30 * second)" "mq_client (sys_mqtt s) = Some 1"
    using sample_message_run by auto
  let ?s1 = "s\<lparr>sys_now := unix_epoch + 3 * minute\<rparr>"
  let ?s2 = "?s1\<lparr>sys_monitor_ticker := ticker_fire (sys_monitor_ticker ?s1)\<rparr>"
  let ?s3 = "?s2\<lparr>sys_monitor_ticker := ticker_take (sys_monitor_ticker ?s2), sys_monitor := MonCheck\<rparr>"
  have ok: "\<not> sys_crashed s" by (rule reachable_config(4) [OF s(1)])
  have 1: "other_step sample_handler s ?s1" by (rule time_passes) (simp add: s(2))
  have 2: "other_step sample_handler ?s1 ?s2" by (rule monitor_ticker_fires) (simp add: s(7) NewTicker_def)
  have 3: "monitor_step sample_handler ?s2 ?s3"
    using monitor_tick [of ?s2 sample_handler "\<lambda>c. True"] s(6-8)
    by (simp add: mqtt_connected_def NewTicker_def ticker_fire_def)
  have "mqtt_steps sample_handler s ?s3"
    by (rule step_other [OF 1 ok step_other [OF 2 _ step_monitor [OF 3 _ mqtt_steps.none]]]) (simp_all add: ok)
  then have r: "mqtt_reachable sample_handler sample_mqtt_config [NewPrometheusExporter ''ecoflow''] ?s3"
    by (rule reachable_steps [OF s(1)])
  have silent: "silent ''R1'' (sys_now ?s3) (sys_mqtt ?s3)"
    by (simp add: silent_def update_due_def s time_sub_gt_iff)
  from silent_device_shown_offline [OF r sample_config_plain _ silent] obtain t offline where
    t: "monitor_alone sample_handler ?s3 t" "sys_monitor t = MonDecide offline"
    and all: "\<forall>t offline. monitor_alone sample_handler ?s3 t \<longrightarrow> sys_monitor t = MonDecide offline \<longrightarrow>
      (\<exists>p. mq_handlers (sys_mqtt t) = [p]
        \<and> (\<forall>name. series p ''R1'' name = (if name = ''ecoflow'' @ ''_online'' then Some (Fin 0) else None)))"
    by auto
  from all t obtain p where p: "mq_handlers (sys_mqtt t) = [p]"
    "\<forall>name. series p ''R1'' name = (if name = ''ecoflow'' @ ''_online'' then Some (Fin 0) else None)" by blast
  then have "series p ''R1'' ''ecoflow_online'' = Some (Fin 0)" "series p ''R1'' ''ecoflow_bms_3_num'' = None" by simp_all
  with r t(1) p(1) show ?thesis by (intro exI [of _ ?s3] exI [of _ t] exI [of _ p] conjI) simp_all
qed

end
