(* ===== verification/Rest_History.thy ===== *)
theory Rest_History
  imports Rest_Exporter
begin

text \<open>
  The history of a run of the REST exporter: every update that is under way or was dispatched stands
  for an answer of the API, \<open>rs_answers\<close>, and the handlers are in the state in which the updates, in
  their order, have put them.
\<close>

section \<open>Updates stand for answers\<close>

definition answer_update ::
  "(gostring, gostring) fmap \<Rightarrow> (device_info \<times> params option) list \<Rightarrow> device_update \<Rightarrow> bool"
where
  "answer_update mapping answers u \<longleftrightarrow>
     (\<exists>(d, a) \<in> set answers. upd_device u = listed_device mapping d \<and> upd_samples u = fmempty
        \<and> (case a of None \<Rightarrow> di_Online d = 0 \<and> upd_params u = fmempty | Some ps \<Rightarrow> upd_params u = ps))"

fun updates_of :: "rest_pc \<Rightarrow> device_update set" where
  "updates_of (RestFetch fs) = {u. \<exists>d. (d, Ending (Some u)) \<in> set fs \<or> (d, Fetched (Some u)) \<in> set fs}"
| "updates_of (RestDeliver us) = set us"
| "updates_of _ = {}"

definition rest_history :: "('e, 'h) handler \<Rightarrow> (gostring, gostring) fmap \<Rightarrow> 'h list \<Rightarrow> 'h rest_system \<Rightarrow> bool" where
  "rest_history H mapping hs0 s \<longleftrightarrow>
     re_mapping (rs_rest s) = mapping
     \<and> (\<forall>u \<in> updates_of (rs_pc s) \<union> set (rs_updates s). answer_update mapping (rs_answers s) u)
     \<and> handled H hs0 (rs_updates s) (re_handlers (rs_rest s))"

lemma answer_update_mono: "answer_update mapping answers u \<Longrightarrow> answer_update mapping (answers @ later) u"
  by (auto simp: answer_update_def)

lemma fetched_answer:
  assumes "fetchDevice seen_at made_at answer d e = (Some u, e')"
  shows "answer_update (re_mapping e) (answers @ [(d, case answer of Inl err \<Rightarrow> None | Inr ps \<Rightarrow> Some ps)]) u"
  using assms
  by (auto simp: fetchDevice_def Let_def answer_update_def listed_device_def NewDeviceUpdate_def
      split: sum.splits if_splits)

lemma handled_rest:
  "handled H hs0 us (re_handlers e) \<Longrightarrow> call_rest_handlers H envs u e = (errs, e') \<Longrightarrow>
   handled H hs0 (us @ [u]) (re_handlers e')"
  by (auto simp: call_rest_handlers_def split: prod.splits intro: handled_more)

lemma fetched_updates_set: "set (fetched_updates fs) = {u. \<exists>d. (d, Fetched (Some u)) \<in> set fs}"
  by (force simp: fetched_updates_def set_map_filter_iff split: fetch.splits)

lemma rest_step_history:
  assumes "rest_step H s t" and "rest_history H mapping hs0 s"
  shows "rest_history H mapping hs0 t"
  using assms
proof (induction rule: rest_step.induct)
  case (fetch_ends s before d after answer u e)
  note f = fetchDevice_update [OF fetch_ends(2)]
  have "answer_update mapping (rs_answers s @ [(d, case answer of Inl err \<Rightarrow> None | Inr ps \<Rightarrow> Some ps)]) v"
    if "u = Some v" for v
    using fetched_answer [of _ _ answer d "rs_rest s" v] fetch_ends(2,3) that by (auto simp: rest_history_def)
  with fetch_ends(1,3) f(2,4) show ?case
    by (fastforce simp: rest_history_def intro: answer_update_mono)
next
  case (all_fetched s fs)
  then show ?case by (auto simp: rest_history_def fetched_updates_set)
next
  case (deliver s u us envs errs e)
  then have "re_mapping e = re_mapping (rs_rest s)" by (auto dest!: call_rest_handlers_frame)
  with deliver handled_rest [of H hs0 "rs_updates s" "rs_rest s" envs u errs e] show ?case
    by (auto simp: rest_history_def)
next
  case (list_ok s devices)
  then show ?case by (auto simp: rest_history_def)
qed (auto simp: rest_history_def)

lemma rest_Run_history: "rest_history H (rc_Devices cfg) hs (rest_Run now (NewRestMetricsExporter cfg hs))"
  by (simp add: rest_history_def rest_Run_def NewRestMetricsExporter_def handled_none)

lemma rest_reachable_history:
  assumes "rest_reachable H cfg hs s"
  shows "rest_history H (rc_Devices cfg) hs s"
proof -
  obtain now where "rest_steps H (rest_Run now (NewRestMetricsExporter cfg hs)) s"
    using assms by (auto simp: rest_reachable_def)
  moreover note rest_Run_history [of H cfg hs now]
  ultimately show ?thesis by (induction rule: rest_steps.induct) (auto intro: rest_step_history)
qed

text \<open>What a reachable history says of a dispatched update, and of the handlers.\<close>

lemma rest_reachable_update:
  assumes "rest_reachable H cfg hs s" and "u \<in> set (rs_updates s)"
  shows "answer_update (rc_Devices cfg) (rs_answers s) u"
  using rest_reachable_history [OF assms(1)] assms(2) by (simp add: rest_history_def)

lemma rest_reachable_handled:
  "rest_reachable H cfg hs s \<Longrightarrow> handled H hs (rs_updates s) (re_handlers (rs_rest s))"
  using rest_reachable_history by (auto simp: rest_history_def)

end
