(* ===== verification/Rest_Scrapes.thy ===== *)
theory Rest_Scrapes
  imports Rest_History Prom_History
begin

text \<open>
  \<open>rest_exporter.go\<close> with the Prometheus exporter as its handler: what a whole scrape makes Prometheus
  see. \<open>rs_scrape\<close> has the devices of the last scrape with what their requests have given; the invariant
  relates it to the updates that have been dispatched, and the lemmas of \<open>Prom_History\<close> say what
  Prometheus shows after these.
\<close>

section \<open>The updates of a scrape\<close>

fun pending_updates :: "rest_pc \<Rightarrow> device_update list" where
  "pending_updates (RestDeliver us) = us"
| "pending_updates _ = []"

text \<open>
  Without cancellation, the dispatched updates end with those of the last scrape, up to the ones that
  are still to be delivered, and each belongs to its device and to an answer of the API.
\<close>

definition scrape_inv :: "(gostring, gostring) fmap \<Rightarrow> 'h rest_system \<Rightarrow> bool" where
  "scrape_inv mapping s \<longleftrightarrow>
     (\<not> rs_cancelled s \<longrightarrow> (\<exists>before us. rs_updates s = before @ us
        \<and> fetched_updates (rs_scrape s) = us @ pending_updates (rs_pc s)))
     \<and> (\<forall>d u. (d, Fetched (Some u)) \<in> set (rs_scrape s) \<longrightarrow>
          upd_device u = listed_device mapping d \<and> answer_update mapping (rs_answers s) u)"

lemma rest_step_scrape:
  assumes "rest_step H s t" and "rest_inv cfg s" and "rest_history H (rc_Devices cfg) hs0 s"
    and "scrape_inv (rc_Devices cfg) s"
  shows "scrape_inv (rc_Devices cfg) t"
  using assms
proof (induction rule: rest_step.induct)
  case (fetch_ends s before d after answer u e)
  then show ?case by (auto simp: scrape_inv_def intro: answer_update_mono)
next
  case (all_fetched s fs)
  then have ok: "list_all (fetch_ok (rc_Devices cfg) (rs_cancelled s)) fs" by (simp add: rest_inv_def)
  have "upd_device u = listed_device (rc_Devices cfg) d" if "(d, Fetched (Some u)) \<in> set fs" for d u
    using ok that by (auto simp: list_all_iff)
  moreover have "answer_update (rc_Devices cfg) (rs_answers s) u" if "(d, Fetched (Some u)) \<in> set fs" for d u
    using all_fetched that by (auto simp: rest_history_def)
  ultimately show ?case by (auto simp: scrape_inv_def)
next
  case (deliver s u us envs errs e)
  then show ?case by (fastforce simp: scrape_inv_def)
qed (auto simp: scrape_inv_def)

lemma rest_reachable_scrape:
  assumes "rest_reachable H cfg hs s"
  shows "scrape_inv (rc_Devices cfg) s"
proof -
  obtain now where now: "rest_steps H (rest_Run now (NewRestMetricsExporter cfg hs)) s"
    using assms by (auto simp: rest_reachable_def)
  have start: "scrape_inv (rc_Devices cfg) (rest_Run now (NewRestMetricsExporter cfg hs))"
    by (simp add: scrape_inv_def rest_Run_def fetched_updates_def List.map_filter_simps)
  have "rest_steps H s0 s \<Longrightarrow> rest_inv cfg s0 \<Longrightarrow> rest_history H (rc_Devices cfg) hs s0 \<Longrightarrow> scrape_inv (rc_Devices cfg) s0 \<Longrightarrow>
      rest_inv cfg s \<and> rest_history H (rc_Devices cfg) hs s \<and> scrape_inv (rc_Devices cfg) s" for s0
    by (induction rule: rest_steps.induct) (auto intro: rest_step_inv rest_step_history rest_step_scrape)
  from this [OF now rest_Run_inv rest_Run_history start] show ?thesis by blast
qed

lemma listed_device_inj: "listed_device mapping d = listed_device mapping d' \<longleftrightarrow> d = d'"
  by (auto simp: listed_device_def)

lemma fetched_updates_distinct:
  assumes "distinct (map (di_SN \<circ> fst) fs)"
    and "\<And>d u. (d, Fetched (Some u)) \<in> set fs \<Longrightarrow> dev_SN (upd_device u) = di_SN d"
  shows "distinct (map (\<lambda>u. dev_SN (upd_device u)) (fetched_updates fs))"
  using assms
proof (induction fs)
  case (Cons x fs)
  obtain d f where x: "x = (d, f)" by (cases x)
  have IH: "distinct (map (\<lambda>u. dev_SN (upd_device u)) (fetched_updates fs))"
    by (rule Cons.IH) (use Cons.prems in auto)
  have "dev_SN (upd_device u) \<noteq> dev_SN (upd_device v)"
    if "f = Fetched (Some u)" "v \<in> set (fetched_updates fs)" for u v
  proof -
    from that(2) obtain d' where "(d', Fetched (Some v)) \<in> set fs" by (auto simp: fetched_updates_set)
    then have "dev_SN (upd_device v) = di_SN d'" "di_SN d' \<noteq> di_SN d"
      using Cons.prems x by (simp, force)
    moreover have "dev_SN (upd_device u) = di_SN d" using Cons.prems(2) x that(1) by simp
    ultimately show ?thesis by simp
  qed
  then have new: "dev_SN (upd_device u) \<notin> (\<lambda>u. dev_SN (upd_device u)) ` set (fetched_updates fs)" if "f = Fetched (Some u)" for u
    using that by auto
  have "fetched_updates (x # fs) = (case f of Fetched (Some u) \<Rightarrow> u # fetched_updates fs | _ \<Rightarrow> fetched_updates fs)"
    by (simp add: fetched_updates_def List.map_filter_simps x split: fetch.split option.split)
  with IH new show ?case by (auto split: fetch.splits option.splits)
qed (simp add: fetched_updates_def List.map_filter_simps)

section \<open>Property\<close>

text \<open>C5: A scrape of the REST API makes Prometheus see what the API has answered: when the updates of
  the last scrape have been delivered, with serial numbers that are different and have no underscore,
  each device of the list that has an update stands for an answer to its request, or for the failed
  request of an offline device, and is exposed accordingly, whatever the order in which the requests
  ended and whatever was exposed before: the online gauge has the flag of the list, a device that is
  offline has no other series, and each numeric parameter in the answer of an online device has a series
  with its value, unless its metric name is that of another parameter of the answer or of the gauge.\<close>
theorem scrape_exposes_answers:
  assumes "rest_reachable (Handle_ordered T) cfg [NewPrometheusExporter prefix] s"
    and "\<not> rs_cancelled s" and "pending_updates (rs_pc s) = []"
    and "distinct (map (di_SN \<circ> fst) (rs_scrape s))" and "list_all (plain_sn \<circ> di_SN \<circ> fst) (rs_answers s)"
    and "(d, Fetched (Some u)) \<in> set (rs_scrape s)"
  shows "upd_device u = listed_device (rc_Devices cfg) d
    \<and> ((d, Some (upd_params u)) \<in> set (rs_answers s)
       \<or> (d, None) \<in> set (rs_answers s) \<and> di_Online d = 0 \<and> upd_params u = fmempty)
    \<and> (\<exists>p. re_handlers (rs_rest s) = [p] \<and> pr_prefix p = prefix \<and> exposed T p u)"
proof -
  have inv: "scrape_inv (rc_Devices cfg) s" by (rule rest_reachable_scrape [OF assms(1)])
  then have dev: "upd_device u = listed_device (rc_Devices cfg) d" "answer_update (rc_Devices cfg) (rs_answers s) u"
    using assms(6) unfolding scrape_inv_def by blast+
  from inv obtain before where split: "rs_updates s = before @ fetched_updates (rs_scrape s)"
    using assms(2,3) by (auto simp: scrape_inv_def)
  have "dev_SN (upd_device v) = di_SN d'" if "(d', Fetched (Some v)) \<in> set (rs_scrape s)" for d' v
    using inv that by (auto simp: scrape_inv_def listed_device_def)
  then have dist: "distinct (map (\<lambda>u. dev_SN (upd_device u)) (fetched_updates (rs_scrape s)))"
    by (rule fetched_updates_distinct [OF assms(4)])
  have "upd_samples v = fmempty \<and> plain_sn (dev_SN (upd_device v))" if "v \<in> set (rs_updates s)" for v
    using rest_reachable_update [OF assms(1) that] assms(5)
    by (auto simp: answer_update_def listed_device_def list_all_iff)
  note all = handled_exposes [OF rest_reachable_handled [OF assms(1)] this]
  have "u \<in> set (fetched_updates (rs_scrape s))" using assms(6) by (auto simp: fetched_updates_set)
  then obtain xs ys where xs: "fetched_updates (rs_scrape s) = xs @ u # ys" by (auto dest: split_list)
  with dist have "\<forall>v \<in> set ys. dev_SN (upd_device v) \<noteq> dev_SN (upd_device u)" by (simp add: image_iff) metis
  moreover have "rs_updates s = (before @ xs) @ u # ys" using split xs by simp
  ultimately have "\<exists>p. re_handlers (rs_rest s) = [p] \<and> pr_prefix p = prefix \<and> exposed T p u"
    using all by blast
  moreover have "(d, Some (upd_params u)) \<in> set (rs_answers s)
      \<or> (d, None) \<in> set (rs_answers s) \<and> di_Online d = 0 \<and> upd_params u = fmempty"
  proof -
    from dev(2) obtain a where "(d, a) \<in> set (rs_answers s)"
      "case a of None \<Rightarrow> di_Online d = 0 \<and> upd_params u = fmempty | Some ps \<Rightarrow> upd_params u = ps"
      unfolding answer_update_def dev(1) listed_device_inj by auto
    then show ?thesis by (cases a) auto
  qed
  ultimately show ?thesis using dev(1) by blast
qed

section \<open>Witness\<close>

text \<open>A scrape of one online device, whose answer is dispatched.\<close>

lemma sample_rest_run:
  fixes cfg :: RestExporterConfig and hs :: "'h list" and H :: "('e, 'h) handler"
  assumes "rc_Interval cfg = 30 * second" "rc_Telemetry cfg = None" "rc_Devices cfg = fmempty"
    and "call_rest_handlers H (\<lambda>i. env)
      (NewDeviceUpdate minute \<lparr>dev_SN = ''R1'', dev_Name = ''R1'', dev_Online = 1\<rparr> ps)
      ((NewRestMetricsExporter cfg hs)\<lparr>re_started := minute, re_lastSuccess := minute\<rparr>) = (errs, e)"
  shows "\<exists>s. rest_reachable H cfg hs s \<and> rs_rest s = e
    \<and> rs_answers s = [(\<lparr>di_SN = ''R1'', di_Online = 1\<rparr>, Some ps)] \<and> rs_pc s = RestWait \<and> \<not> rs_cancelled s
    \<and> rs_scrape s = [(\<lparr>di_SN = ''R1'', di_Online = 1\<rparr>,
         Fetched (Some (NewDeviceUpdate minute \<lparr>dev_SN = ''R1'', dev_Name = ''R1'', dev_Online = 1\<rparr> ps)))]"
proof -
  let ?a = "\<lparr>di_SN = ''R1'', di_Online = 1\<rparr>" and ?e = "NewRestMetricsExporter cfg hs"
  let ?u = "NewDeviceUpdate minute \<lparr>dev_SN = ''R1'', dev_Name = ''R1'', dev_Online = 1\<rparr> ps"
  let ?s0 = "rest_Run minute ?e"
  let ?s1 = "?s0\<lparr>rs_rest := ?e\<lparr>re_started := minute\<rparr>, rs_pc := RestScrape\<rparr>"
  let ?s2 = "?s1\<lparr>rs_rest := ?e\<lparr>re_started := minute, re_lastSuccess := minute\<rparr>, rs_pc := RestFetch [(?a, Waiting)]\<rparr>"
  let ?s3 = "?s2\<lparr>rs_pc := RestFetch [(?a, Fetching)], rs_sem := 1\<rparr>"
  let ?s4 = "?s3\<lparr>rs_pc := RestFetch [(?a, Ending (Some ?u))], rs_answers := [(?a, Some ps)]\<rparr>"
  let ?s4' = "?s4\<lparr>rs_pc := RestFetch [(?a, Fetched (Some ?u))], rs_sem := 0\<rparr>"
  let ?s5 = "?s4'\<lparr>rs_pc := RestDeliver [?u], rs_scrape := [(?a, Fetched (Some ?u))]\<rparr>"
  let ?s6 = "?s5\<lparr>rs_rest := e, rs_pc := RestDeliver [], rs_updates := [?u]\<rparr>"
  let ?s7 = "?s6\<lparr>rs_pc := RestWait\<rparr>"
  have e: "re_interval ?e = 30 * second" "re_telemetry ?e = None" "re_mapping ?e = fmempty"
    by (simp_all add: NewRestMetricsExporter_def assms)
  have 1: "rest_step H ?s0 ?s1"
    using rest_step.start [of ?s0 H] e by (simp add: rest_Run_def NewTicker_def)
  have 2: "rest_step H ?s1 ?s2"
    using rest_step.list_ok [of ?s1 H "[?a]"] e
    by (simp add: rest_Run_def RestRequest_def NewRestMetricsExporter_def)
  have 3: "rest_step H ?s2 ?s3"
    using rest_step.fetch_starts [of ?s2 "[]" ?a "[]" 1 H]
    by (simp add: restConcurrency_def chan_send_def rest_Run_def)
  have "fetchDevice minute minute (Inr ps) ?a (rs_rest ?s3) = (Some ?u, rs_rest ?s3)"
    by (simp add: fetchDevice_def RestRequest_def DeviceSeen_def NewRestMetricsExporter_def getDeviceName_def assms)
  then have 4: "rest_step H ?s3 ?s4"
    using rest_step.fetch_ends [of ?s3 "[]" ?a "[]" "Inr ps" "Some ?u" "rs_rest ?s3" H] by (simp add: rest_Run_def)
  have released: "rest_step H ?s4 ?s4'"
    using rest_step.slot_released [of ?s4 "[]" ?a "Some ?u" "[]" 0 H] by (simp add: chan_recv_def)
  have "finished [(?a, Fetched (Some ?u))]" "fetched_updates [(?a, Fetched (Some ?u))] = [?u]"
    by (simp_all add: finished_def fetched_updates_def List.map_filter_simps)
  then have 5: "rest_step H ?s4' ?s5"
    using rest_step.all_fetched [of ?s4' "[(?a, Fetched (Some ?u))]" H] by simp
  have 6: "rest_step H ?s5 ?s6"
    using rest_step.deliver [of ?s5 ?u "[]" H "\<lambda>i. env" errs e] assms(4) by (simp add: rest_Run_def)
  have 7: "rest_step H ?s6 ?s7" using rest_step.delivered [of ?s6 H] by simp
  have "rest_reachable H cfg hs ?s7"
    unfolding rest_reachable_def
    by (rule exI, rule rest_steps_trans [OF 1 rest_steps_trans [OF 2 rest_steps_trans [OF 3 rest_steps_trans [OF 4
          rest_steps_trans [OF released rest_steps_trans [OF 5 rest_steps_trans [OF 6 rest_steps_trans [OF 7 rest_steps.none]]]]]]]])
  then show ?thesis by (intro exI [of _ ?s7]) (simp add: rest_Run_def)
qed

theorem scrape_exposes_answers_witness:
  "\<exists>cfg s p. rest_reachable (Handle_ordered sample_tables) cfg [NewPrometheusExporter ''ecoflow''] s \<and> rs_pc s = RestWait
     \<and> re_handlers (rs_rest s) = [p]
     \<and> series p ''R1'' ''ecoflow_online'' = Some (Fin 1) \<and> series p ''R1'' ''ecoflow_bms_3_num'' = Some (Fin 3)"
proof -
  let ?cfg = "\<lparr>rc_Interval = 30 * second, rc_Devices = fmempty, rc_Telemetry = None\<rparr>"
  let ?ps = "fmupd ''bms.3.num'' (VFloat64 (Fin 3)) fmempty"
  let ?a = "\<lparr>di_SN = ''R1'', di_Online = 1\<rparr>"
  let ?u = "NewDeviceUpdate minute \<lparr>dev_SN = ''R1'', dev_Name = ''R1'', dev_Online = 1\<rparr> ?ps"
  let ?H = "Handle_ordered sample_tables" and ?hs = "[NewPrometheusExporter ''ecoflow'']"
  obtain errs e where c: "call_rest_handlers ?H (\<lambda>i. ([], [])) ?u
      ((NewRestMetricsExporter ?cfg ?hs)\<lparr>re_started := minute, re_lastSuccess := minute\<rparr>) = (errs, e)" by (metis surj_pair)
  obtain s where s: "rest_reachable ?H ?cfg ?hs s" "rs_answers s = [(?a, Some ?ps)]" "rs_pc s = RestWait"
    "\<not> rs_cancelled s" "rs_scrape s = [(?a, Fetched (Some ?u))]"
    using sample_rest_run [OF _ _ _ c] by auto
  have "\<exists>p. re_handlers (rs_rest s) = [p] \<and> pr_prefix p = ''ecoflow'' \<and> exposed sample_tables p ?u"
    using scrape_exposes_answers [OF s(1,4), of ?a ?u] s(2,3,5) by (simp add: plain_sn_def)
  then obtain p where p: "re_handlers (rs_rest s) = [p]" "pr_prefix p = ''ecoflow''" "exposed sample_tables p ?u" by blast
  from sample_exposed [OF p(3) [unfolded NewDeviceUpdate_def] p(2)]
  have "series p ''R1'' ''ecoflow_online'' = Some (Fin 1)" "series p ''R1'' ''ecoflow_bms_3_num'' = Some (Fin 3)" by simp_all
  with s(1,3) p(1) show ?thesis by blast
qed

end
