(* ===== verification/Spec2Isabelle.thy ===== *)
theory Spec2Isabelle
  imports App_System Mqtt_Login Mqtt_Exposed Rest_Scrapes
begin

text \<open>
  Verification of the EcoFlow exporter (\<open>go-ecoflow-exporter\<close>), a program that receives the
  parameters of EcoFlow devices over MQTT or by polling a REST API and exposes them as Prometheus
  metrics. This theory imports all others and holds the properties that span them.

  \<^bold>\<open>The program and its model.\<close> The application (\<open>main.go\<close>, \<open>Main_App\<close>) reads its configuration
  from the environment (\<open>config.go\<close>, \<open>Config\<close>), creates one of two exporters with one handler, the
  Prometheus exporter (\<open>prometheus.go\<close>, \<open>Prometheus\<close>), starts the HTTP server (\<open>http_server.go\<close>,
  \<open>Http_Server\<close>) and runs the exporter under a watchdog.

  The MQTT exporter (\<open>mqtt_exporter.go\<close>) is seven theories. \<open>Mqtt_Status\<close> has its state, the record
  \<open>mqtt\<close>, the constructor and the operations under \<open>statusMu\<close>. \<open>Mqtt_Requests\<close> has the login and the
  requests to devices. \<open>Mqtt_Messages\<close> has the callbacks of the client as sequential functions: a message
  goes through \<open>decode_message\<close>, \<open>merge_state\<close> and \<open>dispatch_state\<close>. \<open>Mqtt_Callbacks\<close> cuts them into the
  steps between which other goroutines run, \<open>callback_step\<close>. \<open>Mqtt_System\<close> puts the goroutines together:
  \<open>session_step\<close> is \<open>Run\<close> with \<open>runSession\<close>, \<open>monitor_step\<close> is \<open>monitorDeviceStatus\<close>, with the steps of
  \<open>forceReconnect\<close>, \<open>ping_step\<close> is \<open>pingRoutine\<close> with the goroutines of a tick, and \<open>other_step\<close> has the
  callbacks, the client that calls them, the requests started by messages, time and cancellation;
  \<open>mqtt_step\<close> interleaves them and \<open>mqtt_reachable\<close> is what they can reach. \<open>Mqtt_Runs\<close> has the
  properties of all runs and \<open>Mqtt_History\<close> relates the updates and the state of the handlers to what
  has been received before. The REST exporter (\<open>rest_exporter.go\<close>) is the step relation \<open>rest_step\<close> of
  \<open>Rest_Exporter\<close>, with a state for each request of a scrape and the number of elements in the channel
  that is their semaphore.

  \<open>App_System\<close> is the running application: \<open>app_step\<close> interleaves the steps of either exporter with
  those of the watchdog and with signals, until \<open>run\<close> returns.

  Payloads are decoded by \<open>internal/protobuf\<close>: \<open>Proto_Schema\<close> has the field tables of the messages,
  \<open>Proto_Messages\<close> the command table and the flattening of a message into parameters
  (\<open>messages.go\<close>), \<open>Proto_Decoder\<close> the detection of the format, the decryption and the merge of the
  headers (\<open>decoder.go\<close>). \<open>Metric\<close> is \<open>metric.go\<close> (names, values, samples, dispatch), \<open>Telemetry\<close> is
  \<open>telemetry.go\<close> (a trace of the calls on the exporter's own metrics) and \<open>Retry\<close> is \<open>retry.go\<close>.

  Under these, \<open>Prelude\<close> has Go's maps with the order of a range loop, wrap-around of \<open>int64\<close>, time
  and tickers; \<open>Go_Text\<close> the text functions of the standard library that the code uses, on strings
  of bytes; \<open>Go_Value\<close> the values of an \<open>any\<close> and \<open>float64\<close>; \<open>Go_Json\<close> and \<open>Go_Json_Encode\<close> the part
  of \<open>encoding/json\<close> that is used.

  \<^bold>\<open>Conventions.\<close> Operations keep the names of the code. A method takes its receiver last and returns
  it updated. What Go leaves open is an argument: the order of a range loop (\<open>range_order\<close>), the
  clock, the Unicode tables. Code that is not in the repository is an argument, too: the protobuf
  library (\<open>proto_lib\<close>), the client and the parameter type of the Ecoflow library, the paho client, the
  HTTP client, \<open>net.Listen\<close>, \<open>NewConstMetric\<close>, of which the properties assume only that it accepts what
  the Prometheus library documents as valid. Errors are constructors of a datatype per component.
  A loop over one collection reads the clock once where the code reads it for every element.
  A panic ends the program: after a nil client or a ticker that cannot be made, nothing follows; after a
  call on the exporter's own metrics that \<open>WithLabelValues\<close> refuses, a flag that nothing resets is set
  (\<open>telemetry_panicked\<close>) and the states that follow have no counterpart in the program. \<open>run_panicked\<close> is
  all of them.

  \<^bold>\<open>Interfaces.\<close> \<open>metric_handler\<close> is a handler that keeps an invariant and leaves the update alone;
  it gives \<open>handler_list\<close>, what the exporters rely on when they dispatch, and the lemmas on all runs of
  both exporters are proved in it. The Prometheus exporter interprets both. \<open>health_check\<close> is what the
  server and the watchdog rely on, interpreted for the two exporters. \<open>runnable\<close> is the contract of
  \<open>Run\<close> that the application relies on (it returns only when it is cancelled, can always return
  then, and does not crash), interpreted for each exporter and for the one that is configured.

  \<^bold>\<open>What is shown.\<close>
  \<^item> From payload to parameters: decoding gives exactly the set fields (\<open>decoded_params_exact\<close>), the
    decoder implements a specification without logs and counters (\<open>decode_refines_spec\<close>), encryption
    is transparent, battery packs stay apart.
  \<^item> From parameters to metrics: a message updates the state of its device and only that, and every
    numeric parameter is exposed with its value (\<open>message_delivers_full_state\<close>,
    \<open>online_update_exposes_parameter\<close>, \<open>message_reaches_series\<close>); going offline removes exactly the
    device's series; updates do not disturb other devices; every scrape is valid and free of
    duplicates (\<open>application_scrapes_valid\<close>, \<open>collect_no_duplicates\<close>).
  \<^item> Back from the metrics to the messages: in every run each parameter of an update was decoded from a
    message of that device (\<open>updates_were_received\<close>), the handlers are in the state that the updates
    lead to (\<open>handlers_see_history\<close>), so every exposed sample was received
    (\<open>exposed_samples_were_received\<close>). \<open>Rest_History\<close> has the same for the answers of the REST API
    (\<open>exposed_samples_were_fetched\<close>).
  \<^item> And forward through whole runs: Prometheus shows every device as its last update says
    (\<open>latest_update_exposed\<close>), after a scrape as the API has answered (\<open>scrape_exposes_answers\<close>), and
    after a check of the monitor, when nothing interferes, a silent device as offline
    (\<open>silent_device_shown_offline\<close>). Here the range loops of the handler visit every key once, in any
    order (\<open>Handle_ordered\<close>); the properties of all runs above hold for any sequence of keys.
  \<^item> The goroutines of the MQTT exporter: invariants of \<open>mqtt_step\<close> by rule induction (\<open>sys_inv\<close>), from
    them no nil dereference, only configured devices, bounded delays, labels that fit
    (\<open>telemetry_labels_fit\<close>), no deadlock
    after cancellation; the schedules of reconnects, logins and offline updates; and a run that shows
    that a stale offline update is possible (\<open>stale_offline_update\<close>). Without interference the steps do
    what the sequential functions say (\<open>message_handler_steps\<close>, \<open>ping_tick_steps\<close>).
  \<^item> The REST exporter: the semaphore of the parallel requests, the updates of a scrape, its health.
  \<^item> The application: validity of the configuration, its agreement with the constructors, the
    watchdog, the health check of the container, and the overflow of a huge interval that the
    validation misses (\<open>overflowing_interval_panics\<close>). For the running application, with intervals that
    have not overflowed: it ends only after a signal or an outage (\<open>application_exit\<close>), it can
    always end then (\<open>application_stops\<close>); when its label values are valid UTF-8, it does not panic
    (\<open>application_never_panics\<close>) and what it serves is valid (\<open>application_scrapes_valid\<close>); with a
    configured serial number that is not, it panics (\<open>non_utf8_serial_panics\<close>).
  \<^item> The retry loop: its delays, its errors and its termination; the logins of the MQTT exporter follow
    its schedule (\<open>login_delay\<close>), and their steps, interleaved with those of the other goroutines, are a run
    of the loop (\<open>login_follows_retry\<close>).

  \<^bold>\<open>Partiality.\<close> The retry loop without a limit may run forever; it is a \<open>partial_function\<close>, and the
  properties state that it returns. All other recursive definitions are total. The nesting limit of
  the JSON reader is that of the library, 10000. The inductive relations have no fuel.

  \<^bold>\<open>Not modelled.\<close> Log output, except the entries of the decoder and the log value of the
  configuration; the registry and the HTTP handler of the Prometheus library; accepting connections
  and the timeout of closing the server; the generated accessors of \<open>ecoflow.pb.go\<close>; the headers and
  timeouts of HTTP requests. One request and the dispatch of one update are single steps of the
  system. Which of the two signals arrives is left out.
\<close>

section \<open>From a message to the exposed metrics\<close>

text \<open>The application has one handler, the Prometheus exporter; a dispatch leads it to a reachable state.\<close>

interpretation prom_single: handler_list Handle "\<lambda>hs. \<exists>p. hs = [p] \<and> prom_reachable prefix p" for prefix
proof
  fix hs envs now device params hs' u' errs
  assume "\<exists>p. hs = [p] \<and> prom_reachable prefix p"
  then obtain p where p: "hs = [p]" "prom_reachable prefix p" by blast
  assume "dispatch Handle (zip (map envs [0..<length hs]) hs) (NewDeviceUpdate now device params) = (hs', u', errs)"
  then obtain r p' v where "Handle (envs 0) p (NewDeviceUpdate now device params) = (r, p', v)" "hs' = [p']"
    using p(1) by (auto simp: safeHandle_def split: prod.splits handle_result.splits)
  with prom_handle [OF p(2)] show "\<exists>p. hs' = [p] \<and> prom_reachable prefix p" by blast
qed

lemma message_series:
  assumes "getSnFromTopic topic = sn" and "sn \<noteq> []" and "fmlookup (mq_devices m) sn = Some device"
    and "fst (decode_payload env sn payload (mq_decoder m)) = Some ps" and "ps \<noteq> fmempty"
    and "mq_handlers m = [p]" and "full = case_option fmempty id (fmlookup (mq_deviceState m) sn) ++\<^sub>f ps"
    and "range_order full (pe_params_order (me_handlers env 0))"
    and "fmlookup full k = Some raw" and "toFloat raw = (v, True)"
    and "generateMetricName (pe_tables (me_handlers env 0)) k (pr_prefix p) sn = Inr (name, d)"
    and "name \<noteq> pr_prefix p @ ''_online''"
    and "\<And>k' raw' d'. fmlookup full k' = Some raw' \<Longrightarrow> snd (toFloat raw') \<Longrightarrow>
      generateMetricName (pe_tables (me_handlers env 0)) k' (pr_prefix p) sn = Inr (name, d') \<Longrightarrow> k' = k"
  shows "\<exists>p'. mq_handlers (snd (snd (MessageHandler Handle env topic payload m))) = [p']
    \<and> series p' sn name = Some v \<and> series p' sn (pr_prefix p @ ''_online'') = Some (Fin 1)"
proof -
  let ?u = "NewDeviceUpdate (me_update env) \<lparr>dev_SN = sn, dev_Name = device, dev_Online = 1\<rparr> full"
  obtain r p' u' where h: "Handle (me_handlers env 0) p ?u = (r, p', u')" by (metis surj_pair)
  have "mq_handlers (snd (snd (MessageHandler Handle env topic payload m))) = [p']"
    unfolding MessageHandler_dispatches [OF assms(1-5)] assms(6) assms(7) [symmetric] single_dispatch h by simp
  moreover have "series p' sn name = Some v"
  proof -
    have "series p' (dev_SN (upd_device ?u)) name = Some v"
      by (rule Handle_exposes [OF _ _ _ h])
        (use assms(8-12) in \<open>simp_all add: NewDeviceUpdate_def\<close>, use assms(13) in blast)
    then show ?thesis by (simp add: NewDeviceUpdate_def)
  qed
  moreover have "series p' sn (pr_prefix p @ ''_online'') = Some (Fin 1)"
    using Handle_online_value [OF h] by (simp add: NewDeviceUpdate_def)
  ultimately show ?thesis by blast
qed

text \<open>C1: What a device sends is what Prometheus scrapes: after a message of a configured device has
  been decoded, every numeric parameter of its whole state, whether it came with this message or an
  earlier one, is exposed with its value under its metric name and the serial number of the device,
  and the online gauge of the device is 1. This is said of a parameter whose metric name is its own: it
  is neither that of another numeric parameter of the state (as \<open>a.b\<close> and \<open>a_b\<close> have the same one, of
  which the last in the order of the loop wins) nor that of the online gauge (which a
  parameter \<open>online\<close> would have, and which is set last).\<close>
theorem message_reaches_series:
  assumes "getSnFromTopic topic = sn" and "sn \<noteq> []" and "fmlookup (mq_devices m) sn = Some device"
    and "fst (decode_payload env sn payload (mq_decoder m)) = Some ps" and "ps \<noteq> fmempty"
    and "mq_handlers m = [p]" and "full = case_option fmempty id (fmlookup (mq_deviceState m) sn) ++\<^sub>f ps"
    and "range_order full (pe_params_order (me_handlers env 0))"
    and "fmlookup full k = Some raw" and "toFloat raw = (v, True)"
    and "generateMetricName (pe_tables (me_handlers env 0)) k (pr_prefix p) sn = Inr (name, d)"
    and "name \<noteq> pr_prefix p @ ''_online''"
    and "\<And>k' raw' d'. fmlookup full k' = Some raw' \<Longrightarrow> snd (toFloat raw') \<Longrightarrow>
      generateMetricName (pe_tables (me_handlers env 0)) k' (pr_prefix p) sn = Inr (name, d') \<Longrightarrow> k' = k"
  shows "\<exists>p'. mq_handlers (snd (snd (MessageHandler Handle env topic payload m))) = [p']
    \<and> series p' sn name = Some v \<and> series p' sn (pr_prefix p @ ''_online'') = Some (Fin 1)"
  using assms by (rule message_series)

text \<open>The Prometheus exporter after the updates of a history.\<close>

lemma handled_prom:
  assumes "handled Handle [NewPrometheusExporter prefix] us hs" and "\<And>u. u \<in> set us \<Longrightarrow> upd_samples u = fmempty"
  shows "\<exists>p. hs = [p] \<and> pr_prefix p = prefix \<and> prom_inv p \<and> shown (set us) p"
  using assms
proof (induction rule: handled.induct)
  case handled_none
  then show ?case by (simp add: NewPrometheusExporter_def prom_inv_def shown_def)
next
  case (handled_more us hs envs u hs' u' errs)
  then obtain p where p: "hs = [p]" "pr_prefix p = prefix" "prom_inv p" "shown (set us) p" by auto
  obtain r p' v where h: "Handle (envs 0) p u = (r, p', v)" by (metis surj_pair)
  have "hs' = [p']" using handled_more.hyps(2) p(1) single_dispatch [of Handle envs p u] h by simp
  moreover have "upd_samples u = fmempty" using handled_more.prems by simp
  ultimately show ?case
    using Handle_prefix [OF h] Handle_inv [OF p(3) h] Handle_shown [OF p(4) _ h] p(2) by auto
qed

text \<open>C2: What Prometheus scrapes is what the devices have sent: in every run of the MQTT exporter, with
  serial numbers that contain no underscore, every exposed sample belongs to a configured device,
  carries its name, and is either the online gauge, 0 or 1, or the value of a numeric parameter that
  has been decoded from a message of that device, under the metric name of this parameter.\<close>
theorem exposed_samples_were_received:
  assumes "mqtt_reachable Handle cfg [NewPrometheusExporter prefix] s"
    and "\<And>sn. sn |\<in>| fmdom (mc_Devices cfg) \<Longrightarrow> plain_sn sn"
    and "mq_handlers (sys_mqtt s) = [p]" and "fmlookup (pr_metrics p) key = Some smp"
  shows "fmlookup (mc_Devices cfg) (ps_sn smp) = Some (ps_device smp)
    \<and> (ps_name smp = prefix @ ''_online'' \<and> ps_value smp \<in> {Fin 0, Fin 1}
       \<or> (\<exists>T k raw d ps. EffDecoded (ps_sn smp) ps \<in> set (sys_effects s) \<and> fmlookup ps k = Some raw
            \<and> toFloat raw = (ps_value smp, True) \<and> generateMetricName T k prefix (ps_sn smp) = Inr (ps_name smp, d)))"
proof -
  let ?us = "delivered (sys_effects s)"
  have upd: "update_ok (mc_Devices cfg) u" "effect_received (sys_effects s) (EffUpdate u)" if "u \<in> set ?us" for u
    using reachable_update [OF assms(1)] that by (simp_all add: delivered_iff)
  have "handled Handle [NewPrometheusExporter prefix] ?us [p]"
    using reachable_handled [OF assms(1)] assms(3) by simp
  from handled_prom [OF this] upd(1) have p: "pr_prefix p = prefix" "prom_inv p" "shown (set ?us) p"
    by (auto simp: update_ok_def)
  have plain: "plain_sn (dev_SN (upd_device u))" if "u \<in> set ?us" for u
    using upd(1) [OF that] assms(2) by (auto simp: update_ok_def fmlookup_dom_iff)
  note sample = shown_sample [OF p(3,2) plain assms(4)]
  from sample(1) obtain u where u: "u \<in> set ?us" "dev_SN (upd_device u) = ps_sn smp"
    "explains prefix u (ps_name smp) (ps_value smp)" using p(1) by auto
  have "ps_value smp \<in> {Fin 0, Fin 1}" if "ps_value smp = f64_of_int (dev_Online (upd_device u))"
    using upd(2) [OF u(1)] that by (auto split: if_splits)
  moreover have "\<exists>ps. EffDecoded (ps_sn smp) ps \<in> set (sys_effects s) \<and> fmlookup ps k = Some raw"
    if "dev_Online (upd_device u) \<noteq> 0" "fmlookup (upd_params u) k = Some raw" for k raw
    using upd(2) [OF u(1)] that u(2) by (simp add: all_received_def received_value_def)
  moreover have "fmlookup (mc_Devices cfg) (ps_sn smp) = Some (ps_device smp)"
    using sample(2) upd(1) by (auto simp: update_ok_def)
  ultimately show ?thesis using u(2,3) unfolding explains_def by metis
qed

text \<open>C3: The same for the REST exporter: in every run, with serial numbers that contain no underscore,
  every exposed sample stands for an answer of the API to the request for its device: it carries the
  configured name of the device and is either the online gauge with the flag of the device, or the
  value of a numeric parameter of the answer, which an online device has given, under the metric
  name of this parameter.\<close>
theorem exposed_samples_were_fetched:
  assumes "rest_reachable Handle cfg [NewPrometheusExporter prefix] s"
    and "\<And>d a. (d, a) \<in> set (rs_answers s) \<Longrightarrow> plain_sn (di_SN d)"
    and "re_handlers (rs_rest s) = [p]" and "fmlookup (pr_metrics p) key = Some smp"
  shows "\<exists>(d, a) \<in> set (rs_answers s). ps_sn smp = di_SN d
    \<and> ps_device smp = getDeviceName (rc_Devices cfg) (ps_sn smp)
    \<and> (ps_name smp = prefix @ ''_online'' \<and> ps_value smp = f64_of_int (di_Online d)
       \<or> di_Online d \<noteq> 0 \<and> (\<exists>T k raw n ps. a = Some ps \<and> fmlookup ps k = Some raw
            \<and> toFloat raw = (ps_value smp, True) \<and> generateMetricName T k prefix (ps_sn smp) = Inr (ps_name smp, n)))"
proof -
  let ?us = "rs_updates s"
  have upd: "answer_update (rc_Devices cfg) (rs_answers s) u" if "u \<in> set ?us" for u
    by (rule rest_reachable_update [OF assms(1) that])
  have "handled Handle [NewPrometheusExporter prefix] ?us [p]"
    using rest_reachable_handled [OF assms(1)] assms(3) by simp
  from handled_prom [OF this] upd have p: "pr_prefix p = prefix" "prom_inv p" "shown (set ?us) p"
    by (auto simp: answer_update_def)
  have plain: "plain_sn (dev_SN (upd_device u))" if "u \<in> set ?us" for u
    using upd [OF that] assms(2) by (auto simp: answer_update_def listed_device_def)
  note sample = shown_sample [OF p(3,2) plain assms(4)]
  from sample(1) obtain u where u: "u \<in> set ?us" "dev_SN (upd_device u) = ps_sn smp"
    "explains prefix u (ps_name smp) (ps_value smp)" using p(1) by auto
  from upd [OF u(1)] obtain d a where a: "(d, a) \<in> set (rs_answers s)"
    "upd_device u = listed_device (rc_Devices cfg) d"
    "case a of None \<Rightarrow> di_Online d = 0 \<and> upd_params u = fmempty | Some ps \<Rightarrow> upd_params u = ps"
    by (auto simp: answer_update_def)
  have "dev_Name (upd_device v) = getDeviceName (rc_Devices cfg) (dev_SN (upd_device v))" if "v \<in> set ?us" for v
    using upd [OF that] by (auto simp: answer_update_def listed_device_def)
  then have "ps_device smp = getDeviceName (rc_Devices cfg) (ps_sn smp)" using sample(2) by force
  with u(2,3) a show ?thesis
    by (intro bexI [of _ "(d, a)"]) (auto simp: explains_def listed_device_def split: option.splits)
qed

text \<open>The label values of the samples are serial numbers and names of devices.\<close>

lemma mqtt_labels_utf8:
  assumes "mqtt_reachable Handle cfg [NewPrometheusExporter prefix] s" and "mq_handlers (sys_mqtt s) = [p]"
    and "utf8_mapping (mc_Devices cfg)" and "fmlookup (pr_metrics p) key = Some smp"
  shows "valid_utf8 (ps_device smp) \<and> valid_utf8 (ps_sn smp)"
proof -
  let ?us = "delivered (sys_effects s)"
  have upd: "update_ok (mc_Devices cfg) u" if "u \<in> set ?us" for u
    using reachable_update [OF assms(1)] that by (simp add: delivered_iff)
  have "handled Handle [NewPrometheusExporter prefix] ?us [p]"
    using reachable_handled [OF assms(1)] assms(2) by simp
  from handled_prom [OF this] upd have "shown (set ?us) p" by (auto simp: update_ok_def)
  with assms(4) obtain u where "u \<in> set ?us" "ps_sn smp = dev_SN (upd_device u)" "ps_device smp = dev_Name (upd_device u)"
    unfolding shown_def by blast
  with upd have "fmlookup (mc_Devices cfg) (ps_sn smp) = Some (ps_device smp)" by (auto simp: update_ok_def)
  with assms(3) show ?thesis by (auto simp: utf8_mapping_def)
qed

lemma rest_labels_utf8:
  assumes "rest_reachable Handle cfg [NewPrometheusExporter prefix] s" and "re_handlers (rs_rest s) = [p]"
    and "utf8_mapping (rc_Devices cfg)" and "list_all (valid_utf8 \<circ> di_SN \<circ> fst) (rs_answers s)"
    and "fmlookup (pr_metrics p) key = Some smp"
  shows "valid_utf8 (ps_device smp) \<and> valid_utf8 (ps_sn smp)"
proof -
  let ?us = "rs_updates s"
  have upd: "answer_update (rc_Devices cfg) (rs_answers s) u" if "u \<in> set ?us" for u
    by (rule rest_reachable_update [OF assms(1) that])
  have "handled Handle [NewPrometheusExporter prefix] ?us [p]"
    using rest_reachable_handled [OF assms(1)] assms(2) by simp
  from handled_prom [OF this] upd have "shown (set ?us) p" by (auto simp: answer_update_def)
  with assms(5) obtain u where u: "u \<in> set ?us" "ps_sn smp = dev_SN (upd_device u)" "ps_device smp = dev_Name (upd_device u)"
    unfolding shown_def by blast
  from upd [OF u(1)] obtain d a where "(d, a) \<in> set (rs_answers s)" "upd_device u = listed_device (rc_Devices cfg) d"
    by (auto simp: answer_update_def)
  with u(2,3) assms(3,4) show ?thesis
    by (force simp: listed_device_def list_all_iff utf8_mapping_name)
qed

text \<open>C14: What the running application serves is valid, end to end: whatever configuration loads,
  whatever the devices, the broker and the API send and however the exporter, the watchdog and the
  signals interleave, the handler of the exporter is the one Prometheus exporter, and the client
  library builds a metric for each of its series, when the serial numbers and the names of the configured
  devices, and for the REST exporter the serial numbers of the answers, are valid UTF-8. What is
  assumed of \<open>NewConstMetric\<close> is what the library checks: it succeeds when the descriptor has a valid
  metric name and different valid label names, and the label values are as many as the labels and
  valid UTF-8.\<close>
theorem application_scrapes_valid:
  assumes "start_app T order e version register listen = Inr app" and "interval_positive app"
    and "app_reachable app s"
    and "utf8_mapping (Devices (app_config app))" and "answers_utf8 (ar_exporter s)"
    and "\<And>d v ls. desc_accepted d \<Longrightarrow> length ls = length (pd_labels d) \<Longrightarrow> list_all valid_utf8 ls \<Longrightarrow>
      \<exists>m. NewConstMetric (Some d) v ls = Inr m"
  shows "\<exists>p. run_handlers (ar_exporter s) = [p] \<and> (\<forall>ks. range_order (pr_metrics p) ks \<longrightarrow>
    (\<exists>ms. Collect_metrics NewConstMetric ks p = map Metric ms \<and> length ms = go_len (pr_metrics p)))"
proof -
  let ?prefix = "MetricPrefix (app_config app)"
  have prefix: "prometheus_name ?prefix"
    using LoadConfig_valid_aux [OF start_app_parts(1) [OF assms(1)]] by (simp add: config_valid_def)
  have start: "\<exists>p. [NewPrometheusExporter ?prefix] = [p] \<and> prom_reachable ?prefix p"
    using prom_new by blast
  from app_exporter_reachable [OF assms(1-3)] obtain p where
    "run_handlers (ar_exporter s) = [p]" and p: "prom_reachable ?prefix p"
    and utf8: "\<And>key smp. fmlookup (pr_metrics p) key = Some smp \<Longrightarrow> valid_utf8 (ps_device smp) \<and> valid_utf8 (ps_sn smp)"
    unfolding Let_def
  proof (elim disjE exE conjE)
    fix m mc
    assume m: "ar_exporter s = RunMqtt m" "mc_Devices mc = Devices (app_config app)"
      "mqtt_reachable Handle mc [NewPrometheusExporter ?prefix] m"
    from prom_single.mqtt_reachable_good [OF m(3) start] obtain p where p: "mq_handlers (sys_mqtt m) = [p]"
      "prom_reachable ?prefix p" by blast
    show thesis by (rule that [of p]) (use m p mqtt_labels_utf8 [OF m(3) p(1)] assms(4) in auto)
  next
    fix r rc
    assume r: "ar_exporter s = RunRest r" "rc_Devices rc = Devices (app_config app)"
      "rest_reachable Handle rc [NewPrometheusExporter ?prefix] r"
    from prom_single.rest_reachable_good [OF r(3) start] obtain p where p: "re_handlers (rs_rest r) = [p]"
      "prom_reachable ?prefix p" by blast
    show thesis by (rule that [of p]) (use r p rest_labels_utf8 [OF r(3) p(1)] assms(4,5) in auto)
  qed
  moreover have "\<exists>ms. Collect_metrics NewConstMetric ks p = map Metric ms \<and> length ms = go_len (pr_metrics p)"
    if "range_order (pr_metrics p) ks" for ks
    by (rule Collect_valid [OF p prefix that]) (use utf8 assms(6) in blast)+
  ultimately show ?thesis by blast
qed

section \<open>Witnesses\<close>

text \<open>The sample message on an exporter whose handler is a new Prometheus exporter.\<close>

definition sample_prom_mqtt :: "prom mqtt" where
  "sample_prom_mqtt =
     \<lparr>mq_email = ''a@b.c'', mq_password = ''pw'', mq_client = Some 1,
      mq_devices = fmupd ''R1'' ''garage'' fmempty, mq_handlers = [NewPrometheusExporter ''ecoflow''],
      mq_offlineThreshold = 300 * second, mq_pingInterval = 20 * second,
      mq_stateRefreshInterval = 300 * second, mq_deviceState = fmempty,
      mq_decoder = NewProtobufDecoder False, mq_telemetry = None, mq_userId = ''u7'', mq_relogin = False,
      mq_lastReceived = fmempty, mq_offlineSent = fmempty, mq_reconnectDelay = 0, mq_nextReconnect = 0,
      mq_fruitlessReconnects = 0, mq_pingOK = fmempty, mq_pingFailed = fmempty\<rparr>"

definition sample_prom_env :: "prom_env message_env" where
  "sample_prom_env =
     \<lparr>me_received = unix_epoch, me_seen = unix_epoch + 1, me_update = unix_epoch + 2, me_lib = one_header_lib,
      me_device_params = (\<lambda>b. None),
      me_handlers = (\<lambda>i. \<lparr>pe_tables = sample_tables, pe_params_order = [''bms.3.num''], pe_metrics_order = []\<rparr>)\<rparr>"

lemma sample_prom_decoded:
  "fst (decode_payload sample_prom_env sn [3] d) = Some (fmupd ''bms.3.num'' (VFloat64 (Fin 3)) fmempty)"
proof -
  obtain d' where "DecodeProtobufMessage one_header_lib [3] (LogFirstProtobufMessage sn d) =
      (DecodeOk (fmupd ''bms.3.num'' (VFloat64 (Fin 3)) fmempty), d')"
    using one_header_result by (metis prod.collapse)
  then show ?thesis by (simp add: decode_payload_def sample_prom_env_def one_header_detected)
qed

theorem message_reaches_series_witness:
  "\<exists>p'. mq_handlers (snd (snd (MessageHandler Handle sample_prom_env sample_topic [3] sample_prom_mqtt))) = [p']
     \<and> series p' ''R1'' ''ecoflow_bms_3_num'' = Some (Fin 3) \<and> series p' ''R1'' ''ecoflow_online'' = Some (Fin 1)"
proof -
  let ?ps = "fmupd ''bms.3.num'' (VFloat64 (Fin 3)) fmempty"
  have ne: "?ps \<noteq> fmempty" by (metis fmupd_lookup fmempty_lookup option.distinct(1))
  have full: "?ps = case_option fmempty id (fmlookup (mq_deviceState sample_prom_mqtt) ''R1'') ++\<^sub>f ?ps"
    by (simp add: sample_prom_mqtt_def)
  have "\<exists>p'. mq_handlers (snd (snd (MessageHandler Handle sample_prom_env sample_topic [3] sample_prom_mqtt))) = [p']
     \<and> series p' ''R1'' (pr_prefix (NewPrometheusExporter ''ecoflow'') @ ''_bms_3_num'') = Some (Fin 3)
     \<and> series p' ''R1'' (pr_prefix (NewPrometheusExporter ''ecoflow'') @ ''_online'') = Some (Fin 1)"
    by (rule message_reaches_series [OF sample_topic_sn _ _ sample_prom_decoded ne _ full, where k = "''bms.3.num''"
          and raw = "VFloat64 (Fin 3)" and d = "''R1_ecoflow_bms_3_num''" and device = "''garage''"])
      (auto simp: sample_prom_mqtt_def sample_prom_env_def range_order_def bms_name NewPrometheusExporter_def
        split: if_splits)
  then show ?thesis by (simp add: NewPrometheusExporter_def)
qed

text \<open>A run in which the sample message is received and exposed.\<close>

lemma sample_exposing_steps:
  assumes "mq_handlers m = [NewPrometheusExporter ''ecoflow'']" and "mq_devices m = fmupd ''R1'' device fmempty"
    and "mq_deviceState m = fmempty"
  shows "\<exists>t p smp. mqtt_steps Handle (mqtt_Run unix_epoch m) t \<and> \<not> sys_cancelled t \<and> mq_handlers (sys_mqtt t) = [p]
    \<and> fmlookup (pr_metrics p) ''R1_ecoflow_bms_3_num'' = Some smp"
proof -
  let ?ps = "fmupd ''bms.3.num'' (VFloat64 (Fin 3)) fmempty"
  obtain s where s: "mqtt_steps Handle (mqtt_Run unix_epoch m) s" "EffConnect 1 \<in> set (sys_effects s)"
    "sys_now s = unix_epoch" "sys_mqtt s = m\<lparr>mq_userId := ''u7'', mq_client := Some 1\<rparr>" "\<not> sys_crashed s" "sys_callbacks s = []"
    "\<not> sys_cancelled s"
    using connecting_steps [of Handle unix_epoch m] by blast
  have ms: "mq_handlers (sys_mqtt s) = [NewPrometheusExporter ''ecoflow'']"
    "mq_devices (sys_mqtt s) = fmupd ''R1'' device fmempty" "mq_deviceState (sys_mqtt s) = fmempty"
    using assms by (simp_all add: s(4))
  obtain outcome effects m' where h: "MessageHandler Handle sample_prom_env sample_topic [3] (sys_mqtt s) = (outcome, effects, m')"
    by (metis surj_pair)
  have ne: "?ps \<noteq> fmempty" by (metis fmupd_lookup fmempty_lookup option.distinct(1))
  have full: "?ps = case_option fmempty id (fmlookup (mq_deviceState (sys_mqtt s)) ''R1'') ++\<^sub>f ?ps" by (simp add: ms)
  have "\<exists>p'. mq_handlers (snd (snd (MessageHandler Handle sample_prom_env sample_topic [3] (sys_mqtt s)))) = [p']
     \<and> series p' ''R1'' (pr_prefix (NewPrometheusExporter ''ecoflow'') @ ''_bms_3_num'') = Some (Fin 3)
     \<and> series p' ''R1'' (pr_prefix (NewPrometheusExporter ''ecoflow'') @ ''_online'') = Some (Fin 1)"
    by (rule message_series [OF sample_topic_sn _ _ sample_prom_decoded ne ms(1) full, where k = "''bms.3.num''"
          and raw = "VFloat64 (Fin 3)" and d = "''R1_ecoflow_bms_3_num''" and device = device])
      (auto simp: ms sample_prom_env_def range_order_def bms_name NewPrometheusExporter_def split: if_splits)
  then obtain p smp where p: "mq_handlers m' = [p]" "fmlookup (pr_metrics p) ''R1_ecoflow_bms_3_num'' = Some smp"
    using h by (auto simp: series_def prom_key_def NewPrometheusExporter_def)
  have "callback_runs Handle (sys_now s) [MsgArrived sample_topic [3]] (sys_mqtt s) effects (starts effects) m'"
    using handler_runs_arrived [OF h] s(3) by (simp add: sample_prom_env_def)
  from steps_trans [OF s(1) call_steps [OF this _ s(2,5)]]
  have "mqtt_steps Handle (mqtt_Run unix_epoch m) (sys_do m' effects (s\<lparr>sys_callbacks := starts effects\<rparr>))"
    by (simp add: s(6))
  with p s(7) show ?thesis
    by (intro exI [of _ "sys_do m' effects (s\<lparr>sys_callbacks := starts effects\<rparr>)"] exI [of _ p] exI [of _ smp])
      (simp add: sys_do_def)
qed

text \<open>The application, after its MQTT exporter has got the message.\<close>

theorem application_scrapes_valid_witness:
  "\<exists>app s p ks ms. start_app sample_tables (\<lambda>m. []) (mqtt_env ''R1'' ''30'') ''dev'' (\<lambda>p. None) (\<lambda>a. None) = Inr app
     \<and> app_reachable app s \<and> run_handlers (ar_exporter s) = [p] \<and> ''R1_ecoflow_bms_3_num'' |\<in>| fmdom (pr_metrics p)
     \<and> range_order (pr_metrics p) ks \<and> Collect_metrics const_metric ks p = map Metric ms
     \<and> length ms = go_len (pr_metrics p)"
proof -
  have sn: "trim_space ''R1'' = ''R1''" by (simp add: trim_plain code_def)
  obtain app m where app: "start_app sample_tables (\<lambda>m. []) (mqtt_env ''R1'' ''30'') ''dev'' (\<lambda>p. None) (\<lambda>a. None) = Inr app"
    "interval_positive app" "Devices (app_config app) = fmupd ''R1'' ''R1'' fmempty"
    "app_exporter app = MqttExporter m" "mq_devices m = fmupd ''R1'' ''R1'' fmempty"
    "mq_handlers m = [NewPrometheusExporter ''ecoflow'']" "mq_deviceState m = fmempty"
    using mqtt_app [OF sn, of sample_tables "\<lambda>m. []" "''dev''"] by auto
  from sample_exposing_steps [OF app(6,5,7)] obtain t p smp where t: "mqtt_steps Handle (mqtt_Run unix_epoch m) t"
    "\<not> sys_cancelled t" "mq_handlers (sys_mqtt t) = [p]" "fmlookup (pr_metrics p) ''R1_ecoflow_bms_3_num'' = Some smp"
    by blast
  from app_reaches_mqtt [OF app(1,4) t(1,2)] obtain s where s: "app_reachable app s" "ar_exporter s = RunMqtt t"
    by (auto simp: unix_epoch_def)
  have law: "\<exists>m. const_metric (Some d) v ls = Inr m"
    if "desc_accepted d" "length ls = length (pd_labels d)" "list_all valid_utf8 ls" for d v ls
    using that by (simp add: const_metric_def)
  have "valid_utf8 ''R1''" by (simp add: code_def)
  then have "\<exists>p. run_handlers (ar_exporter s) = [p] \<and> (\<forall>ks. range_order (pr_metrics p) ks \<longrightarrow>
      (\<exists>ms. Collect_metrics const_metric ks p = map Metric ms \<and> length ms = go_len (pr_metrics p)))"
    by (intro application_scrapes_valid [OF app(1,2) s(1), of const_metric] law) (simp_all add: app(3) s(2))
  then have valid: "\<forall>ks. range_order (pr_metrics p) ks \<longrightarrow>
      (\<exists>ms. Collect_metrics const_metric ks p = map Metric ms \<and> length ms = go_len (pr_metrics p))"
    using t(3) s(2) by simp
  obtain ks where ks: "range_order (pr_metrics p) ks" using range_order_exists by blast
  with valid obtain ms where "Collect_metrics const_metric ks p = map Metric ms" "length ms = go_len (pr_metrics p)"
    by blast
  moreover have "run_handlers (ar_exporter s) = [p]" using t(3) s(2) by simp
  moreover have "''R1_ecoflow_bms_3_num'' |\<in>| fmdom (pr_metrics p)" using t(4) by (simp add: fmlookup_dom_iff)
  ultimately show ?thesis using app(1) s(1) ks by blast
qed

theorem exposed_samples_were_received_witness:
  "\<exists>s p smp ps k raw. mqtt_reachable Handle sample_mqtt_config [NewPrometheusExporter ''ecoflow''] s
     \<and> mq_handlers (sys_mqtt s) = [p] \<and> fmlookup (pr_metrics p) ''R1_ecoflow_bms_3_num'' = Some smp
     \<and> EffDecoded ''R1'' ps \<in> set (sys_effects s) \<and> fmlookup ps k = Some raw \<and> toFloat raw = (ps_value smp, True)"
proof -
  let ?hs = "[NewPrometheusExporter ''ecoflow'']"
  obtain m where m: "NewMqttMetricsExporter sample_mqtt_config ?hs = Inr m"
    by (auto simp: NewMqttMetricsExporter_def sample_mqtt_config_def go_len_zero_iff)
  then have ms: "mq_handlers m = ?hs" "mq_devices m = fmupd ''R1'' ''garage'' fmempty" "mq_deviceState m = fmempty"
    by (auto simp: NewMqttMetricsExporter_def sample_mqtt_config_def split: if_splits)
  from sample_exposing_steps [OF ms] obtain t p smp where t: "mqtt_steps Handle (mqtt_Run unix_epoch m) t"
    "mq_handlers (sys_mqtt t) = [p]" "fmlookup (pr_metrics p) ''R1_ecoflow_bms_3_num'' = Some smp" by blast
  have r: "mqtt_reachable Handle sample_mqtt_config ?hs t" using m t(1) unfolding mqtt_reachable_def by blast
  have "prom_inv p"
    using prom_single.mqtt_reachable_good [OF r] t(2) prom_new reachable_inv by fastforce
  with prom_inv_sample t(3) have key: "''R1_ecoflow_bms_3_num'' = prom_key (ps_sn smp) (ps_name smp)" by blast
  have plain: "plain_sn sn" if "sn |\<in>| fmdom (mc_Devices sample_mqtt_config)" for sn
    using that by (auto simp: sample_mqtt_config_def plain_sn_def)
  note res = exposed_samples_were_received [OF r plain t(2,3)]
  then have sn: "ps_sn smp = ''R1''" by (auto simp: sample_mqtt_config_def split: if_splits)
  with key have "ps_name smp = ''ecoflow_bms_3_num''" by (simp add: prom_key_def)
  then have "ps_name smp \<noteq> ''ecoflow'' @ ''_online''" by simp
  with res sn r t(2,3) show ?thesis by metis
qed

theorem exposed_samples_were_fetched_witness:
  "\<exists>cfg s p smp. rest_reachable Handle cfg [NewPrometheusExporter ''ecoflow''] s \<and> re_handlers (rs_rest s) = [p]
     \<and> fmlookup (pr_metrics p) ''R1_ecoflow_bms_3_num'' = Some smp \<and> ps_device smp = ''R1'' \<and> ps_value smp = Fin 3"
proof -
  let ?cfg = "\<lparr>rc_Interval = 30 * second, rc_Devices = fmempty, rc_Telemetry = None\<rparr>"
  let ?p = "NewPrometheusExporter ''ecoflow''"
  let ?ps = "fmupd ''bms.3.num'' (VFloat64 (Fin 3)) fmempty"
  let ?env = "\<lparr>pe_tables = sample_tables, pe_params_order = [''bms.3.num''], pe_metrics_order = []\<rparr>"
  let ?u = "NewDeviceUpdate minute \<lparr>dev_SN = ''R1'', dev_Name = ''R1'', dev_Online = 1\<rparr> ?ps"
  let ?e = "(NewRestMetricsExporter ?cfg [?p])\<lparr>re_started := minute, re_lastSuccess := minute\<rparr>"
  obtain r p u' where h: "Handle ?env ?p ?u = (r, p, u')" by (metis surj_pair)
  obtain errs e where c: "call_rest_handlers Handle (\<lambda>i. ?env) ?u ?e = (errs, e)" by (metis surj_pair)
  have "re_handlers ?e = [?p]" by (simp add: NewRestMetricsExporter_def)
  then have p: "re_handlers e = [p]"
    using c single_dispatch [of Handle "\<lambda>i. ?env" ?p ?u] h by (auto simp: call_rest_handlers_def split: prod.splits)
  obtain s where s: "rest_reachable Handle ?cfg [?p] s" "rs_rest s = e"
    "rs_answers s = [(\<lparr>di_SN = ''R1'', di_Online = 1\<rparr>, Some ?ps)]"
    using sample_rest_run [OF _ _ _ c] by auto
  have "series p (dev_SN (upd_device ?u)) (pr_prefix ?p @ ''_bms_3_num'') = Some (Fin 3)"
    by (rule Handle_exposes [OF _ _ _ h, where k = "''bms.3.num''" and raw = "VFloat64 (Fin 3)" and d = "''R1_ecoflow_bms_3_num''"])
      (auto simp: NewDeviceUpdate_def range_order_def bms_name NewPrometheusExporter_def split: if_splits)
  then obtain smp where smp: "fmlookup (pr_metrics p) ''R1_ecoflow_bms_3_num'' = Some smp"
    by (auto simp: series_def prom_key_def NewPrometheusExporter_def NewDeviceUpdate_def)
  have plain: "plain_sn (di_SN d)" if "(d, a) \<in> set (rs_answers s)" for d a
    using that s(3) by (simp add: plain_sn_def)
  have hs: "re_handlers (rs_rest s) = [p]" using p s(2) by simp
  have "prom_inv p" using prom_single.rest_reachable_good [OF s(1)] hs prom_new reachable_inv by fastforce
  with prom_inv_sample smp have key: "''R1_ecoflow_bms_3_num'' = prom_key (ps_sn smp) (ps_name smp)" by blast
  have "\<exists>(d, a) \<in> set (rs_answers s). ps_sn smp = di_SN d
    \<and> ps_device smp = getDeviceName (rc_Devices ?cfg) (ps_sn smp)
    \<and> (ps_name smp = ''ecoflow'' @ ''_online'' \<and> ps_value smp = f64_of_int (di_Online d)
       \<or> di_Online d \<noteq> 0 \<and> (\<exists>T k raw n ps. a = Some ps \<and> fmlookup ps k = Some raw
            \<and> toFloat raw = (ps_value smp, True) \<and> generateMetricName T k ''ecoflow'' (ps_sn smp) = Inr (ps_name smp, n)))"
    by (rule exposed_samples_were_fetched [OF s(1) _ hs smp]) (rule plain)
  then have res: "ps_sn smp = ''R1'' \<and> ps_device smp = ''R1''
      \<and> (ps_name smp = ''ecoflow'' @ ''_online'' \<or> ps_value smp = Fin 3)"
    unfolding s(3) by (auto simp: getDeviceName_def split: if_splits)
  then have sn: "ps_sn smp = ''R1''" "ps_device smp = ''R1''" by simp_all
  with key have "ps_name smp = ''ecoflow_bms_3_num''" by (simp add: prom_key_def)
  then have "ps_name smp \<noteq> ''ecoflow'' @ ''_online''" by simp
  with res have "ps_value smp = Fin 3" by simp
  with s(1) hs smp sn(2) show ?thesis by blast
qed

end
